(* ===== verification/Prelude.thy ===== *)
theory Prelude
  imports Main "HOL-Library.AList" "HOL-Library.Char_ord" "HOL-Library.List_Lexorder"
begin

section \<open>Prelude: time, errors, keyset positions and shared lemmas\<close>

text \<open>
  What every component of the bill service shares: Go's error values with \<open>errors.Is\<close>
  and \<open>errors.As\<close>, instants of time, the pair a keyset cursor compares, and the
  generic list lemmas (rows of a table addressed by a key) the component proofs rest on.
\<close>

named_theorems field_simps_db \<open>how a table operation acts on each table and each column\<close>
named_theorems wf_defs \<open>the functions a workflow step is made of\<close>

subsection \<open>Time\<close>

text \<open>
  A \<open>time.Time\<close> is an instant (nanoseconds since the Unix epoch) and the offset of its
  location in seconds east of UTC. \<open>After\<close> and \<open>Sub\<close> look at the instant only.
\<close>

record gotime =
  unix_ns :: int
  zone :: int

definition time_After :: "gotime \<Rightarrow> gotime \<Rightarrow> bool" where
  "time_After t u \<longleftrightarrow> unix_ns u < unix_ns t"

definition time_Sub :: "gotime \<Rightarrow> gotime \<Rightarrow> int" where
  "time_Sub t u = unix_ns t - unix_ns u"

definition second :: int where
  "second = 1000000000"

definition minute :: int where
  "minute = 60 * second"

definition hour :: int where
  "hour = 60 * minute"

subsection \<open>Errors\<close>

text \<open>
  The codes of \<open>errs.Error\<close> the service returns, and the error values its code tells
  apart with \<open>errors.Is\<close> and \<open>errors.As\<close>. \<open>ErrorString\<close> is any error the code does
  not look into; \<open>Wrap\<close> is \<open>fmt.Errorf\<close> with \<open>%w\<close>.
\<close>

datatype ErrCode =
    InvalidArgument | NotFound | FailedPrecondition | DeadlineExceeded | Canceled
  | Unavailable | Internal | Unauthenticated | PermissionDenied

datatype go_error =
    ErrNoRows
  | ErrClientNotFound
  | ContextCanceled
  | ContextDeadlineExceeded
  | ServiceNotFound
  | WorkflowExecutionAlreadyStarted
  | ApplicationError string string
  | TimeoutError
  | CanceledError
  | ActivityError
  | ErrsError ErrCode string
  | ErrorString string
  | Wrap string go_error

text \<open>
  \<open>errors_find p e\<close> is the first error of the chain of \<open>e\<close> that satisfies \<open>p\<close>:
  \<open>errors.As\<close> with \<open>p\<close> the test for the target's type.
\<close>

fun errors_find :: "(go_error \<Rightarrow> bool) \<Rightarrow> go_error \<Rightarrow> go_error option" where
  "errors_find p (Wrap m e) = (if p (Wrap m e) then Some (Wrap m e) else errors_find p e)"
| "errors_find p e = (if p e then Some e else None)"

definition errors_Is :: "go_error \<Rightarrow> go_error \<Rightarrow> bool" where
  "errors_Is e target \<longleftrightarrow> errors_find (\<lambda>x. x = target) e \<noteq> None"

fun is_ApplicationError :: "go_error \<Rightarrow> bool" where
  "is_ApplicationError (ApplicationError t m) = True"
| "is_ApplicationError _ = False"

lemma errors_find_sound: "errors_find p e = Some x \<Longrightarrow> p x"
  by (induction e) (auto split: if_splits)

lemma errors_find_Wrap [simp]:
  "\<not> p (Wrap m e) \<Longrightarrow> errors_find p (Wrap m e) = errors_find p e"
  by simp

lemma errors_Is_refl [simp]: "errors_Is e e"
  by (cases e) (simp_all add: errors_Is_def)

lemma errors_Is_Wrap [simp]:
  "errors_Is (Wrap m e) t \<longleftrightarrow> Wrap m e = t \<or> errors_Is e t"
  by (auto simp: errors_Is_def)

lemma errors_Is_simps [simp]:
  "errors_Is (ErrorString s) t \<longleftrightarrow> ErrorString s = t"
  "errors_Is ErrNoRows t \<longleftrightarrow> ErrNoRows = t"
  "errors_Is ErrClientNotFound t \<longleftrightarrow> ErrClientNotFound = t"
  by (auto simp: errors_Is_def)

subsection \<open>Keyset positions\<close>

text \<open>
  The pair (created_at, id) that the listings are ordered by and that a cursor holds.
  Postgres compares row values column by column; ids are compared as text, which for
  the canonical form of a UUID is the order of its bytes.
\<close>

datatype keypos = Keypos (kp_time: int) (kp_id: string)

instantiation keypos :: linorder
begin

definition less_eq_keypos :: "keypos \<Rightarrow> keypos \<Rightarrow> bool" where
  "less_eq_keypos a b \<longleftrightarrow>
     kp_time a < kp_time b \<or> (kp_time a = kp_time b \<and> kp_id a \<le> kp_id b)"

definition less_keypos :: "keypos \<Rightarrow> keypos \<Rightarrow> bool" where
  "less_keypos a b \<longleftrightarrow>
     kp_time a < kp_time b \<or> (kp_time a = kp_time b \<and> kp_id a < kp_id b)"

instance
  by standard (auto simp: less_eq_keypos_def less_keypos_def keypos.expand)

end

subsection \<open>Rows addressed by a key\<close>

text \<open>
  A table is a list of rows with distinct keys. \<open>upd_where\<close> is SQL's
  \<open>UPDATE ... WHERE key = k\<close>.
\<close>

definition upd_where :: "('r \<Rightarrow> 'k) \<Rightarrow> 'k \<Rightarrow> ('r \<Rightarrow> 'r) \<Rightarrow> 'r list \<Rightarrow> 'r list" where
  "upd_where key k f rs = map (\<lambda>r. if key r = k then f r else r) rs"

lemma upd_where_simps [simp]:
  "upd_where key k f [] = []"
  "upd_where key k f (r # rs) = (if key r = k then f r else r) # upd_where key k f rs"
  by (simp_all add: upd_where_def)

lemma map_upd_where:
  "(\<And>r. g (f r) = g r) \<Longrightarrow> map g (upd_where key k f rs) = map g rs"
  by (induction rs) auto

lemma set_upd_where:
  "set (upd_where key k f rs) = (\<lambda>r. if key r = k then f r else r) ` set rs"
  by (simp add: upd_where_def)

lemma image_upd_where [simp]:
  "(\<And>r. g (f r) = g r) \<Longrightarrow> g ` set (upd_where key k f rs) = g ` set rs"
  by (metis list.set_map map_upd_where)

lemma ball_upd_where:
  "(\<And>r. P (f r) = P r) \<Longrightarrow> (\<forall>r\<in>set (upd_where key k f rs). P r) = (\<forall>r\<in>set rs. P r)"
  by (induction rs) auto

lemma find_upd_where:
  "(\<And>r. key (f r) = key r) \<Longrightarrow>
   find (\<lambda>r. key r = j) (upd_where key k f rs) =
     (if j = k then map_option f (find (\<lambda>r. key r = j) rs) else find (\<lambda>r. key r = j) rs)"
  by (induction rs) auto

lemma find_append:
  "find p (xs @ ys) = (case find p xs of Some x \<Rightarrow> Some x | None \<Rightarrow> find p ys)"
  by (induction xs) auto

lemma find_SomeD: "find p xs = Some x \<Longrightarrow> x \<in> set xs \<and> p x"
  by (induction xs) (auto split: if_splits)

lemma find_key_None: "find (\<lambda>r. key r = k) rs = None \<longleftrightarrow> k \<notin> key ` set rs"
  by (auto simp: find_None_iff)

lemma find_key_Some: "find (\<lambda>r. key r = k) rs = Some r \<Longrightarrow> r \<in> set rs \<and> key r = k"
  by (auto simp: find_Some_iff)

lemma find_key_distinct:
  "distinct (map key rs) \<Longrightarrow> r \<in> set rs \<Longrightarrow> find (\<lambda>x. key x = key r) rs = Some r"
  by (induction rs) force+

lemma find_key_ex: "k \<in> key ` set rs \<Longrightarrow> \<exists>r. find (\<lambda>x. key x = k) rs = Some r"
  by (metis find_key_None not_None_eq)

end
