(* ===== verification/Models.thy ===== *)
theory Models
  imports Prelude
begin

section \<open>Data model (bill/models.go, bill/signals.go, bill/registry.go's map)\<close>

text \<open>
  The structs and enums of \<open>models.go\<close> and \<open>signals.go\<close>. Amounts are
  \<open>shopspring/decimal\<close> values: the package is not part of the repository, so their type
  is a parameter \<open>'d\<close>, and what the code relies on is that decimals with their exact
  addition and order form an ordered abelian group (the sort of \<open>'d\<close> where a definition
  adds or compares amounts). The other operations of code outside the repository are the
  fields of \<open>lib\<close>, an argument of the definitions that call them.
\<close>

type_synonym Currency = string

record CurrencyMeta =
  cm_Code :: string
  cm_Name :: string
  cm_NumericCode :: int
  cm_Decimals :: int

text \<open>The registry loaded from the currencies table; a nil Go map looks up as \<open>[]\<close>.\<close>

type_synonym registry = "(Currency \<times> CurrencyMeta) list"

definition Currency_Meta :: "registry \<Rightarrow> Currency \<Rightarrow> CurrencyMeta option" where
  "Currency_Meta reg c = map_of reg c"

definition Currency_Valid :: "registry \<Rightarrow> Currency \<Rightarrow> bool" where
  "Currency_Valid reg c \<longleftrightarrow> map_of reg c \<noteq> None"

definition Currency_Decimals :: "registry \<Rightarrow> Currency \<Rightarrow> int" where
  "Currency_Decimals reg c = (case map_of reg c of Some meta \<Rightarrow> cm_Decimals meta | None \<Rightarrow> 2)"

datatype BillStatus = BillStatusOpen | BillStatusClosed

text \<open>\<open>CloseReasonNone\<close> is the zero value (the empty string) of \<open>CloseReason\<close>.\<close>

datatype CloseReason = CloseReasonNone | CloseReasonSignal | CloseReasonPeriodEnd

datatype BillEventKind = BillEventOpened | BillEventItemAdded | BillEventClosed

fun status_string :: "BillStatus \<Rightarrow> string" where
  "status_string BillStatusOpen = ''OPEN''"
| "status_string BillStatusClosed = ''CLOSED''"

fun kind_string :: "BillEventKind \<Rightarrow> string" where
  "kind_string BillEventOpened = ''OPENED''"
| "kind_string BillEventItemAdded = ''ITEM_ADDED''"
| "kind_string BillEventClosed = ''CLOSED''"

fun reason_string :: "CloseReason \<Rightarrow> string" where
  "reason_string CloseReasonNone = ''''"
| "reason_string CloseReasonSignal = ''SIGNAL''"
| "reason_string CloseReasonPeriodEnd = ''PERIOD_END''"

definition SystemActor :: string where
  "SystemActor = ''system''"

record 'd LineItem =
  li_ID :: string
  li_Description :: string
  li_Amount :: 'd
  li_Currency :: Currency
  li_CreatedAt :: gotime

record 'd Bill =
  bill_ID :: string
  bill_AccountID :: string
  bill_Status :: BillStatus
  bill_Currency :: Currency
  bill_LineItems :: "'d LineItem list option"
  bill_TotalAmount :: 'd
  bill_ItemCount :: int
  bill_CreatedAt :: gotime
  bill_ClosedAt :: "gotime option"
  bill_PeriodStart :: "gotime option"
  bill_PeriodEnd :: "gotime option"
  bill_CloseReason :: CloseReason

record 'd BillWorkflowInput =
  wi_BillID :: string
  wi_AccountID :: string
  wi_Currency :: Currency
  wi_PeriodStart :: "gotime option"
  wi_PeriodEnd :: "gotime option"
  wi_Snapshot :: "'d Bill option"
  wi_SeenItemIDs :: "string list"

record 'd BillResult =
  br_BillID :: string
  br_TotalAmount :: 'd
  br_Currency :: Currency
  br_ItemCount :: int
  br_CloseReason :: CloseReason

record 'd AddLineItemInput =
  in_ItemID :: string
  in_Description :: string
  in_Amount :: 'd
  in_Currency :: Currency
  in_CallerAccountID :: string

record 'd AddLineItemResult =
  res_ItemID :: string
  res_BillTotal :: 'd
  res_ItemCount :: int

text \<open>
  Code outside the repository that the model takes as a parameter: what Postgres makes of
  a text given for a UUID column (\<open>None\<close>: invalid syntax), of a value stored in a
  \<open>NUMERIC(30,10)\<close> column (\<open>None\<close>: out of range) and of a timestamp; the decimal
  package's conversions; \<open>uuid.NewSHA1\<close> over the service's namespace; the error a
  caller receives when an update handler or validator returns a given error, after
  Temporal has carried it over the wire; the text of an error; and what \<open>%q\<close> makes of a run of
  bytes outside ASCII, which depends on Unicode tables.
\<close>

record 'd lib =
  pg_uuid :: "string \<Rightarrow> string option"
  pg_numeric :: "'d \<Rightarrow> 'd option"
  pg_time :: "gotime \<Rightarrow> gotime"
  dec_String :: "'d \<Rightarrow> string"
  dec_NewFromString :: "string \<Rightarrow> 'd option"
  dec_StringFixed :: "'d \<Rightarrow> int \<Rightarrow> string"
  uuid_NewSHA1 :: "string \<Rightarrow> string"
  wire_error :: "go_error \<Rightarrow> go_error"
  err_Error :: "go_error \<Rightarrow> string"
  quote_runes :: "string \<Rightarrow> string"

definition FormatAmount :: "'d lib \<Rightarrow> registry \<Rightarrow> Currency \<Rightarrow> 'd \<Rightarrow> string" where
  "FormatAmount lib reg c amount =
     dec_StringFixed lib amount (Currency_Decimals reg c) @ '' '' @ c"

text \<open>The counters of \<open>metrics.go\<close>, kept as the log of their increments.\<close>

datatype Metric =
    BillsOpened string
  | BillsClosed string
  | LineItemsAdded string
  | ValidatorRejection string

lemma Currency_Valid_Meta: "Currency_Valid reg c \<longleftrightarrow> (\<exists>m. Currency_Meta reg c = Some m)"
  by (simp add: Currency_Valid_def Currency_Meta_def)

lemma Currency_Decimals_valid:
  "Currency_Meta reg c = Some m \<Longrightarrow> Currency_Decimals reg c = cm_Decimals m"
  by (simp add: Currency_Meta_def Currency_Decimals_def)

lemma Currency_Valid_Nil [simp]: "\<not> Currency_Valid [] c"
  by (simp add: Currency_Valid_def)

end
