(* ===== verification/Database.thy ===== *)
theory Database
  imports Models
begin

section \<open>Tables and statements (bill/migrations, the SQL of activities.go and endpoints.go)\<close>

text \<open>
  The Postgres tables as the migrations declare them, each a list of rows in insertion
  order, and one definition per SQL statement of the service. A statement returns the
  error the driver reports or its result and the new database. The constraints of the
  schema (primary keys, foreign keys, \<open>CHECK\<close>s, column types) are the conditions under
  which a write fails. \<open>db_ok\<close> states the constraints; every write keeps it.
\<close>

record 'd BillRow =
  br_id :: string
  br_account_id :: string
  br_status :: BillStatus
  br_currency :: Currency
  br_total_amount :: 'd
  br_created_at :: gotime
  br_closed_at :: "gotime option"
  br_period_start :: "gotime option"
  br_period_end :: "gotime option"
  br_close_reason :: "CloseReason option"

record 'd ItemRow =
  lr_id :: string
  lr_bill_id :: string
  lr_description :: string
  lr_amount :: 'd
  lr_currency :: Currency
  lr_created_at :: gotime

text \<open>The JSON payloads the activities write, before marshalling.\<close>

datatype Payload =
    OpenedPayload Currency "gotime option" "gotime option"
  | ItemAddedPayload string string string Currency
  | ClosedPayload string CloseReason

record EventRow =
  er_id :: string
  er_bill_id :: string
  er_kind :: BillEventKind
  er_actor :: string
  er_payload :: Payload
  er_created_at :: gotime

record CurrencyRow =
  cr_code :: string
  cr_name :: string
  cr_numeric_code :: int
  cr_minor_unit :: int

datatype ClientStatus = ClientStatusActive | ClientStatusSuspended

record ClientRow =
  cl_id :: string
  cl_name :: string
  cl_status :: ClientStatus

record 'd DB =
  bills :: "'d BillRow list"
  line_items :: "'d ItemRow list"
  bill_events :: "EventRow list"
  currencies :: "CurrencyRow list"
  clients :: "ClientRow list"

definition invalid_uuid :: go_error where
  "invalid_uuid = ErrorString ''invalid input syntax for type uuid''"

definition numeric_overflow :: go_error where
  "numeric_overflow = ErrorString ''numeric field overflow''"

subsection \<open>Reads of one row\<close>

definition find_bill :: "string \<Rightarrow> 'd DB \<Rightarrow> 'd BillRow option" where
  "find_bill u db = find (\<lambda>r. br_id r = u) (bills db)"

definition find_item :: "string \<Rightarrow> 'd DB \<Rightarrow> 'd ItemRow option" where
  "find_item u db = find (\<lambda>r. lr_id r = u) (line_items db)"

definition items_of :: "string \<Rightarrow> 'd DB \<Rightarrow> 'd ItemRow list" where
  "items_of u db = filter (\<lambda>r. lr_bill_id r = u) (line_items db)"

definition events_of :: "string \<Rightarrow> 'd DB \<Rightarrow> EventRow list" where
  "events_of u db = filter (\<lambda>r. er_bill_id r = u) (bill_events db)"

definition items_total :: "string \<Rightarrow> 'd::comm_monoid_add DB \<Rightarrow> 'd" where
  "items_total u db = sum_list (map lr_amount (items_of u db))"

subsection \<open>Writes\<close>

text \<open>
  \<open>INSERT INTO bills ... ON CONFLICT (id) DO NOTHING RETURNING id\<close>: a conflict returns no
  row, which the driver reports as \<open>ErrNoRows\<close>; the foreign keys of a row that does go in
  are checked at the end of the statement.
\<close>

definition insert_bill :: "'d lib \<Rightarrow> 'd Bill \<Rightarrow> 'd::zero DB \<Rightarrow> go_error + (string \<times> 'd DB)" where
  "insert_bill lib b db =
     (case pg_uuid lib (bill_ID b) of
        None \<Rightarrow> Inl invalid_uuid
      | Some u \<Rightarrow>
          if find_bill u db \<noteq> None then Inl ErrNoRows
          else if bill_Currency b \<notin> cr_code ` set (currencies db)
          then Inl (ErrorString ''violates foreign key constraint bills_currency_fk'')
          else if bill_AccountID b \<notin> cl_id ` set (clients db)
          then Inl (ErrorString ''violates foreign key constraint bills_account_fk'')
          else Inr (u, db\<lparr>bills := bills db @
             [\<lparr>br_id = u, br_account_id = bill_AccountID b, br_status = bill_Status b,
               br_currency = bill_Currency b, br_total_amount = 0,
               br_created_at = pg_time lib (bill_CreatedAt b), br_closed_at = None,
               br_period_start = map_option (pg_time lib) (bill_PeriodStart b),
               br_period_end = map_option (pg_time lib) (bill_PeriodEnd b),
               br_close_reason = None\<rparr>]\<rparr>))"

text \<open>
  \<open>INSERT INTO line_items ... ON CONFLICT (id) DO NOTHING RETURNING id\<close>. The column types
  and the \<open>CHECK (amount > 0)\<close> are enforced before the conflict is looked for.
\<close>

definition insert_line_item ::
  "'d lib \<Rightarrow> string \<Rightarrow> 'd LineItem \<Rightarrow> 'd::{zero,ord} DB \<Rightarrow> go_error + (string \<times> 'd DB)" where
  "insert_line_item lib billID it db =
     (case (pg_uuid lib (li_ID it), pg_uuid lib billID, pg_numeric lib (li_Amount it)) of
        (None, _, _) \<Rightarrow> Inl invalid_uuid
      | (Some _, None, _) \<Rightarrow> Inl invalid_uuid
      | (Some _, Some _, None) \<Rightarrow> Inl numeric_overflow
      | (Some i, Some u, Some a) \<Rightarrow>
          if \<not> 0 < a then Inl (ErrorString ''violates check constraint line_items_amount_check'')
          else if find_item i db \<noteq> None then Inl ErrNoRows
          else if find_bill u db = None
          then Inl (ErrorString ''violates foreign key constraint line_items_bill_id_fkey'')
          else if li_Currency it \<notin> cr_code ` set (currencies db)
          then Inl (ErrorString ''violates foreign key constraint line_items_currency_fk'')
          else Inr (i, db\<lparr>line_items := line_items db @
             [\<lparr>lr_id = i, lr_bill_id = u, lr_description = li_Description it, lr_amount = a,
               lr_currency = li_Currency it, lr_created_at = pg_time lib (li_CreatedAt it)\<rparr>]\<rparr>))"

text \<open>
  \<open>UPDATE bills SET total_amount = total_amount + $1 WHERE id = $2\<close>: the sum is exact, the
  column type applies to the sum. No matching row is no error.
\<close>

definition update_bill_total ::
  "'d lib \<Rightarrow> string \<Rightarrow> 'd \<Rightarrow> 'd::plus DB \<Rightarrow> go_error + 'd DB" where
  "update_bill_total lib billID a db =
     (case pg_uuid lib billID of
        None \<Rightarrow> Inl invalid_uuid
      | Some u \<Rightarrow>
          (case find_bill u db of
             None \<Rightarrow> Inr db
           | Some r \<Rightarrow>
               (case pg_numeric lib (br_total_amount r + a) of
                  None \<Rightarrow> Inl numeric_overflow
                | Some t \<Rightarrow>
                    Inr (db\<lparr>bills := upd_where br_id u (br_total_amount_update (\<lambda>_. t)) (bills db)\<rparr>))))"

text \<open>\<open>nullableCloseReason\<close>: the empty reason is SQL's NULL.\<close>

definition nullableCloseReason :: "CloseReason \<Rightarrow> CloseReason option" where
  "nullableCloseReason r = (if r = CloseReasonNone then None else Some r)"

text \<open>\<open>UPDATE bills SET status = 'CLOSED', ... WHERE id = $1\<close>\<close>

definition close_row :: "'d \<Rightarrow> gotime \<Rightarrow> CloseReason option \<Rightarrow> 'd BillRow \<Rightarrow> 'd BillRow" where
  "close_row t at reason r =
     r\<lparr>br_status := BillStatusClosed, br_total_amount := t, br_closed_at := Some at,
       br_close_reason := reason\<rparr>"

definition update_bill_close ::
  "'d lib \<Rightarrow> string \<Rightarrow> 'd \<Rightarrow> gotime \<Rightarrow> CloseReason option \<Rightarrow> 'd DB \<Rightarrow> go_error + 'd DB" where
  "update_bill_close lib billID amt at reason db =
     (case pg_uuid lib billID of
        None \<Rightarrow> Inl invalid_uuid
      | Some u \<Rightarrow>
          if find_bill u db = None then Inr db
          else (case pg_numeric lib amt of
             None \<Rightarrow> Inl numeric_overflow
           | Some t \<Rightarrow>
               Inr (db\<lparr>bills := upd_where br_id u (close_row t (pg_time lib at) reason) (bills db)\<rparr>)))"

text \<open>
  \<open>INSERT INTO bill_events (bill_id, kind, actor, payload)\<close>; the id and the time are the
  column defaults \<open>gen_random_uuid()\<close> and \<open>NOW()\<close>, supplied by the server.
\<close>

definition insert_event ::
  "'d lib \<Rightarrow> string \<Rightarrow> gotime \<Rightarrow> string \<Rightarrow> BillEventKind \<Rightarrow> string \<Rightarrow> Payload \<Rightarrow> 'd DB
     \<Rightarrow> go_error + 'd DB" where
  "insert_event lib fresh now billID kind actor payload db =
     (case pg_uuid lib billID of
        None \<Rightarrow> Inl invalid_uuid
      | Some u \<Rightarrow>
          if fresh \<in> er_id ` set (bill_events db)
          then Inl (ErrorString ''violates primary key bill_events_pkey'')
          else if find_bill u db = None
          then Inl (ErrorString ''violates foreign key constraint bill_events_bill_id_fkey'')
          else Inr (db\<lparr>bill_events := bill_events db @
             [\<lparr>er_id = fresh, er_bill_id = u, er_kind = kind, er_actor = actor,
               er_payload = payload, er_created_at = now\<rparr>]\<rparr>))"

subsection \<open>The schema's constraints\<close>

definition db_ok :: "'d::{zero,ord} DB \<Rightarrow> bool" where
  "db_ok db \<longleftrightarrow>
     distinct (map br_id (bills db)) \<and> distinct (map lr_id (line_items db)) \<and>
     distinct (map er_id (bill_events db)) \<and>
     (\<forall>b\<in>set (bills db). br_currency b \<in> cr_code ` set (currencies db) \<and>
        br_account_id b \<in> cl_id ` set (clients db)) \<and>
     (\<forall>r\<in>set (line_items db). 0 < lr_amount r \<and> lr_bill_id r \<in> br_id ` set (bills db) \<and>
        lr_currency r \<in> cr_code ` set (currencies db)) \<and>
     (\<forall>e\<in>set (bill_events db). er_bill_id e \<in> br_id ` set (bills db))"

lemma find_bill_None: "find_bill u db = None \<longleftrightarrow> u \<notin> br_id ` set (bills db)"
  by (auto simp: find_bill_def find_None_iff)

lemma find_bill_Some: "find_bill u db = Some r \<Longrightarrow> r \<in> set (bills db) \<and> br_id r = u"
  by (auto simp: find_bill_def find_Some_iff)

lemma find_item_None: "find_item u db = None \<longleftrightarrow> u \<notin> lr_id ` set (line_items db)"
  by (auto simp: find_item_def find_None_iff)

lemma find_item_Some: "find_item u db = Some r \<Longrightarrow> r \<in> set (line_items db) \<and> lr_id r = u"
  by (auto simp: find_item_def find_Some_iff)

lemma close_row_id [simp]: "br_id (close_row t at reason r) = br_id r"
  by (simp add: close_row_def)

lemma insert_bill_ok: "db_ok db \<Longrightarrow> insert_bill lib b db = Inr (u, db') \<Longrightarrow> db_ok db'"
  by (auto simp: insert_bill_def db_ok_def find_bill_None split: option.splits if_splits)

lemma insert_line_item_ok:
  "db_ok db \<Longrightarrow> insert_line_item lib bid it db = Inr (i, db') \<Longrightarrow> db_ok db'"
  by (auto simp: insert_line_item_def db_ok_def find_bill_None find_item_None
      split: option.splits if_splits)

lemma db_ok_upd_where:
  assumes "\<And>r. br_id (f r) = br_id r" "\<And>r. br_currency (f r) = br_currency r"
    "\<And>r. br_account_id (f r) = br_account_id r"
  shows "db_ok (db\<lparr>bills := upd_where br_id u f (bills db)\<rparr>) = db_ok db"
  using assms by (simp add: db_ok_def map_upd_where ball_upd_where)

lemma update_bill_total_ok: "db_ok db \<Longrightarrow> update_bill_total lib bid a db = Inr db' \<Longrightarrow> db_ok db'"
  by (auto simp: update_bill_total_def db_ok_upd_where split: option.splits)

lemma update_bill_close_ok:
  "db_ok db \<Longrightarrow> update_bill_close lib bid t at reason db = Inr db' \<Longrightarrow> db_ok db'"
  by (auto simp: update_bill_close_def db_ok_upd_where close_row_def split: option.splits if_splits)

lemma insert_event_ok:
  "db_ok db \<Longrightarrow> insert_event lib fresh now bid kind actor p db = Inr db' \<Longrightarrow> db_ok db'"
  by (auto simp: insert_event_def db_ok_def find_bill_None split: option.splits if_splits)

subsection \<open>What a transaction may change\<close>

text \<open>
  \<open>db_extends db db'\<close>: rows of \<open>line_items\<close> and \<open>bill_events\<close> are only appended, no bill row
  disappears or changes its owner, currency or creation time, and a closed bill stays closed.
\<close>

definition db_extends :: "'d DB \<Rightarrow> 'd DB \<Rightarrow> bool" where
  "db_extends db db' \<longleftrightarrow>
     (\<exists>es. bill_events db' = bill_events db @ es) \<and>
     (\<exists>is. line_items db' = line_items db @ is) \<and>
     currencies db' = currencies db \<and> clients db' = clients db \<and>
     (\<forall>u r. find_bill u db = Some r \<longrightarrow> (\<exists>r'. find_bill u db' = Some r' \<and>
        br_account_id r' = br_account_id r \<and> br_currency r' = br_currency r \<and>
        br_created_at r' = br_created_at r \<and>
        (br_status r = BillStatusClosed \<longrightarrow> br_status r' = BillStatusClosed)))"

lemma db_extends_refl [simp]: "db_extends db db"
  by (auto simp: db_extends_def)

lemma db_extends_trans: "db_extends a b \<Longrightarrow> db_extends b c \<Longrightarrow> db_extends a c"
  unfolding db_extends_def by (elim conjE exE, intro conjI) (simp, simp, simp, simp, metis)

lemma db_extends_item:
  "db_extends db db' \<Longrightarrow> find_item i db = Some r \<Longrightarrow> find_item i db' = Some r"
  by (auto simp: db_extends_def find_item_def find_append)

lemma find_bill_append_row [simp]:
  "find_bill u (db\<lparr>bills := bills db @ [r]\<rparr>) =
     (case find_bill u db of Some x \<Rightarrow> Some x | None \<Rightarrow> if br_id r = u then Some r else None)"
  by (simp add: find_bill_def find_append split: option.splits)

lemma find_bill_upd_where [simp]:
  "(\<And>r. br_id (f r) = br_id r) \<Longrightarrow>
   find_bill j (db\<lparr>bills := upd_where br_id u f (bills db)\<rparr>) =
     (if j = u then map_option f (find_bill j db) else find_bill j db)"
  by (simp add: find_bill_def find_upd_where)

lemma find_bill_frame [simp]:
  "find_bill u (db\<lparr>line_items := x\<rparr>) = find_bill u db"
  "find_bill u (db\<lparr>bill_events := y\<rparr>) = find_bill u db"
  by (simp_all add: find_bill_def)

lemma find_item_frame [simp]:
  "find_item u (db\<lparr>bills := x\<rparr>) = find_item u db"
  "find_item u (db\<lparr>bill_events := y\<rparr>) = find_item u db"
  by (simp_all add: find_item_def)

lemma items_of_frame [simp]:
  "items_of u (db\<lparr>bills := x\<rparr>) = items_of u db"
  "items_of u (db\<lparr>bill_events := y\<rparr>) = items_of u db"
  by (simp_all add: items_of_def)

lemma items_of_append [simp]:
  "items_of u (db\<lparr>line_items := line_items db @ [r]\<rparr>) =
     items_of u db @ (if lr_bill_id r = u then [r] else [])"
  by (simp add: items_of_def)

lemma items_total_frame [simp]:
  "items_total u (db\<lparr>bills := x\<rparr>) = items_total u db"
  "items_total u (db\<lparr>bill_events := y\<rparr>) = items_total u db"
  by (simp_all add: items_total_def)

lemma items_total_append [simp]:
  "items_total u (db\<lparr>line_items := line_items db @ [r]\<rparr>) =
     items_total u db + (if lr_bill_id r = u then lr_amount r else 0)"
  by (simp add: items_total_def)

lemma insert_bill_extends: "insert_bill lib b db = Inr (u, db') \<Longrightarrow> db_extends db db'"
  by (auto simp: insert_bill_def db_extends_def split: option.splits if_splits)

lemma insert_line_item_extends:
  "insert_line_item lib bid it db = Inr (i, db') \<Longrightarrow> db_extends db db'"
  by (auto simp: insert_line_item_def db_extends_def split: option.splits if_splits)

lemma update_bill_total_extends: "update_bill_total lib bid a db = Inr db' \<Longrightarrow> db_extends db db'"
  by (auto simp: update_bill_total_def db_extends_def split: option.splits if_splits)

lemma update_bill_close_extends:
  "update_bill_close lib bid t at reason db = Inr db' \<Longrightarrow> db_extends db db'"
  by (auto simp: update_bill_close_def db_extends_def close_row_def split: option.splits if_splits)

lemma insert_event_extends:
  "insert_event lib fresh now bid kind actor p db = Inr db' \<Longrightarrow> db_extends db db'"
  by (auto simp: insert_event_def db_extends_def split: option.splits if_splits)

end
