(* ===== verification/Clients.thy ===== *)
theory Clients
  imports Database
begin

section \<open>Identity: client cache, auth handler, middleware (bill/clients.go, auth.go, middleware.go)\<close>

text \<open>
  \<open>expirable.LRU\<close> is code outside the repository: its operations are the parameter \<open>cache\<close>,
  and what the service relies on is the locale \<open>expiring_cache\<close>. \<open>lookupClient\<close> looks into
  the cache twice, before and inside the \<open>singleflight\<close> call; what other requests did to the
  cache in between is the argument \<open>others\<close>. A Go interface value and a Go pointer are kept
  apart, since an interface that holds a nil pointer is not nil.
\<close>

subsection \<open>The cache\<close>

record ('k, 'v, 'c) cache =
  cache_Get :: "int \<Rightarrow> 'k \<Rightarrow> 'c \<Rightarrow> 'v option \<times> 'c"
  cache_Add :: "int \<Rightarrow> 'k \<Rightarrow> 'v \<Rightarrow> 'c \<Rightarrow> 'c"
  cache_Remove :: "'k \<Rightarrow> 'c \<Rightarrow> 'c"

text \<open>
  The documented behaviour of a cache with expiry: what \<open>Get\<close> returns was put there by the last
  \<open>Add\<close> of the key less than \<open>ttl\<close> ago, and removing a key removes it. Any entry can have
  been evicted. \<open>held c k\<close> is the entry of \<open>k\<close> with the time it was added.
\<close>

locale expiring_cache =
  fixes ops :: "('k, 'v, 'c) cache"
    and ttl :: int
    and held :: "'c \<Rightarrow> 'k \<rightharpoonup> 'v \<times> int"
  assumes get_held: "cache_Get ops now k c = (Some v, c') \<Longrightarrow> \<exists>t. held c k = Some (v, t) \<and> now < t + ttl"
    and held_get: "cache_Get ops now k c = (r, c') \<Longrightarrow> held c' j = Some x \<Longrightarrow> held c j = Some x"
    and held_add: "held (cache_Add ops now k v c) j = Some x \<Longrightarrow>
      (if j = k then x = (v, now) else held c j = Some x)"
    and held_remove: "held (cache_Remove ops k c) j = Some x \<Longrightarrow> j \<noteq> k \<and> held c j = Some x"
begin

lemma removed_not_returned: "fst (cache_Get ops now k (cache_Remove ops k c)) = None"
proof (rule ccontr)
  assume "fst (cache_Get ops now k (cache_Remove ops k c)) \<noteq> None"
  then obtain v c' where "cache_Get ops now k (cache_Remove ops k c) = (Some v, c')"
    by (metis not_None_eq prod.collapse)
  then show False using get_held held_remove by blast
qed

end

text \<open>
  A cache of this kind: entries most recently used first, each with the time it was added,
  at most \<open>n\<close> of them.
\<close>

type_synonym ('k, 'v) lru = "('k \<times> 'v \<times> int) list"

definition lru_Get :: "int \<Rightarrow> int \<Rightarrow> 'k \<Rightarrow> ('k, 'v) lru \<Rightarrow> 'v option \<times> ('k, 'v) lru" where
  "lru_Get ttl now k c =
     (case map_of c k of
        None \<Rightarrow> (None, c)
      | Some (v, t) \<Rightarrow> if now < t + ttl then (Some v, (k, v, t) # AList.delete k c) else (None, c))"

definition lru_Add :: "nat \<Rightarrow> int \<Rightarrow> 'k \<Rightarrow> 'v \<Rightarrow> ('k, 'v) lru \<Rightarrow> ('k, 'v) lru" where
  "lru_Add n now k v c = take n ((k, v, now) # AList.delete k c)"

definition lru :: "nat \<Rightarrow> int \<Rightarrow> ('k, 'v, ('k, 'v) lru) cache" where
  "lru n ttl = \<lparr>cache_Get = lru_Get ttl, cache_Add = lru_Add n, cache_Remove = AList.delete\<rparr>"

lemma map_of_take: "map_of (take n c) k = Some x \<Longrightarrow> map_of c k = Some x"
  by (induction c arbitrary: n) (auto simp: take_Cons split: nat.splits if_splits)

lemma lru_expiring: "expiring_cache (lru n ttl) ttl map_of"
proof
  fix now k j and c c' :: "('k, 'v) lru" and v r x
  show "\<exists>t. map_of c k = Some (v, t) \<and> now < t + ttl" if "cache_Get (lru n ttl) now k c = (Some v, c')"
    using that by (auto simp: lru_def lru_Get_def split: option.splits if_splits)
  show "map_of c j = Some x" if "cache_Get (lru n ttl) now k c = (r, c')" "map_of c' j = Some x"
    using that by (auto simp: lru_def lru_Get_def delete_conv' split: option.splits if_splits)
  show "if j = k then x = (v, now) else map_of c j = Some x"
    if "map_of (cache_Add (lru n ttl) now k v c) j = Some x"
    using that by (auto simp: lru_def lru_Add_def delete_conv' split: if_splits dest!: map_of_take)
  show "j \<noteq> k \<and> map_of c j = Some x" if "map_of (cache_Remove (lru n ttl) k c) j = Some x"
    using that by (simp add: lru_def delete_conv' split: if_splits)
qed

subsection \<open>lookupClient\<close>

record Client =
  client_ID :: string
  client_Name :: string
  client_Status :: ClientStatus

definition clientCacheSize :: nat where
  "clientCacheSize = 1024"

definition clientCacheTTL :: int where
  "clientCacheTTL = 5 * minute"

definition clientCache :: "(string, Client option, (string, Client option) lru) cache" where
  "clientCache = lru clientCacheSize clientCacheTTL"

interpretation client_cache: expiring_cache clientCache clientCacheTTL map_of
  unfolding clientCache_def by (rule lru_expiring)

text \<open>The row of the \<open>clients\<close> table, or the error of the query.\<close>

definition find_client :: "string \<Rightarrow> 'd DB \<Rightarrow> ClientRow option" where
  "find_client i db = find (\<lambda>r. cl_id r = i) (clients db)"

definition loadClientFromDB :: "go_error option \<Rightarrow> string \<Rightarrow> 'd DB \<Rightarrow> go_error + Client" where
  "loadClientFromDB failure i db =
     (case failure of
        Some e \<Rightarrow> Inl (Wrap (''load client '' @ i) e)
      | None \<Rightarrow>
          (case find_client i db of
             None \<Rightarrow> Inl (Wrap (''load client '' @ i) ErrNoRows)
           | Some r \<Rightarrow>
               Inr \<lparr>client_ID = cl_id r, client_Name = cl_name r, client_Status = cl_status r\<rparr>))"

text \<open>
  A cached \<open>*Client\<close> is \<open>None\<close> when it is the nil pointer. The function given to
  \<open>singleflight\<close> returns an interface: \<open>IfaceNil\<close>, or one that holds a pointer.
\<close>

datatype iface = IfaceNil | IfaceClient "Client option"

type_synonym 'c client_cache = "(string, Client option, 'c) cache"

definition clientLoad ::
  "'c client_cache \<Rightarrow> int \<Rightarrow> go_error option \<Rightarrow> string \<Rightarrow> 'd DB \<Rightarrow> 'c \<Rightarrow> (go_error + iface) \<times> 'c" where
  "clientLoad ops now failure i db c =
     (case cache_Get ops now i c of
        (Some p, c') \<Rightarrow> (Inr (IfaceClient p), c')
      | (None, c') \<Rightarrow>
          (case loadClientFromDB failure i db of
             Inl e \<Rightarrow>
               if errors_Is e ErrNoRows then (Inl ErrClientNotFound, cache_Add ops now i None c')
               else (Inl e, c')
           | Inr cl \<Rightarrow> (Inr (IfaceClient (Some cl)), cache_Add ops now i (Some cl) c')))"

text \<open>The result is a \<open>*Client\<close>, \<open>None\<close> for the nil pointer, or an error.\<close>

definition lookupClient ::
  "'c client_cache \<Rightarrow> ('c \<Rightarrow> 'c) \<Rightarrow> int \<Rightarrow> go_error option \<Rightarrow> string \<Rightarrow> 'd DB \<Rightarrow> 'c
     \<Rightarrow> (go_error + Client option) \<times> 'c" where
  "lookupClient ops others now failure i db c =
     (case cache_Get ops now i c of
        (Some None, c') \<Rightarrow> (Inl ErrClientNotFound, c')
      | (Some (Some cl), c') \<Rightarrow> (Inr (Some cl), c')
      | (None, c') \<Rightarrow>
          (case clientLoad ops now failure i db (others c') of
             (Inl e, c'') \<Rightarrow> (Inl e, c'')
           | (Inr IfaceNil, c'') \<Rightarrow> (Inl ErrClientNotFound, c'')
           | (Inr (IfaceClient p), c'') \<Rightarrow> (Inr p, c'')))"

definition invalidateClient :: "'c client_cache \<Rightarrow> string \<Rightarrow> 'c \<Rightarrow> 'c" where
  "invalidateClient ops i c = cache_Remove ops i c"

subsection \<open>What a lookup returns\<close>

definition client_at :: "string \<Rightarrow> 'd DB \<Rightarrow> Client option" where
  "client_at i db = map_option
     (\<lambda>r. \<lparr>client_ID = cl_id r, client_Name = cl_name r, client_Status = cl_status r\<rparr>) (find_client i db)"

text \<open>
  The cache reflects the history of the database \<open>hist\<close>: every entry is what the table said of
  its key when it was added.
\<close>

definition reflects ::
  "('c \<Rightarrow> string \<rightharpoonup> Client option \<times> int) \<Rightarrow> (int \<Rightarrow> 'd DB) \<Rightarrow> int \<Rightarrow> 'c \<Rightarrow> bool" where
  "reflects held hist now c \<longleftrightarrow>
     (\<forall>k p t. held c k = Some (p, t) \<longrightarrow> t \<le> now \<and> p = client_at k (hist t))"

text \<open>What the table said of \<open>i\<close> at some time less than the expiry ago.\<close>

definition recently :: "(int \<Rightarrow> 'd DB) \<Rightarrow> int \<Rightarrow> string \<Rightarrow> Client option \<Rightarrow> bool" where
  "recently hist now i p \<longleftrightarrow> (\<exists>t. now < t + clientCacheTTL \<and> t \<le> now \<and> client_at i (hist t) = p)"

lemma recently_now: "client_at i (hist now) = p \<Longrightarrow> recently hist now i p"
  unfolding recently_def by (rule exI [of _ now]) (simp add: clientCacheTTL_def minute_def second_def)

lemma errors_Is_failure:
  "loadClientFromDB failure i db = Inl e \<Longrightarrow> errors_Is e ErrNoRows \<Longrightarrow>
   (failure = None \<and> client_at i db = None) \<or> (\<exists>e'. failure = Some e' \<and> errors_Is e' ErrNoRows)"
  by (auto simp: loadClientFromDB_def client_at_def split: option.splits)

lemma loadClientFromDB_Inr:
  "loadClientFromDB failure i db = Inr cl \<Longrightarrow> client_at i db = Some cl"
  by (auto simp: loadClientFromDB_def client_at_def split: option.splits)

text \<open>A failed query (connection, timeout) is not reported as \<open>ErrNoRows\<close>.\<close>

definition query_failure :: "go_error option \<Rightarrow> bool" where
  "query_failure failure \<longleftrightarrow>
     (case failure of None \<Rightarrow> True | Some e \<Rightarrow> \<not> errors_Is e ErrNoRows \<and> \<not> errors_Is e ErrClientNotFound)"

locale client_lookup = expiring_cache ops clientCacheTTL held
  for ops :: "'c client_cache" and held :: "'c \<Rightarrow> string \<rightharpoonup> Client option \<times> int"
begin

lemma reflects_get:
  assumes "reflects held hist now c" "cache_Get ops now i c = (r, c')"
  shows "reflects held hist now c'" "r = Some p \<Longrightarrow> recently hist now i p"
  using assms held_get [OF assms(2)] get_held [of now i c p c']
  by (auto simp: reflects_def recently_def) blast

lemma reflects_add:
  "reflects held hist now c \<Longrightarrow> client_at i (hist now) = p \<Longrightarrow>
   reflects held hist now (cache_Add ops now i p c)"
  unfolding reflects_def using held_add [of now i p c] by (metis order_refl prod.inject)

lemma reflects_remove: "reflects held hist now c \<Longrightarrow> reflects held hist now (invalidateClient ops i c)"
  unfolding reflects_def invalidateClient_def using held_remove by blast

lemma reflects_later: "reflects held hist now c \<Longrightarrow> now \<le> later \<Longrightarrow> reflects held hist later c"
  by (force simp: reflects_def)

lemma load_recent:
  assumes c: "reflects held hist now c" and q: "query_failure failure"
    and load: "clientLoad ops now failure i (hist now) c = (r, c')"
  shows "reflects held hist now c'" "r = Inr (IfaceClient p) \<Longrightarrow> recently hist now i p" "r \<noteq> Inr IfaceNil"
    "r = Inl ErrClientNotFound \<Longrightarrow> recently hist now i None"
proof -
  obtain g c1 where get: "cache_Get ops now i c = (g, c1)" by (rule prod.exhaust)
  note c1 = reflects_get [OF c get]
  have "reflects held hist now c' \<and> (r = Inr (IfaceClient p) \<longrightarrow> recently hist now i p) \<and>
      r \<noteq> Inr IfaceNil \<and> (r = Inl ErrClientNotFound \<longrightarrow> recently hist now i None)"
  proof (cases g)
    case (Some p')
    with load get c1 show ?thesis by (auto simp: clientLoad_def)
  next
    case None
    show ?thesis
    proof (cases "loadClientFromDB failure i (hist now)")
      case (Inr cl)
      then have cl: "client_at i (hist now) = Some cl" by (rule loadClientFromDB_Inr)
      with load get None Inr c1(1) show ?thesis
        by (auto simp: clientLoad_def intro: reflects_add recently_now)
    next
      case (Inl e)
      show ?thesis
      proof (cases "errors_Is e ErrNoRows")
        case True
        with errors_Is_failure [OF Inl] q have cl: "client_at i (hist now) = None"
          by (auto simp: query_failure_def)
        with load get None Inl True c1(1) show ?thesis
          by (auto simp: clientLoad_def intro: reflects_add recently_now)
      next
        case False
        with q Inl have "e \<noteq> ErrClientNotFound"
          by (auto simp: loadClientFromDB_def split: option.splits)
        with load get None Inl False c1(1) show ?thesis by (auto simp: clientLoad_def)
      qed
    qed
  qed
  then show "reflects held hist now c'" "r = Inr (IfaceClient p) \<Longrightarrow> recently hist now i p"
    "r \<noteq> Inr IfaceNil" "r = Inl ErrClientNotFound \<Longrightarrow> recently hist now i None" by blast+
qed

lemma lookup_recent:
  assumes c: "reflects held hist now c" and q: "query_failure failure"
    and others: "\<And>c. reflects held hist now c \<Longrightarrow> reflects held hist now (others c)"
    and look: "lookupClient ops others now failure i (hist now) c = (r, c')"
  shows "reflects held hist now c'" "r = Inr p \<Longrightarrow> recently hist now i p"
    "r = Inl ErrClientNotFound \<Longrightarrow> recently hist now i None"
proof -
  obtain g c1 where get: "cache_Get ops now i c = (g, c1)" by (rule prod.exhaust)
  note c1 = reflects_get [OF c get]
  obtain l c2 where load: "clientLoad ops now failure i (hist now) (others c1) = (l, c2)"
    by (rule prod.exhaust)
  note ld = load_recent [OF others [OF c1(1)] q load]
  show "reflects held hist now c'" "r = Inr p \<Longrightarrow> recently hist now i p"
    "r = Inl ErrClientNotFound \<Longrightarrow> recently hist now i None"
    using look get load c1 ld
    by (auto simp: lookupClient_def split: option.splits sum.splits iface.splits)
qed

text \<open>The nil pointer is only returned when another request cached the miss in between.\<close>

lemma lookup_nil:
  assumes "lookupClient ops others now failure i db c = (Inr None, c')"
  shows "\<exists>c1 c2. cache_Get ops now i c = (None, c1) \<and>
    cache_Get ops now i (others c1) = (Some None, c2)"
  using assms by (auto simp: lookupClient_def clientLoad_def split: option.splits sum.splits
      iface.splits prod.splits if_splits)

end

interpretation clients: client_lookup clientCache map_of
  by (intro client_lookup.intro client_cache.expiring_cache_axioms)

end
