(* ===== verification/Auth.thy ===== *)
theory Auth
  imports Clients
begin

section \<open>Authentication and authorization (bill/auth.go, bill/middleware.go)\<close>

text \<open>
  The auth handler, the accessors of the request's identity and the middleware of the mutating
  endpoints. A handler either returns or panics: \<open>Panics\<close> is the nil pointer dereference of
  \<open>client.Status\<close>.
\<close>

subsection \<open>strings.TrimSpace\<close>

text \<open>
  A Go string is a list of bytes. \<open>white_space\<close> lists the UTF-8 encodings of the code points
  with the White_Space property. \<open>trim_left ps s\<close> removes leading occurrences of any of \<open>ps\<close>.
\<close>

definition white_space :: "string list" where
  "white_space =
     [[CHR 0x09], [CHR 0x0A], [CHR 0x0B], [CHR 0x0C], [CHR 0x0D], [CHR 0x20],
      [CHR 0xC2, CHR 0x85], [CHR 0xC2, CHR 0xA0], [CHR 0xE1, CHR 0x9A, CHR 0x80],
      [CHR 0xE2, CHR 0x80, CHR 0x80], [CHR 0xE2, CHR 0x80, CHR 0x81],
      [CHR 0xE2, CHR 0x80, CHR 0x82], [CHR 0xE2, CHR 0x80, CHR 0x83],
      [CHR 0xE2, CHR 0x80, CHR 0x84], [CHR 0xE2, CHR 0x80, CHR 0x85],
      [CHR 0xE2, CHR 0x80, CHR 0x86], [CHR 0xE2, CHR 0x80, CHR 0x87],
      [CHR 0xE2, CHR 0x80, CHR 0x88], [CHR 0xE2, CHR 0x80, CHR 0x89],
      [CHR 0xE2, CHR 0x80, CHR 0x8A], [CHR 0xE2, CHR 0x80, CHR 0xA8],
      [CHR 0xE2, CHR 0x80, CHR 0xA9], [CHR 0xE2, CHR 0x80, CHR 0xAF],
      [CHR 0xE2, CHR 0x81, CHR 0x9F], [CHR 0xE3, CHR 0x80, CHR 0x80]]"

definition stripped :: "string \<Rightarrow> string \<Rightarrow> string option" where
  "stripped p s = (if p \<noteq> [] \<and> take (length p) s = p then Some (drop (length p) s) else None)"

definition strip_one :: "string list \<Rightarrow> string \<Rightarrow> string option" where
  "strip_one ps s = (case List.map_filter (\<lambda>p. stripped p s) ps of [] \<Rightarrow> None | r # _ \<Rightarrow> Some r)"

lemma strip_one_shorter: "strip_one ps s = Some r \<Longrightarrow> length r < length s"
proof -
  assume "strip_one ps s = Some r"
  then have "r \<in> set (List.map_filter (\<lambda>p. stripped p s) ps)"
    by (auto simp: strip_one_def split: list.splits)
  then obtain p where p: "p \<noteq> []" "take (length p) s = p" "r = drop (length p) s"
    by (auto simp: map_filter_def stripped_def split: if_splits)
  then show ?thesis by (cases s) auto
qed

text \<open>Each round removes at least one byte, so the length of the string bounds the rounds.\<close>

primrec trim_rounds :: "nat \<Rightarrow> string list \<Rightarrow> string \<Rightarrow> string" where
  "trim_rounds 0 ps s = s"
| "trim_rounds (Suc n) ps s = (case strip_one ps s of None \<Rightarrow> s | Some r \<Rightarrow> trim_rounds n ps r)"

definition trim_left :: "string list \<Rightarrow> string \<Rightarrow> string" where
  "trim_left ps s = trim_rounds (length s) ps s"

definition TrimSpace :: "string \<Rightarrow> string" where
  "TrimSpace s =
     rev (trim_left (map rev white_space) (rev (trim_left white_space s)))"

text \<open>The trimmed string does not start or end with white space.\<close>

lemma trim_rounds_done: "length s \<le> n \<Longrightarrow> strip_one ps (trim_rounds n ps s) = None"
proof (induction n arbitrary: s)
  case 0
  then show ?case using strip_one_shorter [of ps s] by (cases "strip_one ps s") auto
next
  case (Suc n)
  show ?case
  proof (cases "strip_one ps s")
    case (Some r)
    with strip_one_shorter [OF Some] Suc show ?thesis by simp
  qed simp
qed

lemma trim_left_done: "strip_one ps (trim_left ps s) = None"
  by (simp add: trim_left_def trim_rounds_done)

lemma strip_one_suffix: "strip_one ps s = Some r \<Longrightarrow> \<exists>p. s = p @ r"
proof -
  assume "strip_one ps s = Some r"
  then have "r \<in> set (List.map_filter (\<lambda>p. stripped p s) ps)"
    by (auto simp: strip_one_def split: list.splits)
  then show "\<exists>p. s = p @ r"
    by (auto simp: map_filter_def stripped_def split: if_splits) (metis append_take_drop_id)
qed

lemma trim_rounds_suffix: "\<exists>p. s = p @ trim_rounds n ps s"
proof (induction n arbitrary: s)
  case (Suc n)
  show ?case
  proof (cases "strip_one ps s")
    case (Some r)
    then obtain p where "s = p @ r" using strip_one_suffix by blast
    moreover obtain q where "r = q @ trim_rounds n ps r" using Suc by blast
    ultimately show ?thesis using Some by (metis append.assoc option.simps(5) trim_rounds.simps(2))
  qed simp
qed simp

lemma trim_left_suffix: "\<exists>p. s = p @ trim_left ps s"
  unfolding trim_left_def by (rule trim_rounds_suffix)

lemma TrimSpace_infix: "\<exists>p q. s = p @ TrimSpace s @ q"
proof -
  obtain p where p: "s = p @ trim_left white_space s" using trim_left_suffix by blast
  obtain q where "rev (trim_left white_space s) =
      q @ trim_left (map rev white_space) (rev (trim_left white_space s))"
    using trim_left_suffix by blast
  then have "trim_left white_space s = TrimSpace s @ rev q"
    unfolding TrimSpace_def by (metis rev_append rev_rev_ident)
  with p show ?thesis by metis
qed

lemma strip_one_prefix:
  assumes "strip_one ps (x @ y) = None"
  shows "strip_one ps x = None"
proof -
  have "stripped p x = None" if "p \<in> set ps" for p
  proof -
    have "stripped p (x @ y) = None"
      using assms that by (force simp: strip_one_def map_filter_def filter_empty_conv split: list.splits)
    then show ?thesis
      by (auto simp: stripped_def split: if_splits)
  qed
  then have "List.map_filter (\<lambda>p. stripped p x) ps = []" by (simp add: map_filter_def filter_empty_conv)
  then show ?thesis by (simp add: strip_one_def)
qed

lemma TrimSpace_done:
  "strip_one white_space (TrimSpace s) = None"
  "strip_one (map rev white_space) (rev (TrimSpace s)) = None"
proof -
  show "strip_one (map rev white_space) (rev (TrimSpace s)) = None"
    by (simp add: TrimSpace_def trim_left_done)
  obtain q where "rev (trim_left white_space s) =
      q @ trim_left (map rev white_space) (rev (trim_left white_space s))"
    using trim_left_suffix by blast
  then have "trim_left white_space s = TrimSpace s @ rev q"
    unfolding TrimSpace_def by (metis rev_append rev_rev_ident)
  then show "strip_one white_space (TrimSpace s) = None"
    using strip_one_prefix trim_left_done by metis
qed

lemma TrimSpace_examples:
  "TrimSpace '' acct-alpha  '' = ''acct-alpha''" "TrimSpace ''   '' = ''''"
  "TrimSpace [CHR 0xC2, CHR 0xA0, CHR ''A'', CHR 0xE2, CHR 0x80, CHR 0x83] = ''A''"
  by code_simp+

subsection \<open>The auth handler\<close>

datatype 'a outcome = Returns 'a | Panics

record AuthData =
  ad_AccountID :: string
  ad_Status :: ClientStatus
  ad_Name :: string

definition AuthHandler ::
  "'c client_cache \<Rightarrow> ('c \<Rightarrow> 'c) \<Rightarrow> int \<Rightarrow> go_error option \<Rightarrow> string \<Rightarrow> 'd DB \<Rightarrow> 'c
     \<Rightarrow> (go_error + (string \<times> AuthData)) outcome \<times> 'c" where
  "AuthHandler ops others now failure header db c =
     (let accountID = TrimSpace header in
      if accountID = ''''
      then (Returns (Inl (ErrsError Unauthenticated ''X-Account-Id header is required'')), c)
      else (case lookupClient ops others now failure accountID db c of
         (Inl e, c') \<Rightarrow>
           (Returns (Inl (if errors_Is e ErrClientNotFound
              then ErrsError Unauthenticated ''unknown account''
              else ErrsError Unavailable ''failed to resolve caller identity'')), c')
       | (Inr None, c') \<Rightarrow> (Panics, c')
       | (Inr (Some cl), c') \<Rightarrow>
           (Returns (Inr (accountID, \<lparr>ad_AccountID = accountID, ad_Status = client_Status cl,
              ad_Name = client_Name cl\<rparr>)), c')))"

definition callerAccountID :: "AuthData option \<Rightarrow> string" where
  "callerAccountID data = (case data of None \<Rightarrow> '''' | Some d \<Rightarrow> ad_AccountID d)"

definition assertActiveCaller :: "AuthData option \<Rightarrow> go_error option" where
  "assertActiveCaller data =
     (case data of
        None \<Rightarrow> Some (ErrsError Unauthenticated ''missing caller identity'')
      | Some d \<Rightarrow>
          if ad_Status d \<noteq> ClientStatusActive
          then Some (ErrsError PermissionDenied ''account not permitted to perform this operation'')
          else None)"

text \<open>The middleware of the endpoints tagged \<open>mutating\<close>; \<open>next\<close> is the endpoint.\<close>

definition RequireActiveCaller ::
  "AuthData option \<Rightarrow> ('w \<Rightarrow> (go_error + 'r) \<times> 'w) \<Rightarrow> 'w \<Rightarrow> (go_error + 'r) \<times> 'w" where
  "RequireActiveCaller data next w =
     (case assertActiveCaller data of Some e \<Rightarrow> (Inl e, w) | None \<Rightarrow> next w)"

lemma RequireActiveCaller_Inr:
  "RequireActiveCaller data next w = (Inr r, w') \<Longrightarrow>
   next w = (Inr r, w') \<and> (\<exists>d. data = Some d \<and> ad_Status d = ClientStatusActive)"
  by (auto simp: RequireActiveCaller_def assertActiveCaller_def split: option.splits if_splits)

lemma RequireActiveCaller_blocked:
  "assertActiveCaller data \<noteq> None \<Longrightarrow> snd (RequireActiveCaller data next w) = w"
  by (auto simp: RequireActiveCaller_def)

context client_lookup
begin

text \<open>An identity the handler establishes is a client the table held within the last five minutes.\<close>

lemma auth_recent:
  assumes "reflects held hist now c" "query_failure failure"
    and "\<And>c. reflects held hist now c \<Longrightarrow> reflects held hist now (others c)"
    and "AuthHandler ops others now failure header (hist now) c = (Returns (Inr (uid, d)), c')"
  shows "uid = TrimSpace header \<and> uid \<noteq> '''' \<and> ad_AccountID d = uid \<and>
    (\<exists>cl. recently hist now uid (Some cl) \<and> client_Status cl = ad_Status d \<and> client_Name cl = ad_Name d) \<and>
    reflects held hist now c'"
proof -
  obtain r c1 where look: "lookupClient ops others now failure (TrimSpace header) (hist now) c = (r, c1)"
    by (rule prod.exhaust)
  note rec = lookup_recent [OF assms(1-3) look]
  show ?thesis
    using assms(4) look rec by (auto simp: AuthHandler_def Let_def split: if_splits sum.splits option.splits)
qed

lemma auth_reflects:
  assumes "reflects held hist now c" "query_failure failure"
    and "\<And>c. reflects held hist now c \<Longrightarrow> reflects held hist now (others c)"
  shows "reflects held hist now (snd (AuthHandler ops others now failure header (hist now) c))"
proof -
  obtain r c1 where look: "lookupClient ops others now failure (TrimSpace header) (hist now) c = (r, c1)"
    by (rule prod.exhaust)
  from lookup_recent(1) [OF assms look] assms(1) look show ?thesis
    by (auto simp: AuthHandler_def Let_def split: sum.splits option.splits)
qed

text \<open>A client not in the table for the last five minutes is not let in.\<close>

lemma auth_unknown:
  assumes "reflects held hist now c" "query_failure failure"
    and "\<And>c. reflects held hist now c \<Longrightarrow> reflects held hist now (others c)"
    and "\<And>t. now < t + clientCacheTTL \<Longrightarrow> t \<le> now \<Longrightarrow> client_at (TrimSpace header) (hist t) = None"
  shows "\<nexists>x c'. AuthHandler ops others now failure header (hist now) c = (Returns (Inr x), c')"
proof
  assume "\<exists>x c'. AuthHandler ops others now failure header (hist now) c = (Returns (Inr x), c')"
  then obtain uid d c' where "AuthHandler ops others now failure header (hist now) c = (Returns (Inr (uid, d)), c')"
    by (metis prod.exhaust)
  from auth_recent [OF assms(1-3) this] assms(4) show False by (auto simp: recently_def)
qed

end

end
