(* ===== verification/Registry.thy ===== *)
theory Registry
  imports Clients
begin

section \<open>The currency registry (bill/registry.go, bill/admin.go)\<close>

text \<open>
  The map of currencies, cached for an hour under one key. As in \<open>lookupClient\<close> the cache is
  looked into before and inside the \<open>singleflight\<close> call, with \<open>others\<close> in between. The nil
  map, returned when the table cannot be read, knows no currency.
\<close>

definition currenciesCacheTTL :: int where
  "currenciesCacheTTL = hour"

definition currenciesCacheKey :: string where
  "currenciesCacheKey = ''currencies''"

text \<open>Where a query that yields several rows fails.\<close>

datatype rows_failure = QueryFails go_error | ScanFails go_error | IterFails go_error

definition currency_meta :: "CurrencyRow \<Rightarrow> CurrencyMeta" where
  "currency_meta r = \<lparr>cm_Code = cr_code r, cm_Name = cr_name r, cm_NumericCode = cr_numeric_code r,
     cm_Decimals = cr_minor_unit r\<rparr>"

text \<open>The loop over the rows: \<open>out[Currency(meta.Code)] = meta\<close>.\<close>

primrec scan_currencies :: "CurrencyRow list \<Rightarrow> registry \<Rightarrow> registry" where
  "scan_currencies [] out = out"
| "scan_currencies (r # rs) out = scan_currencies rs (AList.update (cr_code r) (currency_meta r) out)"

definition loadCurrenciesFromDB :: "rows_failure option \<Rightarrow> 'd DB \<Rightarrow> go_error + registry" where
  "loadCurrenciesFromDB failure db =
     (case failure of
        Some (QueryFails e) \<Rightarrow> Inl (Wrap ''query currencies'' e)
      | Some (ScanFails e) \<Rightarrow> Inl (Wrap ''scan currency'' e)
      | Some (IterFails e) \<Rightarrow> Inl (Wrap ''iterate currencies'' e)
      | None \<Rightarrow>
          (let out = scan_currencies (currencies db) [] in
           if out = []
           then Inl (ErrorString (''currencies table is empty '' @ [CHR 0xE2, CHR 0x80, CHR 0x94] @
                  '' has the seed migration run?''))
           else Inr out))"

type_synonym 'c currency_cache = "(string, registry, 'c) cache"

definition getCurrencies ::
  "'c currency_cache \<Rightarrow> ('c \<Rightarrow> 'c) \<Rightarrow> int \<Rightarrow> rows_failure option \<Rightarrow> 'd DB \<Rightarrow> 'c \<Rightarrow> registry \<times> 'c" where
  "getCurrencies ops others now failure db c =
     (case cache_Get ops now currenciesCacheKey c of
        (Some m, c') \<Rightarrow> (m, c')
      | (None, c') \<Rightarrow>
          (case cache_Get ops now currenciesCacheKey (others c') of
             (Some m, c'') \<Rightarrow> (m, c'')
           | (None, c'') \<Rightarrow>
               (case loadCurrenciesFromDB failure db of
                  Inl e \<Rightarrow> ([], c'')
                | Inr m \<Rightarrow> (m, cache_Add ops now currenciesCacheKey m c''))))"

definition setCurrencies :: "'c currency_cache \<Rightarrow> int \<Rightarrow> registry \<Rightarrow> 'c \<Rightarrow> 'c" where
  "setCurrencies ops now m c = cache_Add ops now currenciesCacheKey m c"

definition refreshCurrencies ::
  "'c currency_cache \<Rightarrow> int \<Rightarrow> rows_failure option \<Rightarrow> 'd DB \<Rightarrow> 'c \<Rightarrow> (go_error + nat) \<times> 'c" where
  "refreshCurrencies ops now failure db c =
     (case loadCurrenciesFromDB failure db of
        Inl e \<Rightarrow> (Inl e, c)
      | Inr m \<Rightarrow> (Inr (length m), setCurrencies ops now m c))"

record RefreshCurrenciesResponse =
  rc_CurrencyCount :: nat
  rc_RefreshedAt :: gotime

definition RefreshCurrencies ::
  "'c currency_cache \<Rightarrow> gotime \<Rightarrow> rows_failure option \<Rightarrow> 'd DB \<Rightarrow> 'c
     \<Rightarrow> (go_error + RefreshCurrenciesResponse) \<times> 'c" where
  "RefreshCurrencies ops now failure db c =
     (case refreshCurrencies ops (unix_ns now) failure db c of
        (Inl e, c') \<Rightarrow> (Inl (ErrsError Internal ''failed to refresh currency registry''), c')
      | (Inr n, c') \<Rightarrow> (Inr \<lparr>rc_CurrencyCount = n, rc_RefreshedAt = now\<lparr>zone := 0\<rparr>\<rparr>, c'))"

subsection \<open>The registry and the table\<close>

lemma scan_currencies_keys:
  "fst ` set (scan_currencies rs out) = fst ` set out \<union> cr_code ` set rs"
  by (induction rs arbitrary: out) (auto simp: dom_update)

lemma scan_currencies_distinct:
  "distinct (map fst out) \<Longrightarrow> distinct (map fst (scan_currencies rs out))"
  by (induction rs arbitrary: out) (simp_all add: distinct_update)

lemma scan_currencies_Valid:
  "Currency_Valid (scan_currencies rs []) c \<longleftrightarrow> c \<in> cr_code ` set rs"
  by (simp add: Currency_Valid_def map_of_eq_None_iff scan_currencies_keys)

lemma scan_currencies_lookup:
  "map_of (scan_currencies rs out) c =
     (case find (\<lambda>r. cr_code r = c) (rev rs) of Some r \<Rightarrow> Some (currency_meta r) | None \<Rightarrow> map_of out c)"
  by (induction rs arbitrary: out)
    (auto simp: update_conv' find_append split: option.splits)

lemma loadCurrencies_Inr:
  "loadCurrenciesFromDB failure db = Inr m \<Longrightarrow> m = scan_currencies (currencies db) [] \<and> m \<noteq> []"
  by (auto simp: loadCurrenciesFromDB_def Let_def split: option.splits rows_failure.splits if_splits)

text \<open>Where neither look finds a registry and the table cannot be read, the answer is the nil map.\<close>

lemma getCurrencies_fails:
  assumes "failure \<noteq> None \<or> currencies db = []"
    and "cache_Get ops now currenciesCacheKey c = (None, c1)"
    and "cache_Get ops now currenciesCacheKey (others c1) = (None, c2)"
  shows "getCurrencies ops others now failure db c = ([], c2)"
proof -
  have "isl (loadCurrenciesFromDB failure db)"
    using assms(1) by (auto simp: loadCurrenciesFromDB_def Let_def split: option.splits rows_failure.splits)
  then obtain e where "loadCurrenciesFromDB failure db = Inl e" by (auto simp: isl_def)
  with assms(2,3) show ?thesis by (simp add: getCurrencies_def)
qed

definition currencies_reflect ::
  "('c \<Rightarrow> string \<rightharpoonup> registry \<times> int) \<Rightarrow> (int \<Rightarrow> 'd DB) \<Rightarrow> int \<Rightarrow> 'c \<Rightarrow> bool" where
  "currencies_reflect held hist now c \<longleftrightarrow>
     (\<forall>k m t. held c k = Some (m, t) \<longrightarrow> t \<le> now \<and> m = scan_currencies (currencies (hist t)) [])"

locale currency_registry = expiring_cache ops currenciesCacheTTL held
  for ops :: "'c currency_cache" and held :: "'c \<Rightarrow> string \<rightharpoonup> registry \<times> int"
begin

lemma reflect_get:
  assumes "currencies_reflect held hist now c" "cache_Get ops now k c = (r, c')"
  shows "currencies_reflect held hist now c'"
    "r = Some m \<Longrightarrow> \<exists>t. now < t + currenciesCacheTTL \<and> t \<le> now \<and> m = scan_currencies (currencies (hist t)) []"
proof -
  show "currencies_reflect held hist now c'"
    using assms(1) held_get [OF assms(2)] unfolding currencies_reflect_def by blast
  show "\<exists>t. now < t + currenciesCacheTTL \<and> t \<le> now \<and> m = scan_currencies (currencies (hist t)) []" if "r = Some m"
    using assms that get_held [of now k c m c'] unfolding currencies_reflect_def by blast
qed

lemma reflect_set:
  "currencies_reflect held hist now c \<Longrightarrow>
   currencies_reflect held hist now (setCurrencies ops now (scan_currencies (currencies (hist now)) []) c)"
  unfolding currencies_reflect_def setCurrencies_def
  using held_add [of now currenciesCacheKey _ c] by (metis order_refl prod.inject)

lemma now_recent: "\<exists>t. now < t + currenciesCacheTTL \<and> t \<le> now \<and> hist now = hist t"
  by (rule exI [of _ now]) (simp add: currenciesCacheTTL_def hour_def minute_def second_def)

text \<open>The registry is the table as it was within the last hour, or nil.\<close>

lemma getCurrencies_recent:
  assumes c: "currencies_reflect held hist now c"
    and others: "\<And>c. currencies_reflect held hist now c \<Longrightarrow> currencies_reflect held hist now (others c)"
    and get: "getCurrencies ops others now failure (hist now) c = (reg, c')"
  shows "currencies_reflect held hist now c' \<and>
    (reg = [] \<or> (\<exists>t. now < t + currenciesCacheTTL \<and> t \<le> now \<and> reg = scan_currencies (currencies (hist t)) []))"
proof -
  obtain g c1 where g: "cache_Get ops now currenciesCacheKey c = (g, c1)" by (rule prod.exhaust)
  note c1 = reflect_get [OF c g]
  obtain g' c2 where g': "cache_Get ops now currenciesCacheKey (others c1) = (g', c2)" by (rule prod.exhaust)
  note c2 = reflect_get [OF others [OF c1(1)] g']
  show ?thesis
  proof (cases "g = None \<and> g' = None")
    case False
    with get g g' c1 c2 show ?thesis by (auto simp: getCurrencies_def split: option.splits)
  next
    case True
    show ?thesis
    proof (cases "loadCurrenciesFromDB failure (hist now)")
      case (Inl e)
      with get g g' True c2 show ?thesis by (auto simp: getCurrencies_def)
    next
      case (Inr m)
      with loadCurrencies_Inr [OF Inr] get g g' True c2(1) reflect_set [OF c2(1)] now_recent [of now hist]
      show ?thesis by (auto simp: getCurrencies_def setCurrencies_def)
    qed
  qed
qed

lemma refresh_recent:
  assumes "currencies_reflect held hist now c"
  shows "currencies_reflect held hist now (snd (refreshCurrencies ops now failure (hist now) c))"
  using assms reflect_set [OF assms] loadCurrencies_Inr [of failure "hist now"]
  by (auto simp: refreshCurrencies_def split: sum.splits)

end

definition currencyCache :: "(string, registry, (string, registry) lru) cache" where
  "currencyCache = lru 1 currenciesCacheTTL"

interpretation currency_cache: expiring_cache currencyCache currenciesCacheTTL map_of
  unfolding currencyCache_def by (rule lru_expiring)

interpretation registry: currency_registry currencyCache map_of
  by (intro currency_registry.intro currency_cache.expiring_cache_axioms)

end
