(* ===== verification/Rfc3339.thy ===== *)
theory Rfc3339
  imports Prelude
begin

section \<open>time.RFC3339Nano\<close>

text \<open>
  \<open>Time.Format(time.RFC3339Nano)\<close> and \<open>time.Parse\<close> with that layout, which the views and
  the cursors use: the proleptic Gregorian date of a day, decimal digits, the fraction of a second
  without its trailing zeros, and the zone. \<open>Parse\<close> first tries the strict RFC 3339 form; the
  general layout-driven parser behind it, which is only reached by strings of another form, is the
  argument \<open>slow\<close>.
\<close>

subsection \<open>Dates\<close>

definition leap :: "int \<Rightarrow> bool" where
  "leap y \<longleftrightarrow> y mod 4 = 0 \<and> (y mod 100 \<noteq> 0 \<or> y mod 400 = 0)"

definition month_lengths :: "int \<Rightarrow> int list" where
  "month_lengths y = [31, if leap y then 29 else 28, 31, 30, 31, 30, 31, 31, 30, 31, 30, 31]"

text \<open>The month (counted from 0) and the day of the month (from 1) of a day of the year.\<close>

fun month_day :: "int list \<Rightarrow> int \<Rightarrow> nat \<times> int" where
  "month_day [] d = (0, d + 1)"
| "month_day (m # ms) d =
     (if d < m then (0, d + 1) else (let (k, r) = month_day ms (d - m) in (Suc k, r)))"

text \<open>Year and day of the year of a day counted from 0001-01-01.\<close>

definition year_day :: "int \<Rightarrow> int \<times> int" where
  "year_day d =
     (let a = d div 146097; r0 = d mod 146097;
          b = min (r0 div 36524) 3; r1 = r0 - 36524 * b;
          c = r1 div 1461; r2 = r1 mod 1461;
          e = min (r2 div 365) 3
      in (400 * a + 100 * b + 4 * c + e + 1, r2 - 365 * e))"

definition days_before_year :: "int \<Rightarrow> int" where
  "days_before_year y = 365 * (y - 1) + (y - 1) div 4 - (y - 1) div 100 + (y - 1) div 400"

definition days_of_date :: "int \<Rightarrow> nat \<Rightarrow> int \<Rightarrow> int" where
  "days_of_date y m d = days_before_year y + sum_list (take m (month_lengths y)) + d - 1"

lemma capped:
  fixes r n k :: int
  assumes "0 \<le> r" "0 < n" "0 \<le> k"
  shows "0 \<le> min (r div n) k" "min (r div n) k \<le> k" "0 \<le> r - n * min (r div n) k"
    "r < n * k + n + 1 \<Longrightarrow> r - n * min (r div n) k \<le> n"
    "r < n * k + n + 1 \<Longrightarrow> r - n * min (r div n) k = n \<Longrightarrow> min (r div n) k = k \<and> r = n * k + n"
proof -
  have r: "r = n * (r div n) + r mod n" "0 \<le> r mod n" "r mod n < n" using assms by simp_all
  show "0 \<le> min (r div n) k" "min (r div n) k \<le> k" using assms by (simp_all add: pos_imp_zdiv_nonneg_iff)
  have le: "n * min (r div n) k \<le> n * (r div n)" using assms by simp
  then show "0 \<le> r - n * min (r div n) k" using r by linarith
  show "r - n * min (r div n) k \<le> n" if "r < n * k + n + 1"
  proof (cases "r div n \<le> k")
    case True
    then have m: "min (r div n) k = r div n" by simp
    show ?thesis unfolding m using r by linarith
  next
    case False
    then have m: "min (r div n) k = k" by simp
    show ?thesis using that unfolding m by linarith
  qed
  show "min (r div n) k = k \<and> r = n * k + n" if "r < n * k + n + 1" "r - n * min (r div n) k = n"
  proof (cases "r div n \<le> k")
    case True
    then have m: "min (r div n) k = r div n" by simp
    show ?thesis using that r unfolding m by linarith
  next
    case False
    then have m: "min (r div n) k = k" by simp
    show ?thesis using that unfolding m by linarith
  qed
qed

lemma year_day_cases:
  obtains a b c e q where "year_day d = (400 * a + 100 * b + 4 * c + e + 1, q)"
    "0 \<le> b" "b \<le> 3" "0 \<le> c" "c \<le> 24" "0 \<le> e" "e \<le> 3" "0 \<le> q" "q \<le> 365"
    "d = 146097 * a + 36524 * b + 1461 * c + 365 * e + q"
    "q = 365 \<Longrightarrow> e = 3 \<and> (c \<noteq> 24 \<or> b = 3)"
proof -
  define a where "a = d div 146097"
  define r0 where "r0 = d mod 146097"
  define b where "b = min (r0 div 36524) 3"
  define r1 where "r1 = r0 - 36524 * b"
  define c where "c = r1 div 1461"
  define r2 where "r2 = r1 mod 1461"
  define e where "e = min (r2 div 365) 3"
  define q where "q = r2 - 365 * e"
  have d: "d = 146097 * a + r0" "0 \<le> r0" "r0 < 146097" by (simp_all add: a_def r0_def)
  have b: "0 \<le> b" "b \<le> 3" "0 \<le> r1" "r1 \<le> 36524" "r1 = 36524 \<Longrightarrow> b = 3"
    unfolding r1_def b_def using capped [OF d(2), of 36524 3] d(3) by simp_all
  have c0: "r1 = 1461 * c + r2" "0 \<le> r2" "r2 < 1461" by (simp_all add: c_def r2_def)
  have c: "r1 = 1461 * c + r2" "0 \<le> c" "c \<le> 24" "0 \<le> r2" "r2 < 1461"
    using c0 b(3,4) by linarith+
  have e: "0 \<le> e" "e \<le> 3" "0 \<le> q" "q \<le> 365" "q = 365 \<Longrightarrow> e = 3 \<and> r2 = 1460"
    unfolding q_def e_def using capped [OF c(4), of 365 3] c(5) by simp_all
  show thesis
  proof (rule that [of a b c e q])
    show "year_day d = (400 * a + 100 * b + 4 * c + e + 1, q)"
      by (simp only: year_day_def Let_def a_def r0_def b_def r1_def c_def r2_def e_def q_def)
    show "d = 146097 * a + 36524 * b + 1461 * c + 365 * e + q"
      using d(1) c(1) by (simp add: r1_def q_def)
    show "e = 3 \<and> (c \<noteq> 24 \<or> b = 3)" if "q = 365"
    proof -
      have "r1 = 36524" if "c = 24" using c(1) e(5) \<open>q = 365\<close> that by simp
      then show ?thesis using e(5) that b(5) by blast
    qed
  qed (use b c e in simp_all)
qed

lemma div_step: "0 \<le> r \<Longrightarrow> r < n \<Longrightarrow> (n * q + r) div n = q" for n q r :: int
  by simp

lemma days_before_year_eq:
  assumes "0 \<le> b" "b \<le> 3" "0 \<le> c" "c \<le> 24" "0 \<le> e" "e \<le> 3"
  shows "days_before_year (400 * a + 100 * b + 4 * c + e + 1) = 146097 * a + 36524 * b + 1461 * c + 365 * e"
proof -
  let ?y = "400 * a + 100 * b + 4 * c + e"
  have "?y div 4 = 100 * a + 25 * b + c" using div_step [of e 4 "100 * a + 25 * b + c"] assms by simp
  moreover have "?y div 100 = 4 * a + b" using div_step [of "4 * c + e" 100 "4 * a + b"] assms by (simp add: ac_simps)
  moreover have "?y div 400 = a" using div_step [of "100 * b + 4 * c + e" 400 a] assms by (simp add: ac_simps)
  ultimately show ?thesis by (simp add: days_before_year_def)
qed

lemma mod_step: "0 \<le> r \<Longrightarrow> r < n \<Longrightarrow> (n * q + r) mod n = r" for n q r :: int
  by simp

lemma leap_eq:
  assumes "0 \<le> c" "c \<le> 24" "c \<noteq> 24 \<or> b = 3"
  shows "leap (400 * a + 100 * b + 4 * c + 3 + 1)"
proof -
  let ?y = "400 * a + 100 * b + 4 * c + 3 + 1"
  have "?y mod 4 = 0" using mod_step [of 0 4 "100 * a + 25 * b + c + 1"] by simp
  moreover have "?y mod 100 \<noteq> 0 \<or> ?y mod 400 = 0"
  proof (cases "c = 24")
    case True
    then have "?y = 400 * (a + 1) + 0" using assms(3) by simp
    then show ?thesis by (metis mod_mult_self1_is_0 add.right_neutral)
  next
    case False
    then have "?y mod 100 = 4 * c + 4"
      using mod_step [of "4 * c + 4" 100 "4 * a + b"] assms by (simp add: ac_simps)
    then show ?thesis using assms by simp
  qed
  ultimately show ?thesis by (simp add: leap_def)
qed

lemma year_length: "sum_list (month_lengths y) = (if leap y then 366 else 365)"
  by (simp add: month_lengths_def)

lemma year_day_bounds:
  assumes "year_day d = (y, q)"
  shows "days_before_year y + q = d" "0 \<le> q" "q < sum_list (month_lengths y)"
proof -
  obtain a b c e where y: "y = 400 * a + 100 * b + 4 * c + e + 1"
    and b: "0 \<le> b" "b \<le> 3" "0 \<le> c" "c \<le> 24" "0 \<le> e" "e \<le> 3" "0 \<le> q" "q \<le> 365"
    and d: "d = 146097 * a + 36524 * b + 1461 * c + 365 * e + q"
    and last: "q = 365 \<Longrightarrow> e = 3 \<and> (c \<noteq> 24 \<or> b = 3)"
    using assms by (cases rule: year_day_cases [of d]) auto
  show "days_before_year y + q = d" "0 \<le> q" using days_before_year_eq [OF b(1-6)] y d b(7) by simp_all
  show "q < sum_list (month_lengths y)"
    using last leap_eq [OF b(3,4)] y b(8) by (cases "q = 365") (auto simp: year_length)
qed

lemma month_day_bounds:
  "0 \<le> d \<Longrightarrow> d < sum_list ms \<Longrightarrow> month_day ms d = (k, r) \<Longrightarrow>
   k < length ms \<and> 1 \<le> r \<and> r \<le> ms ! k \<and> sum_list (take k ms) + r - 1 = d"
proof (induction ms arbitrary: d k r)
  case (Cons m ms)
  show ?case
  proof (cases "d < m")
    case False
    then obtain j where j: "month_day ms (d - m) = (j, r)" "k = Suc j"
      using Cons.prems(3) by (auto simp: Let_def split: prod.splits)
    have "0 \<le> d - m" "d - m < sum_list ms" using False Cons.prems(2) by simp_all
    from Cons.IH [OF this j(1)] j(2) show ?thesis by simp
  qed (use Cons.prems in auto)
qed simp

text \<open>Year, month (from 0) and day of a day counted from 1970-01-01.\<close>

definition epoch_day :: int where
  "epoch_day = 719162"

definition date_of_day :: "int \<Rightarrow> int \<times> nat \<times> int" where
  "date_of_day d =
     (let (y, q) = year_day (d + epoch_day); (m, r) = month_day (month_lengths y) q in (y, m, r))"

lemma date_of_day:
  assumes "date_of_day d = (y, m, r)"
  shows "days_of_date y m r = d + epoch_day" "m < 12" "1 \<le> r" "r \<le> month_lengths y ! m"
proof -
  obtain q where q: "year_day (d + epoch_day) = (y, q)" "month_day (month_lengths y) q = (m, r)"
    using assms by (auto simp: date_of_day_def split: prod.splits)
  note b = year_day_bounds [OF q(1)] and m = month_day_bounds [OF year_day_bounds(2,3) [OF q(1)] q(2)]
  from m have "sum_list (take m (month_lengths y)) + r - 1 = q" "m < length (month_lengths y)" by blast+
  with b(1) show "days_of_date y m r = d + epoch_day" "m < 12" by (simp_all add: days_of_date_def month_lengths_def)
  show "1 \<le> r" "r \<le> month_lengths y ! m" using m by blast+
qed

lemma date_examples: "date_of_day 0 = (1970, 0, 1)" "date_of_day 11016 = (2000, 1, 29)" "date_of_day (-1) = (1969, 11, 31)"
  by code_simp+

subsection \<open>Decimal digits\<close>

definition digit :: "int \<Rightarrow> char" where
  "digit n = char_of (48 + n)"

definition digit_value :: "char \<Rightarrow> int option" where
  "digit_value c =
     (let n = of_char c in if 48 \<le> n \<and> n \<le> 57 then Some (n - 48) else None)"

text \<open>The last \<open>w\<close> decimal digits of a number that is not negative, and all of them.\<close>

primrec digits :: "nat \<Rightarrow> int \<Rightarrow> string" where
  "digits 0 n = []"
| "digits (Suc w) n = digits w (n div 10) @ [digit (n mod 10)]"

function decimal :: "int \<Rightarrow> string" where
  "decimal n = (if n < 10 then [digit n] else decimal (n div 10) @ [digit (n mod 10)])"
  by pat_completeness auto

termination
  by (relation "measure nat") auto

declare decimal.simps [simp del]

text \<open>\<open>appendInt\<close>: padded with zeros to the width, longer if need be.\<close>

definition appendInt :: "nat \<Rightarrow> int \<Rightarrow> string" where
  "appendInt w x =
     (if x < 0 then ''-'' else []) @ (if \<bar>x\<bar> < 10 ^ w then digits w \<bar>x\<bar> else decimal \<bar>x\<bar>)"

definition digits_value :: "int \<Rightarrow> string \<Rightarrow> int option" where
  "digits_value acc s =
     foldl (\<lambda>r c. case (r, digit_value c) of (Some n, Some d) \<Rightarrow> Some (n * 10 + d) | _ \<Rightarrow> None) (Some acc) s"

text \<open>\<open>parseUint\<close>: the value of a string of digits within bounds.\<close>

definition parseUint :: "string \<Rightarrow> int \<Rightarrow> int \<Rightarrow> int option" where
  "parseUint s lo hi =
     (case digits_value 0 s of None \<Rightarrow> None | Some n \<Rightarrow> if lo \<le> n \<and> n \<le> hi then Some n else None)"

lemma digit_value_digit [simp]: "0 \<le> n \<Longrightarrow> n < 10 \<Longrightarrow> digit_value (digit n) = Some n"
  by (simp add: digit_value_def digit_def Let_def)

lemma digits_value_append:
  "digits_value acc (s @ t) = (case digits_value acc s of None \<Rightarrow> None | Some n \<Rightarrow> digits_value n t)"
proof -
  have "foldl (\<lambda>r c. case (r, digit_value c) of (Some n, Some d) \<Rightarrow> Some (n * 10 + d) | _ \<Rightarrow> None) None t = None" for t
    by (induction t) simp_all
  then show ?thesis by (simp add: digits_value_def split: option.splits)
qed

lemma digits_value_single: "digits_value acc [c] = map_option (\<lambda>d. acc * 10 + d) (digit_value c)"
  by (simp add: digits_value_def split: option.splits)

lemma digits_value_digits: "digits_value acc (digits w n) = Some (acc * 10 ^ w + n mod 10 ^ w)"
proof (induction w arbitrary: n)
  case 0
  then show ?case by (simp add: digits_value_def)
next
  case (Suc w)
  have "n mod (10 * 10 ^ w) = 10 * (n div 10 mod 10 ^ w) + n mod 10"
    by (simp add: zmod_zmult2_eq)
  with Suc show ?case by (simp add: digits_value_append digits_value_single algebra_simps)
qed

lemma length_digits [simp]: "length (digits w n) = w"
  by (induction w arbitrary: n) simp_all

lemma digits_are_digits: "c \<in> set (digits w n) \<Longrightarrow> digit_value c \<noteq> None"
  by (induction w arbitrary: n) auto

lemma parseUint_digits: "0 \<le> n \<Longrightarrow> n < 10 ^ w \<Longrightarrow> lo \<le> n \<Longrightarrow> n \<le> hi \<Longrightarrow> parseUint (digits w n) lo hi = Some n"
  by (simp add: parseUint_def digits_value_digits)

lemma appendInt_digits: "0 \<le> x \<Longrightarrow> x < 10 ^ w \<Longrightarrow> appendInt w x = digits w x"
  by (simp add: appendInt_def)

subsection \<open>Format\<close>

text \<open>\<open>appendNano\<close> with the layout's nine fraction digits: trailing zeros go, and so does an empty fraction.\<close>

definition trim_zeros :: "string \<Rightarrow> string" where
  "trim_zeros s = rev (dropWhile (\<lambda>c. c = digit 0) (rev s))"

definition appendNano :: "int \<Rightarrow> string" where
  "appendNano ns = (let f = trim_zeros (digits 9 ns) in if f = [] then [] else CHR ''.'' # f)"

definition appendZone :: "int \<Rightarrow> string" where
  "appendZone offset =
     (if offset = 0 then ''Z''
      else (let z = \<bar>offset\<bar> div 60 in
        (if offset \<le> -60 then ''-'' else ''+'') @ appendInt 2 (z div 60) @ '':'' @ appendInt 2 (z mod 60)))"

definition nanos :: "gotime \<Rightarrow> int" where
  "nanos t = unix_ns t mod second"

definition local_seconds :: "gotime \<Rightarrow> int" where
  "local_seconds t = unix_ns t div second + zone t"

definition FormatRFC3339Nano :: "gotime \<Rightarrow> string" where
  "FormatRFC3339Nano t =
     (let l = local_seconds t; (y, m, d) = date_of_day (l div 86400); s = l mod 86400 in
      appendInt 4 y @ ''-'' @ appendInt 2 (int m + 1) @ ''-'' @ appendInt 2 d @ ''T'' @
      appendInt 2 (s div 3600) @ '':'' @ appendInt 2 (s mod 3600 div 60) @ '':'' @ appendInt 2 (s mod 60) @
      appendNano (nanos t) @ appendZone (zone t))"

subsection \<open>Parse\<close>

text \<open>\<open>parseNanoseconds\<close> on the digits after the point: those beyond the ninth are dropped.\<close>

definition fraction_ns :: "string \<Rightarrow> int" where
  "fraction_ns ds =
     (let ds9 = take 9 ds in (case digits_value 0 ds9 of None \<Rightarrow> 0 | Some n \<Rightarrow> n * 10 ^ (9 - length ds9)))"

definition parse_fraction :: "string \<Rightarrow> int \<times> string" where
  "parse_fraction s =
     (case s of
        c # d # r \<Rightarrow>
          if c = CHR ''.'' \<and> digit_value d \<noteq> None
          then (let ds = takeWhile (\<lambda>x. digit_value x \<noteq> None) (d # r)
                in (fraction_ns ds, drop (length ds) (d # r)))
          else (0, s)
      | _ \<Rightarrow> (0, s))"

definition parse_zone :: "string \<Rightarrow> int option" where
  "parse_zone s =
     (if s = ''Z'' then Some 0
      else if length s \<noteq> 6 then None
      else (case (parseUint (take 2 (drop 1 s)) 0 23, parseUint (take 2 (drop 4 s)) 0 59) of
         (Some h, Some m) \<Rightarrow>
           if (s ! 0 = CHR ''-'' \<or> s ! 0 = CHR ''+'') \<and> s ! 3 = CHR '':''
           then Some ((if s ! 0 = CHR ''-'' then -1 else 1) * (h * 60 + m) * 60)
           else None
       | _ \<Rightarrow> None))"

definition parseRFC3339 :: "string \<Rightarrow> gotime option" where
  "parseRFC3339 s =
     (if length s < 19 then None
      else (case (parseUint (take 4 s) 0 9999, parseUint (take 2 (drop 5 s)) 1 12) of
         (Some y, Some mo) \<Rightarrow>
           (case (parseUint (take 2 (drop 8 s)) 1 (month_lengths y ! nat (mo - 1)),
                  parseUint (take 2 (drop 11 s)) 0 23, parseUint (take 2 (drop 14 s)) 0 59,
                  parseUint (take 2 (drop 17 s)) 0 59) of
              (Some d, Some h, Some mi, Some sec) \<Rightarrow>
                if s ! 4 = CHR ''-'' \<and> s ! 7 = CHR ''-'' \<and> s ! 10 = CHR ''T'' \<and> s ! 13 = CHR '':'' \<and>
                   s ! 16 = CHR '':''
                then (let (ns, rest) = parse_fraction (drop 19 s) in
                  case parse_zone rest of
                    None \<Rightarrow> None
                  | Some z \<Rightarrow>
                      Some \<lparr>unix_ns =
                        ((days_of_date y (nat (mo - 1)) d - epoch_day) * 86400 + h * 3600 + mi * 60 + sec - z)
                        * second + ns,
                       zone = z\<rparr>)
                else None
            | _ \<Rightarrow> None)
       | _ \<Rightarrow> None))"

definition ParseRFC3339Nano :: "(string \<Rightarrow> gotime option) \<Rightarrow> string \<Rightarrow> gotime option" where
  "ParseRFC3339Nano slow s = (case parseRFC3339 s of Some t \<Rightarrow> Some t | None \<Rightarrow> slow s)"

subsection \<open>Parsing what was formatted\<close>

lemma stamp_fields:
  fixes y mo d h mi sec :: int and rest :: string
  defines "s \<equiv> digits 4 y @ CHR ''-'' # digits 2 mo @ CHR ''-'' # digits 2 d @ CHR ''T'' # digits 2 h @
    CHR '':'' # digits 2 mi @ CHR '':'' # digits 2 sec @ rest"
  shows "19 \<le> length s" "take 4 s = digits 4 y" "take 2 (drop 5 s) = digits 2 mo"
    "take 2 (drop 8 s) = digits 2 d" "take 2 (drop 11 s) = digits 2 h" "take 2 (drop 14 s) = digits 2 mi"
    "take 2 (drop 17 s) = digits 2 sec" "drop 19 s = rest"
    "s ! 4 = CHR ''-''" "s ! 7 = CHR ''-''" "s ! 10 = CHR ''T''" "s ! 13 = CHR '':''" "s ! 16 = CHR '':''"
  unfolding s_def by (simp_all add: nth_append nth_Cons' take_Cons' drop_Cons')

lemma digit_value_zero: "digit_value (digit 0) = Some 0"
  by simp

lemma trim_zeros_append: "\<exists>k. s = trim_zeros s @ replicate k (digit 0)"
proof -
  have "rev s = takeWhile (\<lambda>c. c = digit 0) (rev s) @ rev (trim_zeros s)"
    by (simp add: trim_zeros_def)
  then have "s = trim_zeros s @ rev (takeWhile (\<lambda>c. c = digit 0) (rev s))"
    by (metis rev_append rev_rev_ident)
  moreover have "\<forall>x\<in>set (takeWhile (\<lambda>c. c = digit 0) (rev s)). x = digit 0"
    by (auto dest: set_takeWhileD)
  then have "takeWhile (\<lambda>c. c = digit 0) (rev s) =
      replicate (length (takeWhile (\<lambda>c. c = digit 0) (rev s))) (digit 0)"
    by (simp add: replicate_length_same)
  ultimately show ?thesis by (metis rev_replicate)
qed

lemma digits_value_zeros: "digits_value acc (replicate k (digit 0)) = Some (acc * 10 ^ k)"
proof (induction k)
  case (Suc k)
  have "replicate (Suc k) (digit 0) = replicate k (digit 0) @ [digit 0]"
    by (simp add: replicate_append_same)
  with Suc show ?case by (simp add: digits_value_append digits_value_single del: replicate_Suc)
qed (simp add: digits_value_def)

lemma fraction_trimmed:
  assumes "0 \<le> ns" "ns < 10 ^ 9"
  shows "fraction_ns (trim_zeros (digits 9 ns)) = ns"
proof -
  obtain k where k: "digits 9 ns = trim_zeros (digits 9 ns) @ replicate k (digit 0)"
    using trim_zeros_append by blast
  let ?f = "trim_zeros (digits 9 ns)"
  have len: "length ?f + k = 9" using arg_cong [OF k, of length] by simp
  have "digits_value 0 (digits 9 ns) = Some ns" using assms by (simp add: digits_value_digits)
  then have "digits_value 0 (?f @ replicate k (digit 0)) = Some ns" by (simp only: k [symmetric])
  then obtain n where n: "digits_value 0 ?f = Some n" "n * 10 ^ k = ns"
    by (auto simp: digits_value_append digits_value_zeros split: option.splits)
  moreover have "9 - length ?f = k" "take 9 ?f = ?f" using len by simp_all
  ultimately show ?thesis by (simp add: fraction_ns_def)
qed

lemma trimmed_digits: "c \<in> set (trim_zeros (digits w n)) \<Longrightarrow> digit_value c \<noteq> None"
proof -
  obtain k where "digits w n = trim_zeros (digits w n) @ replicate k (digit 0)"
    using trim_zeros_append by blast
  then show "c \<in> set (trim_zeros (digits w n)) \<Longrightarrow> digit_value c \<noteq> None"
    using digits_are_digits by (metis Un_iff set_append)
qed

lemma fraction_roundtrip:
  assumes ns: "0 \<le> ns" "ns < 10 ^ 9" and z: "zs = z # zs'" "digit_value z = None" "z \<noteq> CHR ''.''"
  shows "parse_fraction (appendNano ns @ zs) = (ns, zs)"
proof (cases "trim_zeros (digits 9 ns)")
  case Nil
  then have "ns = 0" using fraction_trimmed [OF ns] by (simp add: fraction_ns_def digits_value_def)
  with Nil z show ?thesis by (simp add: appendNano_def parse_fraction_def split: list.splits)
next
  case (Cons c f)
  have c: "digit_value c \<noteq> None" and all: "\<forall>x\<in>set (c # f). digit_value x \<noteq> None"
    using trimmed_digits [of _ 9 ns] Cons by simp_all
  have "takeWhile (\<lambda>x. digit_value x \<noteq> None) ((c # f) @ zs) =
      (c # f) @ takeWhile (\<lambda>x. digit_value x \<noteq> None) zs"
    by (rule takeWhile_append2) (use all in blast)
  then have "takeWhile (\<lambda>x. digit_value x \<noteq> None) ((c # f) @ zs) = c # f"
    using z by simp
  with Cons c fraction_trimmed [OF ns] show ?thesis
    by (simp add: appendNano_def parse_fraction_def Let_def)
qed

lemma zone_roundtrip:
  assumes "z mod 60 = 0" "\<bar>z\<bar> < 86400"
  shows "parse_zone (appendZone z) = Some z"
proof (cases "z = 0")
  case False
  define m where "m = \<bar>z\<bar> div 60"
  have m: "\<bar>z\<bar> = 60 * m" "0 \<le> m" "m < 1440" using assms by (auto simp: m_def abs_if)
  have hm: "0 \<le> m div 60" "m div 60 \<le> 23" "0 \<le> m mod 60" "m mod 60 \<le> 59" "m div 60 * 60 + m mod 60 = m"
    using m by auto
  have sign: "z \<le> -60 \<longleftrightarrow> z < 0"
  proof -
    from assms(1) obtain j where "z = 60 * j" by (metis mod_0_imp_dvd dvdE)
    then show ?thesis by auto
  qed
  have "appendZone z = (if z < 0 then CHR ''-'' else CHR ''+'') # digits 2 (m div 60) @ CHR '':'' # digits 2 (m mod 60)"
    using False hm by (simp add: appendZone_def Let_def sign appendInt_digits flip: m_def)
  moreover have "parseUint (digits 2 (m div 60)) 0 23 = Some (m div 60)"
    "parseUint (digits 2 (m mod 60)) 0 59 = Some (m mod 60)"
    using hm by (simp_all add: parseUint_digits)
  ultimately show ?thesis using m hm(5)
    by (auto simp: parse_zone_def nth_append nth_Cons' take_Cons' drop_Cons')
qed (simp add: parse_zone_def appendZone_def)

lemma zone_first:
  obtains c r where "appendZone z = c # r" "digit_value c = None" "c \<noteq> CHR ''.''"
proof -
  have "digit_value CHR ''Z'' = None" "digit_value CHR ''-'' = None" "digit_value CHR ''+'' = None"
    by (simp_all add: digit_value_def)
  moreover have "\<exists>c r. appendZone z = c # r \<and> (c = CHR ''Z'' \<or> c = CHR ''-'' \<or> c = CHR ''+'')"
    by (simp add: appendZone_def Let_def)
  ultimately show thesis using that by force
qed

text \<open>The times the layout holds in full: four-digit years, zones of whole minutes.\<close>

definition stampable :: "gotime \<Rightarrow> bool" where
  "stampable t \<longleftrightarrow>
     (let y = fst (date_of_day (local_seconds t div 86400)) in 0 \<le> y \<and> y \<le> 9999) \<and>
     zone t mod 60 = 0 \<and> \<bar>zone t\<bar> < 86400"

lemma parse_format:
  assumes "stampable t"
  shows "parseRFC3339 (FormatRFC3339Nano t) = Some t"
proof -
  let ?l = "local_seconds t"
  obtain y m d where date: "date_of_day (?l div 86400) = (y, m, d)" by (metis prod.exhaust)
  note dt = date_of_day [OF date]
  have y: "0 \<le> y" "y \<le> 9999" and z: "zone t mod 60 = 0" "\<bar>zone t\<bar> < 86400"
    using assms date by (simp_all add: stampable_def)
  have d: "1 \<le> d" "d \<le> month_lengths y ! m" "d \<le> 31"
  proof -
    show "1 \<le> d" "d \<le> month_lengths y ! m" by (rule dt)+
    have "\<forall>x\<in>set (month_lengths y). x \<le> 31" by (simp add: month_lengths_def)
    moreover have "month_lengths y ! m \<in> set (month_lengths y)"
      using dt(2) by (intro nth_mem) (simp add: month_lengths_def)
    ultimately have "month_lengths y ! m \<le> 31" by blast
    with \<open>d \<le> month_lengths y ! m\<close> show "d \<le> 31" by simp
  qed
  define s where "s = ?l mod 86400"
  define h where "h = s div 3600" define mi where "mi = s mod 3600 div 60" define sc where "sc = s mod 60"
  have s: "0 \<le> s" "s < 86400" by (simp_all add: s_def)
  have r: "0 \<le> h" "h \<le> 23" "0 \<le> mi" "mi \<le> 59" "0 \<le> sc" "sc \<le> 59"
    using s by (simp_all add: h_def mi_def sc_def)
  have sum: "h * 3600 + mi * 60 + sc = s"
  proof -
    have "s mod 3600 mod 60 = s mod 60" by (simp add: mod_mod_cancel)
    then show ?thesis using div_mult_mod_eq [of s 3600] div_mult_mod_eq [of "s mod 3600" 60]
      unfolding h_def mi_def sc_def by linarith
  qed
  have ns: "0 \<le> nanos t" "nanos t < 10 ^ 9" by (simp_all add: nanos_def second_def)
  let ?rest = "appendNano (nanos t) @ appendZone (zone t)"
  have fmt: "FormatRFC3339Nano t = digits 4 y @ CHR ''-'' # digits 2 (int m + 1) @ CHR ''-'' # digits 2 d @
      CHR ''T'' # digits 2 h @ CHR '':'' # digits 2 mi @ CHR '':'' # digits 2 sc @ ?rest"
    using y d r dt(2) by (simp add: FormatRFC3339Nano_def Let_def date appendInt_digits
        flip: s_def h_def mi_def sc_def)
  obtain c zs where c: "appendZone (zone t) = c # zs" "digit_value c = None" "c \<noteq> CHR ''.''"
    by (rule zone_first)
  have frac: "parse_fraction ?rest = (nanos t, appendZone (zone t))"
    using fraction_roundtrip [OF ns c] .
  have nums: "parseUint (digits 4 y) 0 9999 = Some y" "parseUint (digits 2 (int m + 1)) 1 12 = Some (int m + 1)"
    "parseUint (digits 2 d) 1 (month_lengths y ! m) = Some d" "parseUint (digits 2 h) 0 23 = Some h"
    "parseUint (digits 2 mi) 0 59 = Some mi" "parseUint (digits 2 sc) 0 59 = Some sc"
    using y d r dt(2) by (simp_all add: parseUint_digits)
  have "?l = ?l div 86400 * 86400 + s" by (simp add: s_def)
  then have "(days_of_date y m d - epoch_day) * 86400 + h * 3600 + mi * 60 + sc - zone t = unix_ns t div second"
    using dt(1) sum by (simp add: local_seconds_def algebra_simps)
  then have inst: "((days_of_date y m d - epoch_day) * 86400 + h * 3600 + mi * 60 + sc - zone t) * second + nanos t = unix_ns t"
    by (simp add: nanos_def)
  show ?thesis
    unfolding parseRFC3339_def fmt stamp_fields
    using stamp_fields(1) [of y "int m + 1" d h mi sc ?rest] nums frac zone_roundtrip [OF z] inst
    by simp
qed

lemma stamp_roundtrip: "stampable t \<Longrightarrow> ParseRFC3339Nano slow (FormatRFC3339Nano t) = Some t"
  by (simp add: ParseRFC3339Nano_def parse_format)

end
