(* ===== verification/Cursor.thy ===== *)
theory Cursor
  imports Rfc3339
begin

section \<open>Keyset cursors (encodeLineItemCursor, encodeBillCursor, decodeKeysetCursor)\<close>

text \<open>
  The opaque cursor of the listings: URL-safe base64 of \<open><rfc3339nano>|<id>\<close>. Base64 is Go's
  standard library and is written out here as far as the code uses it (the RFC 3339 form of a time
  in theory \<open>Rfc3339\<close>); the main theorem is the round trip of a cursor.
\<close>

subsection \<open>base64.URLEncoding\<close>

definition base64_alphabet :: string where
  "base64_alphabet = ''ABCDEFGHIJKLMNOPQRSTUVWXYZabcdefghijklmnopqrstuvwxyz0123456789-_''"

definition base64_char :: "nat \<Rightarrow> char" where
  "base64_char n = base64_alphabet ! n"

definition base64_value :: "char \<Rightarrow> nat option" where
  "base64_value c = map_of (zip base64_alphabet [0..<64]) c"

definition byte :: "char \<Rightarrow> nat" where
  "byte c = of_char c"

definition char_byte :: "nat \<Rightarrow> char" where
  "char_byte n = char_of n"

fun EncodeToString :: "string \<Rightarrow> string" where
  "EncodeToString [] = []"
| "EncodeToString [a] =
     [base64_char (byte a div 4), base64_char (byte a mod 4 * 16), CHR ''='', CHR ''='']"
| "EncodeToString [a, b] =
     [base64_char (byte a div 4), base64_char (byte a mod 4 * 16 + byte b div 16),
      base64_char (byte b mod 16 * 4), CHR ''='']"
| "EncodeToString (a # b # c # cs) =
     base64_char (byte a div 4) # base64_char (byte a mod 4 * 16 + byte b div 16) #
     base64_char (byte b mod 16 * 4 + byte c div 64) # base64_char (byte c mod 64) # EncodeToString cs"

text \<open>
  The decoder takes four characters at a time; padding is only accepted at the end, and the bits
  of the last character that do not make up a byte are not looked at. Line breaks are skipped.
\<close>

fun decode_quanta :: "string \<Rightarrow> string option" where
  "decode_quanta [] = Some []"
| "decode_quanta (a # b # c # d # cs) =
     (case (base64_value a, base64_value b) of
        (Some x, Some y) \<Rightarrow>
          if c = CHR ''='' then
            (if d = CHR ''='' \<and> cs = [] then Some [char_byte (x * 4 + y div 16)] else None)
          else (case base64_value c of
             None \<Rightarrow> None
           | Some z \<Rightarrow>
               if d = CHR ''='' then
                 (if cs = [] then Some [char_byte (x * 4 + y div 16), char_byte (y mod 16 * 16 + z div 4)]
                  else None)
               else (case base64_value d of
                  None \<Rightarrow> None
                | Some v \<Rightarrow>
                    map_option (\<lambda>r. char_byte (x * 4 + y div 16) # char_byte (y mod 16 * 16 + z div 4) #
                      char_byte (z mod 4 * 64 + v) # r) (decode_quanta cs)))
      | _ \<Rightarrow> None)"
| "decode_quanta _ = None"

definition DecodeString :: "string \<Rightarrow> string option" where
  "DecodeString s = decode_quanta (filter (\<lambda>c. c \<noteq> CHR 0x0A \<and> c \<noteq> CHR 0x0D) s)"

lemma base64_value_char: "n < 64 \<Longrightarrow> base64_value (base64_char n) = Some n"
proof -
  have "\<forall>n\<in>set [0..<64]. base64_value (base64_char n) = Some n" by code_simp
  then show "n < 64 \<Longrightarrow> base64_value (base64_char n) = Some n" by simp
qed

lemma base64_char_plain:
  "n < 64 \<Longrightarrow> base64_char n \<noteq> CHR ''='' \<and> base64_char n \<noteq> CHR 0x0A \<and> base64_char n \<noteq> CHR 0x0D"
proof -
  have "\<forall>n\<in>set [0..<64]. base64_char n \<noteq> CHR ''='' \<and> base64_char n \<noteq> CHR 0x0A \<and>
      base64_char n \<noteq> CHR 0x0D" by code_simp
  then show "n < 64 \<Longrightarrow> base64_char n \<noteq> CHR ''='' \<and> base64_char n \<noteq> CHR 0x0A \<and> base64_char n \<noteq> CHR 0x0D"
    by simp
qed

lemma byte_bound [simp]: "byte c < 256"
  unfolding byte_def by simp

lemma char_byte [simp]: "char_byte (byte c) = c"
  by (simp add: byte_def char_byte_def)

lemma base64_ranges:
  "byte a div 4 < 64" "byte a mod 4 * 16 < 64" "byte a mod 4 * 16 + byte b div 16 < 64"
  "byte b mod 16 * 4 < 64" "byte b mod 16 * 4 + byte c div 64 < 64" "byte c mod 64 < 64"
  using byte_bound [of a] byte_bound [of b] byte_bound [of c] by linarith+

lemma encode_plain: "filter (\<lambda>c. c \<noteq> CHR 0x0A \<and> c \<noteq> CHR 0x0D) (EncodeToString s) = EncodeToString s"
  by (induction s rule: EncodeToString.induct) (simp_all add: base64_char_plain base64_ranges)

lemma byte_parts:
  "byte b div 16 div 16 = 0" "byte c div 64 div 4 = 0"
  "byte b div 16 mod 16 * 16 + byte b mod 16 = byte b"
  "byte c div 64 mod 4 * 64 + byte c mod 64 = byte c"
proof -
  show "byte b div 16 div 16 = 0" "byte c div 64 div 4 = 0"
    using byte_bound [of b] byte_bound [of c] by (simp_all flip: div_mult2_eq)
  have "byte b div 16 < 16" "byte c div 64 < 4" using byte_bound [of b] byte_bound [of c] by linarith+
  then show "byte b div 16 mod 16 * 16 + byte b mod 16 = byte b"
    "byte c div 64 mod 4 * 64 + byte c mod 64 = byte c" by simp_all
qed

lemma decode_encode: "decode_quanta (EncodeToString s) = Some s"
  by (induction s rule: EncodeToString.induct)
    (simp_all add: base64_value_char base64_char_plain base64_ranges byte_parts)

lemma base64_roundtrip: "DecodeString (EncodeToString s) = Some s"
  by (simp add: DecodeString_def encode_plain decode_encode)

subsection \<open>The cursor\<close>

text \<open>\<open>strings.SplitN(s, "|", 2)\<close>, when it yields two parts.\<close>

definition split_bar :: "string \<Rightarrow> (string \<times> string) option" where
  "split_bar s =
     (case dropWhile (\<lambda>c. c \<noteq> CHR ''|'') s of
        [] \<Rightarrow> None
      | _ # r \<Rightarrow> Some (takeWhile (\<lambda>c. c \<noteq> CHR ''|'') s, r))"

definition encodeLineItemCursor :: "gotime \<Rightarrow> string \<Rightarrow> string" where
  "encodeLineItemCursor ts i = EncodeToString (FormatRFC3339Nano ts @ ''|'' @ i)"

definition encodeBillCursor :: "gotime \<Rightarrow> string \<Rightarrow> string" where
  "encodeBillCursor ts i = EncodeToString (FormatRFC3339Nano ts @ ''|'' @ i)"

definition invalid_cursor :: go_error where
  "invalid_cursor = ErrsError InvalidArgument ''invalid cursor''"

definition decodeKeysetCursor ::
  "(string \<Rightarrow> gotime option) \<Rightarrow> string \<Rightarrow> go_error + (gotime \<times> string)" where
  "decodeKeysetCursor slow cursor =
     (case DecodeString cursor of
        None \<Rightarrow> Inl invalid_cursor
      | Some raw \<Rightarrow>
          (case split_bar raw of
             None \<Rightarrow> Inl invalid_cursor
           | Some (p, i) \<Rightarrow>
               (case ParseRFC3339Nano slow p of
                  None \<Rightarrow> Inl invalid_cursor
                | Some ts \<Rightarrow> Inr (ts, i))))"

text \<open>The zero \<open>time.Time\<close>: 0001-01-01 UTC.\<close>

definition zero_time :: gotime where
  "zero_time = \<lparr>unix_ns = - epoch_day * 86400 * second, zone = 0\<rparr>"

text \<open>The cursor of a request: an absent request, or an empty cursor, starts from the beginning.\<close>

definition decodeCursor ::
  "(string \<Rightarrow> gotime option) \<Rightarrow> string option \<Rightarrow> go_error + (gotime \<times> string)" where
  "decodeCursor slow cursor =
     (case cursor of
        None \<Rightarrow> Inr (zero_time, '''')
      | Some c \<Rightarrow> if c = '''' then Inr (zero_time, '''') else decodeKeysetCursor slow c)"

lemma split_bar_append: "CHR ''|'' \<notin> set s \<Longrightarrow> split_bar (s @ CHR ''|'' # r) = Some (s, r)"
proof -
  assume s: "CHR ''|'' \<notin> set s"
  have "dropWhile (\<lambda>c. c \<noteq> CHR ''|'') (s @ CHR ''|'' # r) = CHR ''|'' # r"
    using s by (subst dropWhile_append2) auto
  moreover have "takeWhile (\<lambda>c. c \<noteq> CHR ''|'') (s @ CHR ''|'' # r) = s"
    using s by (subst takeWhile_append2) auto
  ultimately show ?thesis by (simp add: split_bar_def)
qed

lemma split_bar_none: "CHR ''|'' \<notin> set s \<Longrightarrow> split_bar s = None"
  unfolding split_bar_def by (subst dropWhile_eq_Nil_conv [THEN iffD2]) auto

lemma digits_no_bar: "CHR ''|'' \<notin> set (digits w n)"
  using digits_are_digits [of "CHR ''|''" w n] by (auto simp: digit_value_def)

lemma digit_no_bar: "0 \<le> m \<Longrightarrow> m < 10 \<Longrightarrow> CHR ''|'' = digit m \<longleftrightarrow> False"
proof -
  have "digit_value CHR ''|'' = None" by (simp add: digit_value_def)
  then show "0 \<le> m \<Longrightarrow> m < 10 \<Longrightarrow> CHR ''|'' = digit m \<longleftrightarrow> False" using digit_value_digit [of m] by auto
qed

lemma stamp_no_bar: "stampable t \<Longrightarrow> CHR ''|'' \<notin> set (FormatRFC3339Nano t)"
proof -
  have dec: "CHR ''|'' \<notin> set (decimal n)" if "0 \<le> n" for n
    using that
  proof (induction n rule: decimal.induct)
    case (1 n)
    from 1 show ?case by (subst decimal.simps) (auto simp: digit_no_bar)
  qed
  have app: "CHR ''|'' \<notin> set (appendInt w x)" for w x
    using dec [of "\<bar>x\<bar>"] digits_no_bar by (auto simp: appendInt_def)
  have "CHR ''|'' \<notin> set (appendNano ns)" for ns
    using trimmed_digits [of "CHR ''|''" 9 ns] by (auto simp: appendNano_def Let_def digit_value_def)
  with app show ?thesis
    by (auto simp: FormatRFC3339Nano_def Let_def appendZone_def split: prod.splits)
qed

lemma cursor_roundtrip:
  assumes "stampable t"
  shows "decodeKeysetCursor slow (encodeLineItemCursor t i) = Inr (t, i)"
    "decodeKeysetCursor slow (encodeBillCursor t i) = Inr (t, i)"
  using assms
  by (simp_all add: decodeKeysetCursor_def encodeLineItemCursor_def encodeBillCursor_def base64_roundtrip
      split_bar_append stamp_no_bar stamp_roundtrip)

text \<open>What the decoder refuses, and what it lets through to the query.\<close>

lemma decodeKeysetCursor_refuses:
  "DecodeString c = None \<Longrightarrow> decodeKeysetCursor slow c = Inl invalid_cursor"
  "DecodeString c = Some raw \<Longrightarrow> CHR ''|'' \<notin> set raw \<Longrightarrow> decodeKeysetCursor slow c = Inl invalid_cursor"
  "DecodeString c = Some (t @ ''|'' @ i) \<Longrightarrow> CHR ''|'' \<notin> set t \<Longrightarrow> ParseRFC3339Nano slow t = None \<Longrightarrow>
    decodeKeysetCursor slow c = Inl invalid_cursor"
  by (simp_all add: decodeKeysetCursor_def split_bar_append split_bar_none)

lemma decodeKeysetCursor_accepts:
  "DecodeString c = Some (t @ ''|'' @ i) \<Longrightarrow> CHR ''|'' \<notin> set t \<Longrightarrow> ParseRFC3339Nano slow t = Some ts \<Longrightarrow>
    decodeKeysetCursor slow c = Inr (ts, i)"
  by (simp add: decodeKeysetCursor_def split_bar_append)

lemma EncodeToString_nonempty: "s \<noteq> [] \<Longrightarrow> EncodeToString s \<noteq> []"
  by (cases s rule: EncodeToString.cases) simp_all

lemma cursor_nonempty [simp]: "encodeLineItemCursor t i \<noteq> ''''" "encodeBillCursor t i \<noteq> ''''"
  by (simp_all add: encodeLineItemCursor_def encodeBillCursor_def EncodeToString_nonempty)

lemma decodeCursor_encode:
  assumes "stampable t"
  shows "decodeCursor slow (Some (encodeLineItemCursor t i)) = Inr (t, i)"
    "decodeCursor slow (Some (encodeBillCursor t i)) = Inr (t, i)"
  using assms by (simp_all add: decodeCursor_def cursor_roundtrip)

end
