(* ===== verification/Queries.thy ===== *)
theory Queries
  imports Registry Cursor
begin

section \<open>Reads (the SELECT statements of bill/endpoints.go)\<close>

text \<open>
  The queries of the endpoints over the tables of \<open>Database\<close>, and the scans of their rows.
  A listing orders by the pair (created_at, id), which is unique, and its pages are taken from
  after (or, descending, before) the position the cursor names.
\<close>

definition scan_item :: "'d ItemRow \<Rightarrow> 'd LineItem" where
  "scan_item r =
     \<lparr>li_ID = lr_id r, li_Description = lr_description r, li_Amount = lr_amount r,
      li_Currency = lr_currency r, li_CreatedAt = lr_created_at r\<rparr>"

text \<open>\<open>scanBillRow\<close>: the item count is not a column, it stays 0.\<close>

definition scanBillRow :: "'d BillRow \<Rightarrow> 'd Bill" where
  "scanBillRow r =
     \<lparr>bill_ID = br_id r, bill_AccountID = br_account_id r, bill_Status = br_status r,
      bill_Currency = br_currency r, bill_LineItems = None, bill_TotalAmount = br_total_amount r,
      bill_ItemCount = 0, bill_CreatedAt = br_created_at r, bill_ClosedAt = br_closed_at r,
      bill_PeriodStart = br_period_start r, bill_PeriodEnd = br_period_end r,
      bill_CloseReason = (case br_close_reason r of None \<Rightarrow> CloseReasonNone | Some c \<Rightarrow> c)\<rparr>"

record BillEvent =
  ev_ID :: string
  ev_BillID :: string
  ev_Kind :: BillEventKind
  ev_Actor :: string
  ev_Payload :: Payload
  ev_CreatedAt :: gotime

definition scan_event :: "EventRow \<Rightarrow> BillEvent" where
  "scan_event r =
     \<lparr>ev_ID = er_id r, ev_BillID = er_bill_id r, ev_Kind = er_kind r, ev_Actor = er_actor r,
      ev_Payload = er_payload r, ev_CreatedAt = er_created_at r\<rparr>"

definition getBillRowFromDB :: "'d lib \<Rightarrow> go_error option \<Rightarrow> string \<Rightarrow> 'd DB \<Rightarrow> go_error + 'd Bill" where
  "getBillRowFromDB lib failure i db =
     (case failure of
        Some e \<Rightarrow> Inl e
      | None \<Rightarrow>
          (case pg_uuid lib i of
             None \<Rightarrow> Inl invalid_uuid
           | Some u \<Rightarrow>
               (case find_bill u db of None \<Rightarrow> Inl ErrNoRows | Some r \<Rightarrow> Inr (scanBillRow r))))"

subsection \<open>Positions\<close>

definition item_key :: "'d ItemRow \<Rightarrow> keypos" where
  "item_key r = Keypos (unix_ns (lr_created_at r)) (lr_id r)"

definition event_key :: "EventRow \<Rightarrow> keypos" where
  "event_key r = Keypos (unix_ns (er_created_at r)) (er_id r)"

definition bill_key :: "'d BillRow \<Rightarrow> keypos" where
  "bill_key r = Keypos (unix_ns (br_created_at r)) (br_id r)"

text \<open>
  The position a cursor names: none for an empty id, an error for an id that is no UUID.
\<close>

definition cursor_pos :: "'d lib \<Rightarrow> gotime \<Rightarrow> string \<Rightarrow> go_error + keypos option" where
  "cursor_pos lib ts i =
     (if i = '''' then Inr None
      else (case pg_uuid lib i of
         None \<Rightarrow> Inl invalid_uuid
       | Some c \<Rightarrow> Inr (Some (Keypos (unix_ns (pg_time lib ts)) c))))"

text \<open>\<open>ORDER BY created_at, id LIMIT n\<close>, from the start or after a position, and descending.\<close>

definition page_asc :: "('r \<Rightarrow> keypos) \<Rightarrow> keypos option \<Rightarrow> nat \<Rightarrow> 'r list \<Rightarrow> 'r list" where
  "page_asc key pos n rs =
     take n (filter (\<lambda>r. case pos of None \<Rightarrow> True | Some p \<Rightarrow> p < key r) (sort_key key rs))"

definition page_desc :: "('r \<Rightarrow> keypos) \<Rightarrow> keypos option \<Rightarrow> nat \<Rightarrow> 'r list \<Rightarrow> 'r list" where
  "page_desc key pos n rs =
     take n (filter (\<lambda>r. case pos of None \<Rightarrow> True | Some p \<Rightarrow> key r < p) (rev (sort_key key rs)))"

text \<open>The outcome of a query of several rows: where it failed, or its rows.\<close>

definition rows_of :: "rows_failure option \<Rightarrow> (go_error + 'r list) \<Rightarrow> rows_failure + 'r list" where
  "rows_of failure r =
     (case failure of
        Some f \<Rightarrow> Inl f
      | None \<Rightarrow> (case r of Inl e \<Rightarrow> Inl (QueryFails e) | Inr rs \<Rightarrow> Inr rs))"

subsection \<open>The statements\<close>

definition fetchLineItems ::
  "'d lib \<Rightarrow> rows_failure option \<Rightarrow> string \<Rightarrow> 'd DB \<Rightarrow> go_error + 'd LineItem list" where
  "fetchLineItems lib failure billID db =
     (case rows_of failure (case pg_uuid lib billID of
              None \<Rightarrow> Inl invalid_uuid
            | Some u \<Rightarrow> Inr (sort_key item_key (items_of u db))) of
        Inl (QueryFails e) \<Rightarrow> Inl e
      | Inl (ScanFails e) \<Rightarrow> Inl (Wrap ''scan line item'' e)
      | Inl (IterFails e) \<Rightarrow> Inl (Wrap ''iterate line items'' e)
      | Inr rs \<Rightarrow> Inr (map scan_item rs))"

definition queryItemsPage ::
  "'d lib \<Rightarrow> string \<Rightarrow> gotime \<Rightarrow> string \<Rightarrow> nat \<Rightarrow> 'd DB \<Rightarrow> go_error + 'd ItemRow list" where
  "queryItemsPage lib billID ts cid n db =
     (case (pg_uuid lib billID, cursor_pos lib ts cid) of
        (Some u, Inr pos) \<Rightarrow> Inr (page_asc item_key pos n (items_of u db))
      | _ \<Rightarrow> Inl invalid_uuid)"

definition queryEventsPage ::
  "'d lib \<Rightarrow> string \<Rightarrow> gotime \<Rightarrow> string \<Rightarrow> nat \<Rightarrow> 'd DB \<Rightarrow> go_error + EventRow list" where
  "queryEventsPage lib billID ts cid n db =
     (case (pg_uuid lib billID, cursor_pos lib ts cid) of
        (Some u, Inr pos) \<Rightarrow> Inr (page_asc event_key pos n (events_of u db))
      | _ \<Rightarrow> Inl invalid_uuid)"

text \<open>\<open>queryBillsPage\<close>: the empty status is the wildcard.\<close>

definition queryBillsPage ::
  "'d lib \<Rightarrow> string \<Rightarrow> string \<Rightarrow> gotime \<Rightarrow> string \<Rightarrow> nat \<Rightarrow> 'd DB \<Rightarrow> go_error + 'd BillRow list" where
  "queryBillsPage lib account status ts cid n db =
     (case cursor_pos lib ts cid of
        Inl e \<Rightarrow> Inl e
      | Inr pos \<Rightarrow>
          Inr (page_desc bill_key pos n
            (filter (\<lambda>r. br_account_id r = account \<and>
               (status = '''' \<or> status_string (br_status r) = status)) (bills db))))"

lemma cursor_pos_Inl: "cursor_pos lib ts i = Inl e \<Longrightarrow> e = invalid_uuid"
  by (auto simp: cursor_pos_def split: if_splits option.splits)

lemma set_page [simp]:
  "set (page_asc key pos n rs) \<subseteq> set rs" "set (page_desc key pos n rs) \<subseteq> set rs"
  by (auto simp: page_asc_def page_desc_def dest: in_set_takeD)

lemma length_page [simp]: "length (page_asc key pos n rs) \<le> n" "length (page_desc key pos n rs) \<le> n"
  by (simp_all add: page_asc_def page_desc_def)

lemma page_sorted: "sorted (map key (page_asc key pos n rs))"
  unfolding page_asc_def by (simp add: sorted_filter sorted_wrt_take take_map flip: take_map)

end
