(* ===== verification/Views.thy ===== *)
theory Views
  imports Database Rfc3339
begin

section \<open>API views (bill/views.go)\<close>

text \<open>
  The shapes the API shows: decimals as strings, times in RFC 3339. A slice that is nil is
  \<open>None\<close>, an optional field that is absent is \<open>None\<close>.
\<close>

record LineItemView =
  lv_ID :: string
  lv_Description :: string
  lv_Amount :: string
  lv_Currency :: Currency
  lv_CreatedAt :: string

record BillView =
  bv_ID :: string
  bv_AccountID :: string
  bv_Status :: BillStatus
  bv_Currency :: Currency
  bv_LineItems :: "LineItemView list option"
  bv_TotalAmount :: string
  bv_ItemCount :: int
  bv_CreatedAt :: string
  bv_ClosedAt :: "string option"
  bv_PeriodStart :: "string option"
  bv_PeriodEnd :: "string option"
  bv_CloseReason :: CloseReason

definition toLineItemView :: "'d lib \<Rightarrow> 'd LineItem \<Rightarrow> LineItemView" where
  "toLineItemView lib i =
     \<lparr>lv_ID = li_ID i, lv_Description = li_Description i, lv_Amount = dec_String lib (li_Amount i),
      lv_Currency = li_Currency i, lv_CreatedAt = FormatRFC3339Nano (li_CreatedAt i)\<rparr>"

definition toLineItemViews :: "'d lib \<Rightarrow> 'd LineItem list \<Rightarrow> LineItemView list" where
  "toLineItemViews lib items = map (toLineItemView lib) items"

definition toBillView :: "'d lib \<Rightarrow> 'd Bill \<Rightarrow> BillView" where
  "toBillView lib b =
     \<lparr>bv_ID = bill_ID b, bv_AccountID = bill_AccountID b, bv_Status = bill_Status b,
      bv_Currency = bill_Currency b,
      bv_LineItems = map_option (toLineItemViews lib) (bill_LineItems b),
      bv_TotalAmount = dec_String lib (bill_TotalAmount b), bv_ItemCount = bill_ItemCount b,
      bv_CreatedAt = FormatRFC3339Nano (bill_CreatedAt b),
      bv_ClosedAt = map_option FormatRFC3339Nano (bill_ClosedAt b),
      bv_PeriodStart = map_option FormatRFC3339Nano (bill_PeriodStart b),
      bv_PeriodEnd = map_option FormatRFC3339Nano (bill_PeriodEnd b),
      bv_CloseReason = bill_CloseReason b\<rparr>"

definition parseAmount :: "'d lib \<Rightarrow> string \<Rightarrow> go_error + 'd::{zero,ord}" where
  "parseAmount lib s =
     (if s = '''' then Inl (ErrsError InvalidArgument ''amount is required'')
      else (case dec_NewFromString lib s of
         None \<Rightarrow> Inl (ErrsError InvalidArgument ''amount must be a decimal string (e.g. \"15.99\")'')
       | Some d \<Rightarrow>
           if 0 < d then Inr d else Inl (ErrsError InvalidArgument ''amount must be positive'')))"

lemma parseAmount_Inr:
  "parseAmount lib s = Inr d \<longleftrightarrow> s \<noteq> '''' \<and> dec_NewFromString lib s = Some d \<and> 0 < d"
  by (auto simp: parseAmount_def split: option.splits)

lemma parseAmount_Inl: "parseAmount lib s = Inl e \<Longrightarrow> \<exists>m. e = ErrsError InvalidArgument m"
  by (auto simp: parseAmount_def split: option.splits if_splits)

lemma length_toLineItemViews [simp]: "length (toLineItemViews lib items) = length items"
  by (simp add: toLineItemViews_def)

end
