(* ===== verification/Activities.thy ===== *)
theory Activities
  imports Database
begin

section \<open>Activities (bill/activities.go)\<close>

text \<open>
  The three activities the workflow runs, each one database transaction, over the state
  \<open>(database, log of metric increments)\<close>. Metrics are not part of the transaction: an
  increment stays when the commit fails. What the environment decides about one attempt is
  in \<open>tx_env\<close>: whether the transaction can begin, which statement (counted from 0) is cut
  off by a connection failure, what becomes of the commit, and the server's clock and fresh
  UUID. A commit that reports an error may have been applied (\<open>CommitUnknown\<close>).
\<close>

datatype CommitOutcome = CommitOk | CommitFailed | CommitUnknown

record tx_env =
  begin_fails :: bool
  stmt_fails :: "nat option"
  commit :: CommitOutcome
  tx_now :: gotime
  tx_fresh :: string

type_synonym 'd Store = "'d DB \<times> Metric list"

definition conn_error :: go_error where
  "conn_error = ErrorString ''connection failure''"

text \<open>The \<open>i\<close>-th statement of a transaction.\<close>

definition sql :: "tx_env \<Rightarrow> nat \<Rightarrow> (go_error + 'r) \<Rightarrow> go_error + 'r" where
  "sql env i r = (if stmt_fails env = Some i then Inl conn_error else r)"

definition inTx ::
  "tx_env \<Rightarrow> string \<Rightarrow> ('d Store \<Rightarrow> (go_error + unit) \<times> 'd Store) \<Rightarrow> 'd Store
     \<Rightarrow> (go_error + unit) \<times> 'd Store" where
  "inTx env op fn s =
     (if begin_fails env then (Inl (Wrap (op @ '': begin tx'') conn_error), s)
      else (case fn s of
         (Inl e, (db', ms')) \<Rightarrow> (Inl e, (fst s, ms'))
       | (Inr _, (db', ms')) \<Rightarrow>
           (case commit env of
              CommitOk \<Rightarrow> (Inr (), (db', ms'))
            | CommitFailed \<Rightarrow> (Inl (Wrap (op @ '': commit'') conn_error), (fst s, ms'))
            | CommitUnknown \<Rightarrow> (Inl (Wrap (op @ '': commit'') conn_error), (db', ms')))))"

definition appendEvent ::
  "'d lib \<Rightarrow> tx_env \<Rightarrow> nat \<Rightarrow> string \<Rightarrow> BillEventKind \<Rightarrow> string \<Rightarrow> Payload \<Rightarrow> 'd DB
     \<Rightarrow> go_error + 'd DB" where
  "appendEvent lib env i billID kind actor payload db =
     (let actor' = (if actor = '''' then SystemActor else actor) in
      case sql env i (insert_event lib (tx_fresh env) (tx_now env) billID kind actor' payload db) of
        Inl e \<Rightarrow> Inl (Wrap (''append '' @ kind_string kind @ '' event'') e)
      | Inr db' \<Rightarrow> Inr db')"

definition CreateBillTx ::
  "'d lib \<Rightarrow> tx_env \<Rightarrow> 'd Bill \<Rightarrow> 'd::zero Store \<Rightarrow> (go_error + unit) \<times> 'd Store" where
  "CreateBillTx lib env b s =
     (case sql env 0 (insert_bill lib b (fst s)) of
        Inl e \<Rightarrow> if errors_Is e ErrNoRows then (Inr (), s) else (Inl (Wrap ''insert bill'' e), s)
      | Inr (_, db1) \<Rightarrow>
          (case appendEvent lib env 1 (bill_ID b) BillEventOpened (bill_AccountID b)
             (OpenedPayload (bill_Currency b) (bill_PeriodStart b) (bill_PeriodEnd b)) db1 of
             Inl e \<Rightarrow> (Inl e, (db1, snd s))
           | Inr db2 \<Rightarrow> (Inr (), (db2, BillsOpened (bill_Currency b) # snd s))))"

definition CreateBillActivity ::
  "'d lib \<Rightarrow> tx_env \<Rightarrow> 'd Bill \<Rightarrow> 'd::zero Store \<Rightarrow> (go_error + unit) \<times> 'd Store" where
  "CreateBillActivity lib env b = inTx env ''create bill'' (CreateBillTx lib env b)"

record 'd AppendLineItemInput =
  ap_BillID :: string
  ap_Actor :: string
  ap_Item :: "'d LineItem"

definition AppendLineItemTx ::
  "'d lib \<Rightarrow> tx_env \<Rightarrow> 'd AppendLineItemInput \<Rightarrow> 'd::{zero,ord,plus} Store
     \<Rightarrow> (go_error + unit) \<times> 'd Store" where
  "AppendLineItemTx lib env inp s =
     (let it = ap_Item inp in
      case sql env 0 (insert_line_item lib (ap_BillID inp) it (fst s)) of
        Inl e \<Rightarrow>
          if errors_Is e ErrNoRows then (Inr (), (fst s, LineItemsAdded ''duplicate'' # snd s))
          else (Inl (Wrap (''insert line item '' @ li_ID it) e), s)
      | Inr (_, db1) \<Rightarrow>
          (case sql env 1 (update_bill_total lib (ap_BillID inp) (li_Amount it) db1) of
             Inl e \<Rightarrow> (Inl (Wrap ''update bill total'' e), (db1, snd s))
           | Inr db2 \<Rightarrow>
               (case appendEvent lib env 2 (ap_BillID inp) BillEventItemAdded (ap_Actor inp)
                  (ItemAddedPayload (li_ID it) (li_Description it) (dec_String lib (li_Amount it))
                     (li_Currency it)) db2 of
                  Inl e \<Rightarrow> (Inl e, (db2, snd s))
                | Inr db3 \<Rightarrow> (Inr (), (db3, LineItemsAdded ''accepted'' # snd s)))))"

definition AppendLineItemActivity ::
  "'d lib \<Rightarrow> tx_env \<Rightarrow> 'd AppendLineItemInput \<Rightarrow> 'd::{zero,ord,plus} Store
     \<Rightarrow> (go_error + unit) \<times> 'd Store" where
  "AppendLineItemActivity lib env inp = inTx env ''append line item'' (AppendLineItemTx lib env inp)"

record 'd CloseBillActivityInput =
  cb_BillID :: string
  cb_Actor :: string
  cb_TotalAmount :: 'd
  cb_ClosedAt :: gotime
  cb_CloseReason :: CloseReason

definition CloseBillTx ::
  "'d lib \<Rightarrow> tx_env \<Rightarrow> 'd CloseBillActivityInput \<Rightarrow> 'd Store \<Rightarrow> (go_error + unit) \<times> 'd Store" where
  "CloseBillTx lib env inp s =
     (case sql env 0 (update_bill_close lib (cb_BillID inp) (cb_TotalAmount inp) (cb_ClosedAt inp)
                        (nullableCloseReason (cb_CloseReason inp)) (fst s)) of
        Inl e \<Rightarrow> (Inl (Wrap ''update bill on close'' e), s)
      | Inr db1 \<Rightarrow>
          (case appendEvent lib env 1 (cb_BillID inp) BillEventClosed (cb_Actor inp)
             (ClosedPayload (dec_String lib (cb_TotalAmount inp)) (cb_CloseReason inp)) db1 of
             Inl e \<Rightarrow> (Inl e, (db1, snd s))
           | Inr db2 \<Rightarrow> (Inr (), (db2, BillsClosed (reason_string (cb_CloseReason inp)) # snd s))))"

definition CloseBillActivity ::
  "'d lib \<Rightarrow> tx_env \<Rightarrow> 'd CloseBillActivityInput \<Rightarrow> 'd Store \<Rightarrow> (go_error + unit) \<times> 'd Store" where
  "CloseBillActivity lib env inp = inTx env ''close bill'' (CloseBillTx lib env inp)"

subsection \<open>The contract of a transaction body\<close>

text \<open>
  What \<open>inTx\<close> relies on: a body that reports success leaves a database that satisfies the
  schema and extends the one it was given. Whatever the body and the connection do, the
  stored database is then either untouched or the body's result.
\<close>

lemma inTx_cases:
  assumes "inTx env op fn s = (r, s')"
  obtains (kept) "fst s' = fst s" "r \<noteq> Inr ()"
  | (finished) "fn s = (Inr (), s')" "r = Inr ()"
  | (unreported) "fn s = (Inr (), s')" "r \<noteq> Inr ()"
  using assms unfolding inTx_def
  by (auto split: if_splits prod.splits sum.splits CommitOutcome.splits)

lemma inTx_ok:
  "\<not> begin_fails env \<Longrightarrow> fn s = (Inr (), s') \<Longrightarrow> commit env = CommitOk \<Longrightarrow>
   inTx env op fn s = (Inr (), s')"
  by (cases s') (simp add: inTx_def)

locale transaction =
  fixes body :: "tx_env \<Rightarrow> 'd::{zero,ord} Store \<Rightarrow> (go_error + unit) \<times> 'd Store"
    and op :: string
  assumes body_ok: "db_ok (fst s) \<Longrightarrow> body env s = (Inr (), s') \<Longrightarrow> db_ok (fst s')"
    and body_extends: "body env s = (Inr (), s') \<Longrightarrow> db_extends (fst s) (fst s')"
begin

lemma run_ok:
  assumes "db_ok (fst s)" "inTx env op (body env) s = (r, s')"
  shows "db_ok (fst s')"
  using assms(2) by (cases rule: inTx_cases) (use assms(1) body_ok in auto)

lemma run_extends:
  assumes "inTx env op (body env) s = (r, s')"
  shows "db_extends (fst s) (fst s')"
  using assms by (cases rule: inTx_cases) (use body_extends in auto)

lemma run_item:
  "inTx env op (body env) s = (r, s') \<Longrightarrow> find_item i (fst s) = Some row \<Longrightarrow>
   find_item i (fst s') = Some row"
  using run_extends db_extends_item by blast

end

lemma sql_Inr [simp]: "sql env i r = Inr x \<longleftrightarrow> stmt_fails env \<noteq> Some i \<and> r = Inr x"
  by (simp add: sql_def)

lemma appendEvent_Inr:
  "appendEvent lib env i bid kind actor p db = Inr db' \<longleftrightarrow>
   stmt_fails env \<noteq> Some i \<and>
   insert_event lib (tx_fresh env) (tx_now env) bid kind
     (if actor = '''' then SystemActor else actor) p db = Inr db'"
  by (auto simp: appendEvent_def Let_def sql_def split: sum.splits)

text \<open>Among the errors of a guarded statement only the conflict counts as \<open>ErrNoRows\<close>.\<close>

lemma sql_ErrNoRows:
  "sql env i r = Inl e \<Longrightarrow> errors_Is e ErrNoRows \<Longrightarrow> stmt_fails env \<noteq> Some i \<and> r = Inl e"
  by (auto simp: sql_def conn_error_def split: if_splits)

lemma insert_bill_ErrNoRows:
  "insert_bill lib b db = Inl e \<Longrightarrow> errors_Is e ErrNoRows \<Longrightarrow>
   e = ErrNoRows \<and> (\<exists>u r. pg_uuid lib (bill_ID b) = Some u \<and> find_bill u db = Some r)"
  by (auto simp: insert_bill_def invalid_uuid_def split: option.splits if_splits)

lemma insert_line_item_ErrNoRows:
  "insert_line_item lib bid it db = Inl e \<Longrightarrow> errors_Is e ErrNoRows \<Longrightarrow>
   e = ErrNoRows \<and> (\<exists>i r. pg_uuid lib (li_ID it) = Some i \<and> find_item i db = Some r)"
  by (auto simp: insert_line_item_def invalid_uuid_def numeric_overflow_def
      split: option.splits if_splits)

text \<open>The successful runs of each body.\<close>

lemma CreateBillTx_Inr:
  "CreateBillTx lib env b s = (Inr (), s') \<Longrightarrow>
   s' = s \<and> insert_bill lib b (fst s) = Inl ErrNoRows \<or>
   (\<exists>u db1 db2. insert_bill lib b (fst s) = Inr (u, db1) \<and>
      insert_event lib (tx_fresh env) (tx_now env) (bill_ID b) BillEventOpened
        (if bill_AccountID b = '''' then SystemActor else bill_AccountID b)
        (OpenedPayload (bill_Currency b) (bill_PeriodStart b) (bill_PeriodEnd b)) db1 = Inr db2 \<and>
      s' = (db2, BillsOpened (bill_Currency b) # snd s))"
  unfolding CreateBillTx_def
  by (auto simp: appendEvent_Inr split: sum.splits if_splits
      dest: sql_ErrNoRows insert_bill_ErrNoRows)

lemma AppendLineItemTx_Inr:
  "AppendLineItemTx lib env inp s = (Inr (), s') \<Longrightarrow>
   s' = (fst s, LineItemsAdded ''duplicate'' # snd s) \<and>
     insert_line_item lib (ap_BillID inp) (ap_Item inp) (fst s) = Inl ErrNoRows \<or>
   (\<exists>i db1 db2 db3. insert_line_item lib (ap_BillID inp) (ap_Item inp) (fst s) = Inr (i, db1) \<and>
      update_bill_total lib (ap_BillID inp) (li_Amount (ap_Item inp)) db1 = Inr db2 \<and>
      insert_event lib (tx_fresh env) (tx_now env) (ap_BillID inp) BillEventItemAdded
        (if ap_Actor inp = '''' then SystemActor else ap_Actor inp)
        (ItemAddedPayload (li_ID (ap_Item inp)) (li_Description (ap_Item inp))
           (dec_String lib (li_Amount (ap_Item inp))) (li_Currency (ap_Item inp))) db2 = Inr db3 \<and>
      s' = (db3, LineItemsAdded ''accepted'' # snd s))"
  unfolding AppendLineItemTx_def Let_def
  by (auto simp: appendEvent_Inr split: sum.splits if_splits
      dest: sql_ErrNoRows insert_line_item_ErrNoRows)

lemma CloseBillTx_Inr:
  "CloseBillTx lib env inp s = (Inr (), s') \<Longrightarrow>
   \<exists>db1 db2. update_bill_close lib (cb_BillID inp) (cb_TotalAmount inp) (cb_ClosedAt inp)
      (nullableCloseReason (cb_CloseReason inp)) (fst s) = Inr db1 \<and>
    insert_event lib (tx_fresh env) (tx_now env) (cb_BillID inp) BillEventClosed
        (if cb_Actor inp = '''' then SystemActor else cb_Actor inp)
        (ClosedPayload (dec_String lib (cb_TotalAmount inp)) (cb_CloseReason inp)) db1 = Inr db2 \<and>
    s' = (db2, BillsClosed (reason_string (cb_CloseReason inp)) # snd s)"
  by (auto simp: CloseBillTx_def appendEvent_Inr split: sum.splits if_splits)

interpretation create_tx: transaction "\<lambda>env. CreateBillTx lib env b" "''create bill''"
  for lib :: "'d::{zero,ord} lib" and b
proof
  fix s s' :: "'d Store" and env
  assume "CreateBillTx lib env b s = (Inr (), s')"
  note run = CreateBillTx_Inr [OF this]
  show "db_ok (fst s')" if "db_ok (fst s)"
    using run that by (auto intro: insert_bill_ok insert_event_ok)
  show "db_extends (fst s) (fst s')"
    using run by (auto dest!: insert_bill_extends insert_event_extends intro: db_extends_trans)
qed

interpretation append_tx: transaction "\<lambda>env. AppendLineItemTx lib env inp" "''append line item''"
  for lib :: "'d::{zero,ord,plus} lib" and inp
proof
  fix s s' :: "'d Store" and env
  assume "AppendLineItemTx lib env inp s = (Inr (), s')"
  note run = AppendLineItemTx_Inr [OF this]
  show "db_ok (fst s')" if "db_ok (fst s)"
    using run that by (metis fst_conv insert_line_item_ok update_bill_total_ok insert_event_ok)
  show "db_extends (fst s) (fst s')"
    using run by (auto dest!: insert_line_item_extends update_bill_total_extends
        insert_event_extends intro: db_extends_trans)
qed

interpretation close_tx: transaction "\<lambda>env. CloseBillTx lib env inp" "''close bill''"
  for lib :: "'d::{zero,ord} lib" and inp
proof
  fix s s' :: "'d Store" and env
  assume "CloseBillTx lib env inp s = (Inr (), s')"
  note run = CloseBillTx_Inr [OF this]
  show "db_ok (fst s')" if "db_ok (fst s)"
    using run that by (auto intro: update_bill_close_ok insert_event_ok)
  show "db_extends (fst s) (fst s')"
    using run by (auto dest!: update_bill_close_extends insert_event_extends intro: db_extends_trans)
qed

subsection \<open>What a reported success means\<close>

definition item_durable :: "'d lib \<Rightarrow> 'd DB \<Rightarrow> string \<Rightarrow> bool" where
  "item_durable lib db itemID \<longleftrightarrow>
     (\<exists>i r. pg_uuid lib itemID = Some i \<and> find_item i db = Some r)"

definition bill_durable :: "'d lib \<Rightarrow> 'd DB \<Rightarrow> string \<Rightarrow> bool" where
  "bill_durable lib db billID \<longleftrightarrow>
     (\<exists>u r. pg_uuid lib billID = Some u \<and> find_bill u db = Some r)"

definition bill_closed :: "'d lib \<Rightarrow> 'd DB \<Rightarrow> string \<Rightarrow> bool" where
  "bill_closed lib db billID \<longleftrightarrow>
     (\<exists>u r. pg_uuid lib billID = Some u \<and> find_bill u db = Some r \<and> br_status r = BillStatusClosed)"

lemma item_durable_extends: "item_durable lib db i \<Longrightarrow> db_extends db db' \<Longrightarrow> item_durable lib db' i"
  unfolding item_durable_def using db_extends_item by blast

lemma bill_durable_extends: "bill_durable lib db b \<Longrightarrow> db_extends db db' \<Longrightarrow> bill_durable lib db' b"
  unfolding bill_durable_def db_extends_def by blast

lemma bill_closed_extends: "bill_closed lib db b \<Longrightarrow> db_extends db db' \<Longrightarrow> bill_closed lib db' b"
  unfolding bill_closed_def db_extends_def by blast

lemma inTx_Inr: "inTx env op fn s = (Inr (), s') \<Longrightarrow> fn s = (Inr (), s')"
  by (erule inTx_cases) auto

lemma CreateBillActivity_durable:
  fixes s :: "'d::{zero,ord} Store"
  assumes "CreateBillActivity lib env b s = (Inr (), s')"
  shows "bill_durable lib (fst s') (bill_ID b)"
proof -
  have run: "CreateBillTx lib env b s = (Inr (), s')"
    using assms unfolding CreateBillActivity_def by (rule inTx_Inr)
  from CreateBillTx_Inr [OF run] show ?thesis
    by (auto simp: bill_durable_def insert_bill_def insert_event_def invalid_uuid_def
        split: option.splits if_splits)
qed

lemma AppendLineItemActivity_durable:
  fixes s :: "'d::{zero,ord,plus} Store"
  assumes "AppendLineItemActivity lib env inp s = (Inr (), s')"
  shows "item_durable lib (fst s') (li_ID (ap_Item inp))"
proof -
  let ?it = "ap_Item inp"
  have run: "AppendLineItemTx lib env inp s = (Inr (), s')"
    using assms unfolding AppendLineItemActivity_def by (rule inTx_Inr)
  from AppendLineItemTx_Inr [OF run] show ?thesis
  proof (elim disjE conjE exE)
    assume "insert_line_item lib (ap_BillID inp) ?it (fst s) = Inl ErrNoRows" "s' = (fst s, LineItemsAdded ''duplicate'' # snd s)"
    then show ?thesis
      using insert_line_item_ErrNoRows [OF _ errors_Is_refl] by (fastforce simp: item_durable_def)
  next
    fix i db1 db2 db3
    assume ins: "insert_line_item lib (ap_BillID inp) ?it (fst s) = Inr (i, db1)"
      and upd: "update_bill_total lib (ap_BillID inp) (li_Amount ?it) db1 = Inr db2"
      and ev: "insert_event lib (tx_fresh env) (tx_now env) (ap_BillID inp) BillEventItemAdded
        (if ap_Actor inp = '''' then SystemActor else ap_Actor inp)
        (ItemAddedPayload (li_ID ?it) (li_Description ?it) (dec_String lib (li_Amount ?it))
          (li_Currency ?it)) db2 = Inr db3"
      and s': "s' = (db3, LineItemsAdded ''accepted'' # snd s)"
    from ins have "item_durable lib db1 (li_ID ?it)"
      by (auto simp: item_durable_def insert_line_item_def find_item_def find_append
          split: option.splits if_splits)
    with upd ev have "item_durable lib db3 (li_ID ?it)"
      by (blast intro: item_durable_extends update_bill_total_extends insert_event_extends)
    with s' show ?thesis by simp
  qed
qed

lemma CloseBillActivity_closed:
  fixes s :: "'d::{zero,ord} Store"
  assumes "CloseBillActivity lib env inp s = (Inr (), s')"
  shows "bill_closed lib (fst s') (cb_BillID inp)"
proof -
  have run: "CloseBillTx lib env inp s = (Inr (), s')"
    using assms unfolding CloseBillActivity_def by (rule inTx_Inr)
  from CloseBillTx_Inr [OF run] show ?thesis
    by (auto simp: bill_closed_def update_bill_close_def insert_event_def close_row_def
        split: option.splits if_splits)
qed

end
