(* ===== verification/Workflow.thy ===== *)
theory Workflow
  imports Activities
begin

section \<open>The billing workflow (bill/workflow.go)\<close>

text \<open>
  One run of \<open>BillingWorkflow\<close> as a state machine. The run's coroutines (the main function,
  the selector coroutine of \<open>awaitCloseOrThreshold\<close>, one coroutine per update handler) take
  turns: each goes on from where it blocked to where it blocks next, so an event below is one
  such stretch of one coroutine, or one attempt of an activity by a worker. \<open>wf_step\<close> says
  what an event does and when it can happen; the order of events is left open.
\<close>

definition continueAsNewThreshold :: int where
  "continueAsNewThreshold = 1000"

definition currencyMismatchErrType :: string where
  "currencyMismatchErrType = ''CurrencyMismatch''"

definition billNotFoundErrType :: string where
  "billNotFoundErrType = ''BillNotFound''"

record ActivityOptions =
  StartToCloseTimeout :: int
  ScheduleToCloseTimeout :: int
  InitialInterval :: int
  BackoffCoefficient :: int
  MaximumInterval :: int
  MaximumAttempts :: nat

definition shortActivityOpts :: ActivityOptions where
  "shortActivityOpts =
     \<lparr>StartToCloseTimeout = 15 * second, ScheduleToCloseTimeout = 2 * minute,
      InitialInterval = 500000000, BackoffCoefficient = 2, MaximumInterval = 10 * second,
      MaximumAttempts = 5\<rparr>"

subsection \<open>Start of a run\<close>

definition initialBill :: "gotime \<Rightarrow> 'd BillWorkflowInput \<Rightarrow> 'd::zero Bill" where
  "initialBill now inp =
     (case wi_Snapshot inp of
        Some b \<Rightarrow> b
      | None \<Rightarrow>
          \<lparr>bill_ID = wi_BillID inp, bill_AccountID = wi_AccountID inp,
           bill_Status = BillStatusOpen, bill_Currency = wi_Currency inp, bill_LineItems = None,
           bill_TotalAmount = 0, bill_ItemCount = 0, bill_CreatedAt = now, bill_ClosedAt = None,
           bill_PeriodStart = wi_PeriodStart inp, bill_PeriodEnd = wi_PeriodEnd inp,
           bill_CloseReason = CloseReasonNone\<rparr>)"

definition initialSeen :: "'d BillWorkflowInput \<Rightarrow> string set" where
  "initialSeen inp = set (wi_SeenItemIDs inp)"

subsection \<open>The AddLineItem update\<close>

text \<open>The validator: \<open>None\<close> accepts, \<open>Some e\<close> rejects with \<open>e\<close>.\<close>

definition validateAddLineItem ::
  "'d Bill \<Rightarrow> 'd::{zero,ord} AddLineItemInput \<Rightarrow> go_error option" where
  "validateAddLineItem b inp =
     (if in_CallerAccountID inp \<noteq> bill_AccountID b
      then Some (ApplicationError billNotFoundErrType ''bill not found'')
      else if in_Currency inp \<noteq> bill_Currency b
      then Some (ApplicationError currencyMismatchErrType
             (''currency mismatch: bill is '' @ bill_Currency b @ '', item is '' @ in_Currency inp))
      else if \<not> 0 < in_Amount inp then Some (ErrorString ''amount must be positive'')
      else if in_Description inp = '''' then Some (ErrorString ''description is required'')
      else None)"

definition addResult :: "'d Bill \<Rightarrow> string \<Rightarrow> 'd AddLineItemResult" where
  "addResult b itemID =
     \<lparr>res_ItemID = itemID, res_BillTotal = bill_TotalAmount b, res_ItemCount = bill_ItemCount b\<rparr>"

definition newItem :: "gotime \<Rightarrow> 'd AddLineItemInput \<Rightarrow> 'd LineItem" where
  "newItem now inp =
     \<lparr>li_ID = in_ItemID inp, li_Description = in_Description inp, li_Amount = in_Amount inp,
      li_Currency = in_Currency inp, li_CreatedAt = now\<rparr>"

definition appendInput :: "'d Bill \<Rightarrow> 'd AddLineItemInput \<Rightarrow> 'd LineItem \<Rightarrow> 'd AppendLineItemInput" where
  "appendInput b inp it =
     \<lparr>ap_BillID = bill_ID b, ap_Actor = in_CallerAccountID inp, ap_Item = it\<rparr>"

text \<open>What the handler does to the bill once the activity has succeeded.\<close>

definition applyItem :: "'d AddLineItemInput \<Rightarrow> 'd::plus Bill \<Rightarrow> 'd Bill" where
  "applyItem inp b =
     b\<lparr>bill_TotalAmount := bill_TotalAmount b + in_Amount inp,
       bill_ItemCount := bill_ItemCount b + 1\<rparr>"

subsection \<open>Hand-off and close\<close>

text \<open>
  \<open>continueAsNew\<close>: the input of the next run. Go's map iteration lists the seen ids in an
  arbitrary order, the argument \<open>seenIDs\<close>.
\<close>

definition continueAsNew ::
  "'d BillWorkflowInput \<Rightarrow> 'd Bill \<Rightarrow> string list \<Rightarrow> 'd BillWorkflowInput" where
  "continueAsNew inp b seenIDs =
     \<lparr>wi_BillID = wi_BillID inp, wi_AccountID = wi_AccountID inp, wi_Currency = wi_Currency inp,
      wi_PeriodStart = wi_PeriodStart inp, wi_PeriodEnd = wi_PeriodEnd inp,
      wi_Snapshot = Some
        \<lparr>bill_ID = bill_ID b, bill_AccountID = bill_AccountID b, bill_Status = bill_Status b,
         bill_Currency = bill_Currency b, bill_LineItems = None,
         bill_TotalAmount = bill_TotalAmount b, bill_ItemCount = bill_ItemCount b,
         bill_CreatedAt = bill_CreatedAt b, bill_ClosedAt = None,
         bill_PeriodStart = bill_PeriodStart b, bill_PeriodEnd = bill_PeriodEnd b,
         bill_CloseReason = CloseReasonNone\<rparr>,
      wi_SeenItemIDs = seenIDs\<rparr>"

definition closedBill :: "gotime \<Rightarrow> CloseReason \<Rightarrow> 'd Bill \<Rightarrow> 'd Bill" where
  "closedBill now reason b =
     b\<lparr>bill_Status := BillStatusClosed, bill_ClosedAt := Some now, bill_CloseReason := reason\<rparr>"

definition closeActor :: "'d Bill \<Rightarrow> CloseReason \<Rightarrow> string" where
  "closeActor b reason = (if reason = CloseReasonSignal then bill_AccountID b else SystemActor)"

definition closeInput :: "gotime \<Rightarrow> CloseReason \<Rightarrow> 'd Bill \<Rightarrow> 'd CloseBillActivityInput" where
  "closeInput now reason b =
     \<lparr>cb_BillID = bill_ID b, cb_Actor = closeActor b reason, cb_TotalAmount = bill_TotalAmount b,
      cb_ClosedAt = now, cb_CloseReason = reason\<rparr>"

definition billResult :: "CloseReason \<Rightarrow> 'd Bill \<Rightarrow> 'd BillResult" where
  "billResult reason b =
     \<lparr>br_BillID = bill_ID b, br_TotalAmount = bill_TotalAmount b, br_Currency = bill_Currency b,
      br_ItemCount = bill_ItemCount b, br_CloseReason = reason\<rparr>"

subsection \<open>State of a run\<close>

text \<open>What a run fails with whose bill row could not be inserted.\<close>

definition createFailure :: go_error where
  "createFailure = Wrap ''persist bill on create'' ActivityError"

text \<open>A pending activity: attempts made so far, and whether its success was reported.\<close>

record Act =
  act_attempts :: nat
  act_done :: bool

definition act_new :: Act where
  "act_new = \<lparr>act_attempts = 0, act_done = False\<rparr>"

definition can_attempt :: "Act \<Rightarrow> bool" where
  "can_attempt a \<longleftrightarrow> \<not> act_done a \<and> act_attempts a < MaximumAttempts shortActivityOpts"

text \<open>
  After an attempt: done if it succeeded and its worker reported so (\<open>reported\<close> is False
  when the worker is lost or the attempt times out after the commit).
\<close>

definition after_attempt :: "go_error + unit \<Rightarrow> bool \<Rightarrow> Act \<Rightarrow> Act" where
  "after_attempt r reported a =
     \<lparr>act_attempts = Suc (act_attempts a), act_done = (reported \<and> \<not> isl r)\<rparr>"

definition gave_up :: "int \<Rightarrow> Act \<Rightarrow> bool" where
  "gave_up elapsed a \<longleftrightarrow> \<not> act_done a \<and>
     (MaximumAttempts shortActivityOpts \<le> act_attempts a \<or>
      ScheduleToCloseTimeout shortActivityOpts \<le> elapsed)"

record 'd Handler =
  h_in :: "'d AddLineItemInput"
  h_item :: "'d LineItem"
  h_act :: Act

datatype 'd Phase =
    Creating Act
  | Serving
  | Draining CloseReason
  | Closing "'d CloseBillActivityInput" Act
  | Completed "'d BillResult"
  | Failed go_error
  | Continued "'d BillWorkflowInput"

datatype Selector = SelInit | SelWaiting | SelDone

record 'd WF =
  wf_input :: "'d BillWorkflowInput"
  wf_bill :: "'d Bill"
  wf_seen :: "string set"
  wf_phase :: "'d Phase"
  wf_sel :: Selector
  wf_settled :: bool
  wf_reason :: CloseReason
  wf_signals :: nat
  wf_handlers :: "'d Handler list"

type_synonym 'd Reply = "'d AddLineItemInput \<times> (go_error + 'd AddLineItemResult)"

text \<open>
  \<open>startRun\<close>: the start of \<open>BillingWorkflow\<close> up to where its main coroutine first blocks or
  reaches \<open>awaitCloseOrThreshold\<close>. The number of close signals already delivered to the
  run is an argument.
\<close>

definition startRun :: "gotime \<Rightarrow> nat \<Rightarrow> 'd BillWorkflowInput \<Rightarrow> 'd::zero WF" where
  "startRun now signals inp =
     \<lparr>wf_input = inp, wf_bill = initialBill now inp, wf_seen = initialSeen inp,
      wf_phase = (if wi_Snapshot inp = None then Creating act_new else Serving),
      wf_sel = SelInit, wf_settled = False, wf_reason = CloseReasonNone,
      wf_signals = signals, wf_handlers = []\<rparr>"

text \<open>The update handler and the selector live while the run is in one of these phases.\<close>

fun serving :: "'d Phase \<Rightarrow> bool" where
  "serving Serving = True"
| "serving (Draining _) = True"
| "serving (Closing _ _) = True"
| "serving _ = False"

fun terminal :: "'d Phase \<Rightarrow> bool" where
  "terminal (Completed _) = True"
| "terminal (Failed _) = True"
| "terminal (Continued _) = True"
| "terminal _ = False"

subsection \<open>Stretches of the coroutines\<close>

text \<open>The selector coroutine of \<open>awaitCloseOrThreshold\<close>: its start, and its two branches.\<close>

definition selectorStart :: "gotime \<Rightarrow> 'd WF \<Rightarrow> 'd WF" where
  "selectorStart now w =
     (case wi_PeriodEnd (wf_input w) of
        None \<Rightarrow> w\<lparr>wf_sel := SelWaiting\<rparr>
      | Some pe \<Rightarrow>
          if time_Sub pe now \<le> 0
          then w\<lparr>wf_reason := CloseReasonPeriodEnd, wf_settled := True, wf_sel := SelDone\<rparr>
          else w\<lparr>wf_sel := SelWaiting\<rparr>)"

definition selectorSignal :: "'d WF \<Rightarrow> 'd WF" where
  "selectorSignal w =
     w\<lparr>wf_signals := wf_signals w - 1, wf_reason := CloseReasonSignal, wf_settled := True,
       wf_sel := SelDone\<rparr>"

definition selectorTimer :: "'d WF \<Rightarrow> 'd WF" where
  "selectorTimer w = w\<lparr>wf_reason := CloseReasonPeriodEnd, wf_settled := True, wf_sel := SelDone\<rparr>"

definition timerFired :: "gotime \<Rightarrow> 'd WF \<Rightarrow> bool" where
  "timerFired now w \<longleftrightarrow>
     (case wi_PeriodEnd (wf_input w) of None \<Rightarrow> False | Some pe \<Rightarrow> time_Sub pe now \<le> 0)"

text \<open>The condition \<open>awaitCloseOrThreshold\<close> waits for.\<close>

definition closeOrThreshold :: "'d WF \<Rightarrow> bool" where
  "closeOrThreshold w \<longleftrightarrow> wf_settled w \<or> continueAsNewThreshold \<le> bill_ItemCount (wf_bill w)"

text \<open>
  An update: rejected by the validator, answered at once for an item id already seen, or
  left waiting for its activity. Replies are the answers callers receive.
\<close>

definition receiveUpdate ::
  "gotime \<Rightarrow> 'd::{zero,ord} AddLineItemInput \<Rightarrow> 'd WF \<Rightarrow> 'd WF \<times> 'd Reply list" where
  "receiveUpdate now inp w =
     (case validateAddLineItem (wf_bill w) inp of
        Some e \<Rightarrow> (w, [(inp, Inl e)])
      | None \<Rightarrow>
          if in_ItemID inp \<in> wf_seen w
          then (w, [(inp, Inr (addResult (wf_bill w) (in_ItemID inp)))])
          else (w\<lparr>wf_handlers := wf_handlers w @
                 [\<lparr>h_in = inp, h_item = newItem now inp, h_act = act_new\<rparr>]\<rparr>, []))"

text \<open>The rest of the handler, once its activity succeeded or was given up.\<close>

definition finishUpdate :: "nat \<Rightarrow> 'd::plus WF \<Rightarrow> 'd WF \<times> 'd Reply list" where
  "finishUpdate k w =
     (let inp = h_in (wf_handlers w ! k);
          b = applyItem inp (wf_bill w)
      in (w\<lparr>wf_bill := b, wf_seen := insert (in_ItemID inp) (wf_seen w),
            wf_handlers := take k (wf_handlers w) @ drop (Suc k) (wf_handlers w)\<rparr>,
          [(inp, Inr (addResult b (in_ItemID inp)))]))"

definition failUpdate :: "nat \<Rightarrow> 'd WF \<Rightarrow> 'd WF \<times> 'd Reply list" where
  "failUpdate k w =
     (w\<lparr>wf_handlers := take k (wf_handlers w) @ drop (Suc k) (wf_handlers w)\<rparr>,
      [(h_in (wf_handlers w ! k), Inl (Wrap ''persist line item'' ActivityError))])"

text \<open>
  The main coroutine after the drain: \<open>continueAsNew\<close> for the empty reason, otherwise
  \<open>finalizeAndPersist\<close> up to its activity.
\<close>

definition afterDrain :: "gotime \<Rightarrow> string list \<Rightarrow> CloseReason \<Rightarrow> 'd WF \<Rightarrow> 'd WF" where
  "afterDrain now ids reason w =
     (if reason = CloseReasonNone
      then w\<lparr>wf_phase := Continued (continueAsNew (wf_input w) (wf_bill w) ids)\<rparr>
      else (let b = closedBill now reason (wf_bill w)
            in w\<lparr>wf_bill := b, wf_phase := Closing (closeInput now reason b) act_new\<rparr>))"

definition set_handler_act :: "nat \<Rightarrow> Act \<Rightarrow> 'd WF \<Rightarrow> 'd WF" where
  "set_handler_act k a w =
     w\<lparr>wf_handlers := (wf_handlers w)[k := (wf_handlers w ! k)\<lparr>h_act := a\<rparr>]\<rparr>"

subsection \<open>Events and steps\<close>

datatype 'd Event =
    CreateAttempt tx_env bool
  | CreateReturns
  | CreateGivesUp int
  | SignalArrives
  | SelectorStart gotime
  | SelectorSignal
  | SelectorTimer gotime
  | UpdateArrives "'d AddLineItemInput" gotime
  | AppendAttempt nat tx_env bool
  | AppendReturns nat
  | AppendGivesUp nat int
  | AwaitReturns
  | DrainReturns gotime "string list"
  | CloseAttempt tx_env bool
  | CloseReturns
  | CloseGivesUp int

type_synonym 'd Outcome = "('d WF \<times> 'd Store \<times> 'd Reply list) option"

definition enabled :: "bool \<Rightarrow> 'a \<Rightarrow> 'a option" where
  "enabled c x = (if c then Some x else None)"

fun wf_step :: "'d lib \<Rightarrow> 'd::{zero,ord,plus} Event \<Rightarrow> 'd WF \<Rightarrow> 'd Store \<Rightarrow> 'd Outcome" where
  "wf_step lib (CreateAttempt env reported) w s =
     (case wf_phase w of
        Creating a \<Rightarrow>
          (let (r, s') = CreateBillActivity lib env (wf_bill w) s
           in enabled (can_attempt a) (w\<lparr>wf_phase := Creating (after_attempt r reported a)\<rparr>, s', []))
      | _ \<Rightarrow> None)"
| "wf_step lib CreateReturns w s =
     (case wf_phase w of
        Creating a \<Rightarrow> enabled (act_done a) (w\<lparr>wf_phase := Serving\<rparr>, s, [])
      | _ \<Rightarrow> None)"
| "wf_step lib (CreateGivesUp elapsed) w s =
     (case wf_phase w of
        Creating a \<Rightarrow> enabled (gave_up elapsed a)
          (w\<lparr>wf_phase := Failed createFailure\<rparr>, s, [])
      | _ \<Rightarrow> None)"
| "wf_step lib SignalArrives w s =
     enabled (\<not> terminal (wf_phase w)) (w\<lparr>wf_signals := Suc (wf_signals w)\<rparr>, s, [])"
| "wf_step lib (SelectorStart now) w s =
     enabled (serving (wf_phase w) \<and> wf_sel w = SelInit) (selectorStart now w, s, [])"
| "wf_step lib SelectorSignal w s =
     enabled (serving (wf_phase w) \<and> wf_sel w = SelWaiting \<and> 0 < wf_signals w) (selectorSignal w, s, [])"
| "wf_step lib (SelectorTimer now) w s =
     enabled (serving (wf_phase w) \<and> wf_sel w = SelWaiting \<and> timerFired now w) (selectorTimer w, s, [])"
| "wf_step lib (UpdateArrives inp now) w s =
     (let (w', rs) = receiveUpdate now inp w in enabled (serving (wf_phase w)) (w', s, rs))"
| "wf_step lib (AppendAttempt k env reported) w s =
     (let h = wf_handlers w ! k;
          (r, s') = AppendLineItemActivity lib env (appendInput (wf_bill w) (h_in h) (h_item h)) s
      in enabled (serving (wf_phase w) \<and> k < length (wf_handlers w) \<and> can_attempt (h_act h))
           (set_handler_act k (after_attempt r reported (h_act h)) w, s', []))"
| "wf_step lib (AppendReturns k) w s =
     (let (w', rs) = finishUpdate k w
      in enabled (serving (wf_phase w) \<and> k < length (wf_handlers w) \<and> act_done (h_act (wf_handlers w ! k)))
           (w', s, rs))"
| "wf_step lib (AppendGivesUp k elapsed) w s =
     (let (w', rs) = failUpdate k w
      in enabled (serving (wf_phase w) \<and> k < length (wf_handlers w) \<and>
               gave_up elapsed (h_act (wf_handlers w ! k)))
           (w', s, rs))"
| "wf_step lib AwaitReturns w s =
     enabled (wf_phase w = Serving \<and> closeOrThreshold w)
       (w\<lparr>wf_phase := Draining (wf_reason w)\<rparr>, s, [])"
| "wf_step lib (DrainReturns now ids) w s =
     (case wf_phase w of
        Draining reason \<Rightarrow>
          enabled (wf_handlers w = [] \<and> distinct ids \<and> set ids = wf_seen w)
            (afterDrain now ids reason w, s, [])
      | _ \<Rightarrow> None)"
| "wf_step lib (CloseAttempt env reported) w s =
     (case wf_phase w of
        Closing inp a \<Rightarrow>
          (let (r, s') = CloseBillActivity lib env inp s
           in enabled (can_attempt a) (w\<lparr>wf_phase := Closing inp (after_attempt r reported a)\<rparr>, s', []))
      | _ \<Rightarrow> None)"
| "wf_step lib CloseReturns w s =
     (case wf_phase w of
        Closing inp a \<Rightarrow> enabled (act_done a)
          (w\<lparr>wf_phase := Completed (billResult (cb_CloseReason inp) (wf_bill w))\<rparr>, s, [])
      | _ \<Rightarrow> None)"
| "wf_step lib (CloseGivesUp elapsed) w s =
     (case wf_phase w of
        Closing inp a \<Rightarrow> enabled (gave_up elapsed a) (w\<lparr>wf_phase := Failed ActivityError\<rparr>, s, [])
      | _ \<Rightarrow> None)"

subsection \<open>Inversion of a step\<close>

lemma enabled_Some [simp]: "enabled c x = Some y \<longleftrightarrow> c \<and> x = y"
  by (simp add: enabled_def)

lemma enabled_True [simp]: "enabled True x = Some x"
  by (simp add: enabled_def)

text \<open>The coroutine stretches do not touch the store: only attempts of activities do.\<close>

lemma wf_step_store:
  assumes "wf_step lib ev w s = Some (w', s', rs)"
  obtains (same) "s' = s"
  | (create) env r a where "wf_phase w = Creating a" "CreateBillActivity lib env (wf_bill w) s = (r, s')"
  | (append) env r inp where "AppendLineItemActivity lib env inp s = (r, s')"
  | (close) env r inp a where "wf_phase w = Closing inp a" "CloseBillActivity lib env inp s = (r, s')"
  using assms by (cases ev) (auto simp: Let_def split: Phase.splits prod.splits)

lemma wf_step_extends:
  fixes w :: "'d::{zero,ord,plus} WF"
  assumes "wf_step lib ev w s = Some (w', s', rs)"
  shows "db_extends (fst s) (fst s')"
  using assms
proof (cases rule: wf_step_store)
  case (create env r a)
  from create(2) show ?thesis unfolding CreateBillActivity_def by (rule create_tx.run_extends)
next
  case (append env r inp)
  then show ?thesis unfolding AppendLineItemActivity_def by (rule append_tx.run_extends)
next
  case (close env r inp a)
  from close(2) show ?thesis unfolding CloseBillActivity_def by (rule close_tx.run_extends)
qed simp

lemma wf_step_db_ok:
  fixes w :: "'d::{zero,ord,plus} WF"
  assumes "wf_step lib ev w s = Some (w', s', rs)" "db_ok (fst s)"
  shows "db_ok (fst s')"
  using assms(1)
proof (cases rule: wf_step_store)
  case (create env r a)
  from create(2) show ?thesis unfolding CreateBillActivity_def by (rule create_tx.run_ok [OF assms(2)])
next
  case (append env r inp)
  then show ?thesis unfolding AppendLineItemActivity_def by (rule append_tx.run_ok [OF assms(2)])
next
  case (close env r inp a)
  from close(2) show ?thesis unfolding CloseBillActivity_def by (rule close_tx.run_ok [OF assms(2)])
qed (use assms(2) in simp)

lemmas [wf_defs] =
  receiveUpdate_def finishUpdate_def failUpdate_def afterDrain_def set_handler_act_def
  selectorStart_def selectorSignal_def selectorTimer_def Let_def

text \<open>The case analysis of a step: one case per event, its guard and its effect flattened.\<close>

lemma wf_step_cases:
  assumes "wf_step lib ev w s = Some (w', s', rs)"
  obtains
    (create_attempt) env rep a r where "wf_phase w = Creating a" "can_attempt a"
      "CreateBillActivity lib env (wf_bill w) s = (r, s')"
      "w' = w\<lparr>wf_phase := Creating (after_attempt r rep a)\<rparr>" "rs = []"
  | (create_returns) a where "wf_phase w = Creating a" "act_done a"
      "w' = w\<lparr>wf_phase := Serving\<rparr>" "s' = s" "rs = []"
  | (create_gives_up) a e where "wf_phase w = Creating a"
      "w' = w\<lparr>wf_phase := Failed e\<rparr>" "s' = s" "rs = []"
  | (signal_arrives) "\<not> terminal (wf_phase w)"
      "w' = w\<lparr>wf_signals := Suc (wf_signals w)\<rparr>" "s' = s" "rs = []"
  | (selector_start) now where "serving (wf_phase w)" "wf_sel w = SelInit"
      "w' = selectorStart now w" "s' = s" "rs = []"
  | (selector_signal) "serving (wf_phase w)" "wf_sel w = SelWaiting" "0 < wf_signals w"
      "w' = selectorSignal w" "s' = s" "rs = []"
  | (selector_timer) now where "serving (wf_phase w)" "wf_sel w = SelWaiting" "timerFired now w"
      "w' = selectorTimer w" "s' = s" "rs = []"
  | (rejected) inp e where "serving (wf_phase w)" "validateAddLineItem (wf_bill w) inp = Some e"
      "w' = w" "s' = s" "rs = [(inp, Inl e)]"
  | (duplicate) inp where "serving (wf_phase w)" "validateAddLineItem (wf_bill w) inp = None"
      "in_ItemID inp \<in> wf_seen w" "w' = w" "s' = s"
      "rs = [(inp, Inr (addResult (wf_bill w) (in_ItemID inp)))]"
  | (accepted) inp now where "ev = UpdateArrives inp now" "serving (wf_phase w)"
      "validateAddLineItem (wf_bill w) inp = None" "in_ItemID inp \<notin> wf_seen w"
      "w' = w\<lparr>wf_handlers := wf_handlers w @
         [\<lparr>h_in = inp, h_item = newItem now inp, h_act = act_new\<rparr>]\<rparr>" "s' = s" "rs = []"
  | (append_attempt) k env rep h r where "serving (wf_phase w)" "k < length (wf_handlers w)"
      "h = wf_handlers w ! k" "can_attempt (h_act h)"
      "AppendLineItemActivity lib env (appendInput (wf_bill w) (h_in h) (h_item h)) s = (r, s')"
      "w' = w\<lparr>wf_handlers := (wf_handlers w)[k := h\<lparr>h_act := after_attempt r rep (h_act h)\<rparr>]\<rparr>"
      "rs = []"
  | (append_returns) k h where "serving (wf_phase w)" "k < length (wf_handlers w)"
      "h = wf_handlers w ! k" "act_done (h_act h)"
      "w' = w\<lparr>wf_bill := applyItem (h_in h) (wf_bill w),
         wf_seen := insert (in_ItemID (h_in h)) (wf_seen w),
         wf_handlers := take k (wf_handlers w) @ drop (Suc k) (wf_handlers w)\<rparr>" "s' = s"
      "rs = [(h_in h, Inr (addResult (applyItem (h_in h) (wf_bill w)) (in_ItemID (h_in h))))]"
  | (append_gives_up) k h elapsed where "ev = AppendGivesUp k elapsed" "serving (wf_phase w)"
      "k < length (wf_handlers w)" "h = wf_handlers w ! k" "gave_up elapsed (h_act h)"
      "w' = w\<lparr>wf_handlers := take k (wf_handlers w) @ drop (Suc k) (wf_handlers w)\<rparr>" "s' = s"
      "rs = [(h_in h, Inl (Wrap ''persist line item'' ActivityError))]"
  | (await_returns) "wf_phase w = Serving" "closeOrThreshold w"
      "w' = w\<lparr>wf_phase := Draining (wf_reason w)\<rparr>" "s' = s" "rs = []"
  | (rolls_over) ids where "wf_phase w = Draining CloseReasonNone" "wf_handlers w = []"
      "distinct ids" "set ids = wf_seen w"
      "w' = w\<lparr>wf_phase := Continued (continueAsNew (wf_input w) (wf_bill w) ids)\<rparr>" "s' = s" "rs = []"
  | (closes) now reason where "wf_phase w = Draining reason" "reason \<noteq> CloseReasonNone"
      "wf_handlers w = []"
      "w' = w\<lparr>wf_bill := closedBill now reason (wf_bill w),
         wf_phase := Closing (closeInput now reason (closedBill now reason (wf_bill w))) act_new\<rparr>"
      "s' = s" "rs = []"
  | (close_attempt) env rep inp a r where "wf_phase w = Closing inp a" "can_attempt a"
      "CloseBillActivity lib env inp s = (r, s')"
      "w' = w\<lparr>wf_phase := Closing inp (after_attempt r rep a)\<rparr>" "rs = []"
  | (close_returns) inp a where "wf_phase w = Closing inp a" "act_done a"
      "w' = w\<lparr>wf_phase := Completed (billResult (cb_CloseReason inp) (wf_bill w))\<rparr>" "s' = s" "rs = []"
  | (close_gives_up) inp a where "wf_phase w = Closing inp a"
      "w' = w\<lparr>wf_phase := Failed ActivityError\<rparr>" "s' = s" "rs = []"
proof (cases ev)
  case (CreateAttempt env rep)
  with assms show ?thesis
    using create_attempt by (auto split: Phase.splits prod.splits option.splits if_splits)
next
  case CreateReturns
  with assms show ?thesis
    using create_returns by (auto split: Phase.splits prod.splits option.splits if_splits)
next
  case (CreateGivesUp d)
  with assms show ?thesis
    using create_gives_up by (auto split: Phase.splits prod.splits option.splits if_splits)
next
  case SignalArrives
  with assms show ?thesis
    using signal_arrives by (auto split: Phase.splits prod.splits option.splits if_splits)
next
  case (SelectorStart now)
  with assms show ?thesis
    using selector_start by (auto split: Phase.splits prod.splits option.splits if_splits)
next
  case SelectorSignal
  with assms show ?thesis
    using selector_signal by (auto split: Phase.splits prod.splits option.splits if_splits)
next
  case (SelectorTimer now)
  with assms show ?thesis
    using selector_timer by (auto split: Phase.splits prod.splits option.splits if_splits)
next
  case (UpdateArrives inp now)
  note up = assms [unfolded this wf_step.simps receiveUpdate_def]
  show ?thesis
  proof (cases "validateAddLineItem (wf_bill w) inp")
    case (Some e)
    with up show ?thesis by (intro rejected [of inp e]) auto
  next
    case None
    show ?thesis
    proof (cases "in_ItemID inp \<in> wf_seen w")
      case True
      with up None show ?thesis by (intro duplicate [of inp]) auto
    next
      case False
      with up None UpdateArrives show ?thesis by (intro accepted [of inp now]) auto
    qed
  qed
next
  case (AppendAttempt k env rep)
  with assms show ?thesis
    using append_attempt by (auto simp: set_handler_act_def Let_def split: Phase.splits prod.splits option.splits if_splits)
next
  case (AppendReturns k)
  with assms show ?thesis
    using append_returns by (auto simp: finishUpdate_def Let_def split: Phase.splits prod.splits option.splits if_splits)
next
  case (AppendGivesUp k d)
  with assms show ?thesis
    using append_gives_up by (auto simp: failUpdate_def split: Phase.splits prod.splits option.splits if_splits)
next
  case AwaitReturns
  with assms show ?thesis
    using await_returns by (auto split: Phase.splits prod.splits option.splits if_splits)
next
  case (DrainReturns now ids)
  with assms show ?thesis
    using rolls_over closes by (auto simp: afterDrain_def Let_def split: Phase.splits prod.splits option.splits if_splits)
next
  case (CloseAttempt env rep)
  with assms show ?thesis
    using close_attempt by (auto split: Phase.splits prod.splits option.splits if_splits)
next
  case CloseReturns
  with assms show ?thesis
    using close_returns by (auto split: Phase.splits prod.splits option.splits if_splits)
next
  case (CloseGivesUp d)
  with assms show ?thesis
    using close_gives_up by (auto split: Phase.splits prod.splits option.splits if_splits)
qed

end
