(* ===== verification/System.thy ===== *)
theory System
  imports Workflow
begin

section \<open>Workflows over one database\<close>

text \<open>
  The service's state: the latest run of every workflow by workflow id, the database with the
  metrics, and the replies update callers have received. Temporal's part is its documented
  behaviour: at most one open run per workflow id (\<open>ExecuteWorkflow\<close> with an id whose run is
  open is refused; with the default reuse policy a closed run can be followed by a new one),
  and a run that continued as new is followed by a run with the handed-off input. Of the close
  signals the finished run had not received, any number may reach the next run.
\<close>

record 'd Sys =
  sys_wfs :: "(string \<times> 'd WF) list"
  sys_store :: "'d Store"
  sys_replies :: "(string \<times> 'd Reply) list"

datatype 'd SysEvent =
    StartWorkflow "'d BillWorkflowInput" gotime
  | RunEvent string "'d Event"
  | NextRun string gotime nat

definition run_of :: "'d Sys \<Rightarrow> string \<Rightarrow> 'd WF option" where
  "run_of \<sigma> wid = map_of (sys_wfs \<sigma>) wid"

definition set_run :: "string \<Rightarrow> 'd WF \<Rightarrow> 'd Sys \<Rightarrow> 'd Sys" where
  "set_run wid w \<sigma> = \<sigma>\<lparr>sys_wfs := AList.update wid w (sys_wfs \<sigma>)\<rparr>"

lemma run_of_set_run [simp]: "run_of (set_run wid w \<sigma>) = (run_of \<sigma>)(wid \<mapsto> w)"
  by (simp add: run_of_def set_run_def update_conv' fun_eq_iff)

lemma set_run_frame [simp]:
  "sys_store (set_run wid w \<sigma>) = sys_store \<sigma>" "sys_replies (set_run wid w \<sigma>) = sys_replies \<sigma>"
  "run_of (\<sigma>\<lparr>sys_store := s, sys_replies := rs\<rparr>) = run_of \<sigma>"
  by (simp_all add: set_run_def run_of_def fun_eq_iff)

lemma run_of_mem: "run_of \<sigma> wid = Some w \<Longrightarrow> (wid, w) \<in> set (sys_wfs \<sigma>)"
  by (simp add: run_of_def map_of_SomeD)

text \<open>The workflow id of a bill, and the input \<open>CreateBill\<close> starts a workflow with.\<close>

definition workflowID :: "string \<Rightarrow> string" where
  "workflowID billID = ''bill-'' @ billID"

definition open_run :: "'d WF option \<Rightarrow> bool" where
  "open_run ow = (case ow of
     None \<Rightarrow> False
   | Some w \<Rightarrow> (case wf_phase w of Completed _ \<Rightarrow> False | Failed _ \<Rightarrow> False | _ \<Rightarrow> True))"

definition fresh_input :: "'d BillWorkflowInput \<Rightarrow> bool" where
  "fresh_input inp \<longleftrightarrow> wi_Snapshot inp = None \<and> wi_SeenItemIDs inp = []"

fun sys_step :: "'d lib \<Rightarrow> 'd::{zero,ord,plus} SysEvent \<Rightarrow> 'd Sys \<Rightarrow> 'd Sys option" where
  "sys_step lib (StartWorkflow inp now) \<sigma> =
     enabled (fresh_input inp \<and> \<not> open_run (run_of \<sigma> (workflowID (wi_BillID inp))))
       (set_run (workflowID (wi_BillID inp)) (startRun now 0 inp) \<sigma>)"
| "sys_step lib (RunEvent wid ev) \<sigma> =
     (case run_of \<sigma> wid of
        None \<Rightarrow> None
      | Some w \<Rightarrow>
          (case wf_step lib ev w (sys_store \<sigma>) of
             None \<Rightarrow> None
           | Some (w', s', rs) \<Rightarrow>
               Some ((set_run wid w' \<sigma>)\<lparr>sys_store := s',
                       sys_replies := sys_replies \<sigma> @ map (Pair wid) rs\<rparr>)))"
| "sys_step lib (NextRun wid now n) \<sigma> =
     (case run_of \<sigma> wid of
        None \<Rightarrow> None
      | Some w \<Rightarrow>
          (case wf_phase w of
             Continued inp \<Rightarrow>
               enabled (n \<le> wf_signals w) (set_run wid (startRun now n inp) \<sigma>)
           | _ \<Rightarrow> None))"

fun sys_run :: "'d lib \<Rightarrow> 'd::{zero,ord,plus} SysEvent list \<Rightarrow> 'd Sys \<Rightarrow> 'd Sys option" where
  "sys_run lib [] \<sigma> = Some \<sigma>"
| "sys_run lib (e # es) \<sigma> = (case sys_step lib e \<sigma> of None \<Rightarrow> None | Some \<sigma>' \<Rightarrow> sys_run lib es \<sigma>')"

text \<open>The service before its first bill: the schema holds, clients and currencies are seeded.\<close>

definition sys_init :: "'d::{zero,ord} Sys \<Rightarrow> bool" where
  "sys_init \<sigma> \<longleftrightarrow>
     sys_wfs \<sigma> = [] \<and> sys_replies \<sigma> = [] \<and>
     bills (fst (sys_store \<sigma>)) = [] \<and> line_items (fst (sys_store \<sigma>)) = [] \<and>
     bill_events (fst (sys_store \<sigma>)) = []"

text \<open>
  The states reached through events the guard \<open>G\<close> lets through; \<open>G\<close> is \<open>\<lambda>_ _. True\<close> for
  every execution.
\<close>

inductive reachable :: "'d lib \<Rightarrow> ('d Sys \<Rightarrow> 'd SysEvent \<Rightarrow> bool) \<Rightarrow> 'd::{zero,ord,plus} Sys \<Rightarrow> bool"
  for lib G where
  reach_init: "sys_init \<sigma> \<Longrightarrow> reachable lib G \<sigma>"
| reach_step: "reachable lib G \<sigma> \<Longrightarrow> G \<sigma> e \<Longrightarrow> sys_step lib e \<sigma> = Some \<sigma>' \<Longrightarrow> reachable lib G \<sigma>'"

definition always :: "'d Sys \<Rightarrow> 'd SysEvent \<Rightarrow> bool" where
  "always \<sigma> e = True"

lemma always [simp]: "always \<sigma> e"
  by (simp add: always_def)

lemma reachable_mono:
  "reachable lib G \<sigma> \<Longrightarrow> (\<And>\<sigma> e. G \<sigma> e \<Longrightarrow> H \<sigma> e) \<Longrightarrow> reachable lib H \<sigma>"
  by (induction rule: reachable.induct) (auto intro: reachable.intros)

lemma reachable_run:
  "reachable lib always \<sigma> \<Longrightarrow> sys_run lib es \<sigma> = Some \<sigma>' \<Longrightarrow> reachable lib always \<sigma>'"
proof (induction es arbitrary: \<sigma>)
  case (Cons e es)
  then show ?case
    by (auto split: option.splits) (metis always reach_step)
qed simp

text \<open>A guarded run is decided step by step.\<close>

fun guarded_run ::
  "'d lib \<Rightarrow> ('d Sys \<Rightarrow> 'd SysEvent \<Rightarrow> bool) \<Rightarrow> 'd::{zero,ord,plus} SysEvent list \<Rightarrow> 'd Sys \<Rightarrow> bool" where
  "guarded_run lib G [] \<sigma> = True"
| "guarded_run lib G (e # es) \<sigma> =
     (G \<sigma> e \<and> (case sys_step lib e \<sigma> of None \<Rightarrow> False | Some \<sigma>' \<Rightarrow> guarded_run lib G es \<sigma>'))"

lemma reachable_guarded_run:
  "reachable lib G \<sigma> \<Longrightarrow> guarded_run lib G es \<sigma> \<Longrightarrow> sys_run lib es \<sigma> = Some \<sigma>' \<Longrightarrow>
   reachable lib G \<sigma>'"
  by (induction es arbitrary: \<sigma>) (auto split: option.splits intro: reach_step)

text \<open>Inversion of a step of the service.\<close>

lemma sys_step_cases:
  assumes "sys_step lib e \<sigma> = Some \<sigma>'"
  obtains (started) inp now where "e = StartWorkflow inp now" "fresh_input inp"
      "\<not> open_run (run_of \<sigma> (workflowID (wi_BillID inp)))"
      "\<sigma>' = set_run (workflowID (wi_BillID inp)) (startRun now 0 inp) \<sigma>"
  | (ran) wid ev w w' s' rs where "e = RunEvent wid ev" "run_of \<sigma> wid = Some w"
      "wf_step lib ev w (sys_store \<sigma>) = Some (w', s', rs)"
      "\<sigma>' = (set_run wid w' \<sigma>)\<lparr>sys_store := s',
              sys_replies := sys_replies \<sigma> @ map (Pair wid) rs\<rparr>"
  | (resumed) wid now n w inp where "e = NextRun wid now n" "run_of \<sigma> wid = Some w"
      "wf_phase w = Continued inp"
      "\<sigma>' = set_run wid (startRun now n inp) \<sigma>"
  using assms by (cases e) (auto split: option.splits prod.splits Phase.splits)

lemma sys_step_extends:
  "sys_step lib e \<sigma> = Some \<sigma>' \<Longrightarrow> db_extends (fst (sys_store \<sigma>)) (fst (sys_store \<sigma>'))"
  by (erule sys_step_cases) (auto dest: wf_step_extends)

lemma sys_run_extends:
  "sys_run lib es \<sigma> = Some \<sigma>' \<Longrightarrow> db_extends (fst (sys_store \<sigma>)) (fst (sys_store \<sigma>'))"
  by (induction es arbitrary: \<sigma>)
    (auto split: option.splits dest: sys_step_extends intro: db_extends_trans)

lemma sys_step_db_ok:
  "sys_step lib e \<sigma> = Some \<sigma>' \<Longrightarrow> db_ok (fst (sys_store \<sigma>)) \<Longrightarrow> db_ok (fst (sys_store \<sigma>'))"
  by (erule sys_step_cases) (auto dest: wf_step_db_ok)

lemma reachable_db_ok: "reachable lib G \<sigma> \<Longrightarrow> db_ok (fst (sys_store \<sigma>))"
proof (induction rule: reachable.induct)
  case (reach_init \<sigma>)
  then show ?case by (simp add: sys_init_def db_ok_def)
next
  case (reach_step \<sigma> e \<sigma>')
  from reach_step.hyps(3) reach_step.IH show ?case by (rule sys_step_db_ok)
qed

subsection \<open>Invariants of every run\<close>

text \<open>
  The contract under which a predicate of one workflow and the database holds in every
  reachable state: it holds when a workflow starts, every event of the workflow keeps it, the
  next run inherits it, and what other workflows do to the database does not disturb it.
\<close>

locale run_invariant =
  fixes lib :: "'d::{zero,ord,plus} lib"
    and I :: "string \<Rightarrow> 'd WF \<Rightarrow> 'd DB \<Rightarrow> bool"
  assumes start: "fresh_input inp \<Longrightarrow> I (workflowID (wi_BillID inp)) (startRun now 0 inp) db"
    and step: "I wid w (fst s) \<Longrightarrow> db_ok (fst s) \<Longrightarrow> wf_step lib ev w s = Some (w', s', rs) \<Longrightarrow>
      I wid w' (fst s')"
    and next_run: "I wid w db \<Longrightarrow> wf_phase w = Continued inp \<Longrightarrow> I wid (startRun now n inp) db"
    and stable: "I wid w db \<Longrightarrow> db_extends db db' \<Longrightarrow> I wid w db'"
begin

lemma keeps:
  assumes old: "\<And>wid w. run_of \<sigma> wid = Some w \<Longrightarrow> I wid w (fst (sys_store \<sigma>))"
    and ok: "db_ok (fst (sys_store \<sigma>))" and sys: "sys_step lib e \<sigma> = Some \<sigma>'"
    and w: "run_of \<sigma>' wid = Some w"
  shows "I wid w (fst (sys_store \<sigma>'))"
  using sys
proof (cases rule: sys_step_cases)
  case (started inp now)
  then show ?thesis using w old start by (auto split: if_splits)
next
  case (ran wid' ev w0 w' s' rs)
  show ?thesis
  proof (cases "wid = wid'")
    case True
    with ran w have "w' = w" by simp
    with step [OF old [OF ran(2)] ok ran(3)] ran(4) True show ?thesis by simp
  next
    case False
    with ran w have "I wid w (fst (sys_store \<sigma>))" using old by simp
    then show ?thesis using stable wf_step_extends [OF ran(3)] ran(4) by simp
  qed
next
  case (resumed wid' now n w0 inp)
  from resumed w old next_run [OF old [OF resumed(2)] resumed(3)] show ?thesis
    by (auto split: if_splits)
qed

lemma holds:
  "reachable lib G \<sigma> \<Longrightarrow> run_of \<sigma> wid = Some w \<Longrightarrow> I wid w (fst (sys_store \<sigma>))"
proof (induction arbitrary: wid w rule: reachable.induct)
  case (reach_init \<sigma>)
  then show ?case by (simp add: sys_init_def run_of_def)
next
  case (reach_step \<sigma> e \<sigma>')
  show ?case
    using reach_step.IH reachable_db_ok [OF reach_step.hyps(1)] reach_step.hyps(3) reach_step.prems
    by (rule keeps)
qed

end

end
