(* ===== verification/Endpoints.thy ===== *)
theory Endpoints
  imports Auth Queries Views System
begin

section \<open>The HTTP endpoints (bill/endpoints.go)\<close>

text \<open>
  One definition per endpoint and per helper, in the order of the file. The world an endpoint
  works on is the database with the metrics and the Temporal service. The client of Temporal is
  code outside the repository: its calls are the record \<open>temporal\<close>, a parameter; a call that
  waits (an update's completion, a workflow's result) may leave the world changed in any way. The
  caller's identity is the request's auth data, the registry the result of \<open>getCurrencies\<close>.
\<close>

record ('d, 't) World =
  w_store :: "'d Store"
  w_temporal :: 't

record ('d, 't) temporal =
  tc_ExecuteWorkflow :: "string \<Rightarrow> 'd BillWorkflowInput \<Rightarrow> ('d, 't) World \<Rightarrow> (go_error + unit) \<times> ('d, 't) World"
  tc_UpdateWorkflow :: "string \<Rightarrow> 'd AddLineItemInput \<Rightarrow> ('d, 't) World
     \<Rightarrow> (go_error + (go_error + 'd AddLineItemResult)) \<times> ('d, 't) World"
  tc_SignalWorkflow :: "string \<Rightarrow> ('d, 't) World \<Rightarrow> (go_error + unit) \<times> ('d, 't) World"
  tc_GetWorkflow :: "string \<Rightarrow> ('d, 't) World \<Rightarrow> (go_error + 'd BillResult) \<times> ('d, 't) World"
  tc_QueryWorkflow :: "string \<Rightarrow> ('d, 't) World \<Rightarrow> go_error + (go_error + 'd Bill)"

text \<open>Which reads of a request fail, and how: the bill's row for the summary and for the closed bill, its
  line items, the page of a listing.\<close>

record reads =
  rd_row :: "go_error option"
  rd_closed :: "go_error option"
  rd_items :: "rows_failure option"
  rd_page :: "rows_failure option"

definition world_db :: "('d, 't) World \<Rightarrow> 'd DB" where
  "world_db w = fst (w_store w)"

definition count_metrics :: "Metric list \<Rightarrow> ('d, 't) World \<Rightarrow> ('d, 't) World" where
  "count_metrics ms w = w\<lparr>w_store := (fst (w_store w), ms @ snd (w_store w))\<rparr>"

definition defaultListLimit :: int where
  "defaultListLimit = 50"

definition maxListLimit :: int where
  "maxListLimit = 500"

datatype temporalOp = temporalOpAddItem | temporalOpCloseBill

fun op_string :: "temporalOp \<Rightarrow> string" where
  "op_string temporalOpAddItem = ''add item''"
| "op_string temporalOpCloseBill = ''close bill''"

definition bill_not_found :: "string \<Rightarrow> go_error" where
  "bill_not_found i = ErrsError NotFound (''bill '' @ i @ '' not found'')"

subsection \<open>Loading a bill\<close>

definition queryBillState :: "('d, 't) temporal \<Rightarrow> string \<Rightarrow> ('d, 't) World \<Rightarrow> go_error + 'd Bill" where
  "queryBillState tc wid w =
     (case tc_QueryWorkflow tc wid w of
        Inl e \<Rightarrow> Inl e
      | Inr (Inl e) \<Rightarrow> Inl e
      | Inr (Inr b) \<Rightarrow> Inr b)"

definition loadBillSummary ::
  "'d lib \<Rightarrow> ('d, 't) temporal \<Rightarrow> reads \<Rightarrow> string \<Rightarrow> ('d, 't) World \<Rightarrow> go_error + 'd Bill" where
  "loadBillSummary lib tc rd i w =
     (case queryBillState tc (workflowID i) w of
        Inr state \<Rightarrow> Inr state
      | Inl err \<Rightarrow>
          if \<not> errors_Is err ServiceNotFound then Inl (ErrsError Unavailable ''failed to query bill'')
          else (case getBillRowFromDB lib (rd_row rd) i (world_db w) of
             Inr b \<Rightarrow> Inr b
           | Inl dberr \<Rightarrow>
               if errors_Is dberr ErrNoRows then Inl (bill_not_found i)
               else Inl (ErrsError Internal ''failed to load bill'')))"

definition assertOwnsBill ::
  "'d lib \<Rightarrow> ('d, 't) temporal \<Rightarrow> reads \<Rightarrow> AuthData option \<Rightarrow> string \<Rightarrow> ('d, 't) World
     \<Rightarrow> go_error option" where
  "assertOwnsBill lib tc rd data i w =
     (case loadBillSummary lib tc rd i w of
        Inl e \<Rightarrow> Some e
      | Inr b \<Rightarrow> if bill_AccountID b \<noteq> callerAccountID data then Some (bill_not_found i) else None)"

subsection \<open>CreateBill\<close>

record CreateBillRequest =
  cq_Currency :: string
  cq_PeriodStart :: "gotime option"
  cq_PeriodEnd :: "gotime option"
  cq_IdempotencyKey :: string

record CreateBillResponse =
  cp_BillID :: string
  cp_Status :: string
  cp_Currency :: string
  cp_PeriodStart :: "gotime option"
  cp_PeriodEnd :: "gotime option"

definition validatePeriod :: "gotime option \<Rightarrow> gotime option \<Rightarrow> go_error option" where
  "validatePeriod start fin =
     (case (start, fin) of
        (Some s, Some e) \<Rightarrow>
          if \<not> time_After e s then Some (ErrsError InvalidArgument ''periodEnd must be after periodStart'')
          else None
      | _ \<Rightarrow> None)"

text \<open>\<open>fresh\<close> is the random UUID of \<open>uuid.NewString\<close>.\<close>

definition newBillID :: "'d lib \<Rightarrow> string \<Rightarrow> string \<Rightarrow> string \<Rightarrow> string" where
  "newBillID lib fresh accountID idempotencyKey =
     (if idempotencyKey = '''' then fresh
      else uuid_NewSHA1 lib (accountID @ '':'' @ idempotencyKey))"

definition createBillReplayResponse ::
  "'d lib \<Rightarrow> ('d, 't) temporal \<Rightarrow> reads \<Rightarrow> string \<Rightarrow> Currency \<Rightarrow> CreateBillRequest \<Rightarrow> ('d, 't) World
     \<Rightarrow> CreateBillResponse" where
  "createBillReplayResponse lib tc rd billID currency req w =
     (case loadBillSummary lib tc rd billID w of
        Inr state \<Rightarrow>
          \<lparr>cp_BillID = bill_ID state, cp_Status = status_string (bill_Status state),
           cp_Currency = bill_Currency state, cp_PeriodStart = bill_PeriodStart state,
           cp_PeriodEnd = bill_PeriodEnd state\<rparr>
      | Inl _ \<Rightarrow>
          \<lparr>cp_BillID = billID, cp_Status = status_string BillStatusOpen, cp_Currency = currency,
           cp_PeriodStart = cq_PeriodStart req, cp_PeriodEnd = cq_PeriodEnd req\<rparr>)"

definition createInput :: "string \<Rightarrow> string \<Rightarrow> CreateBillRequest \<Rightarrow> 'd BillWorkflowInput" where
  "createInput billID accountID req =
     \<lparr>wi_BillID = billID, wi_AccountID = accountID, wi_Currency = cq_Currency req,
      wi_PeriodStart = cq_PeriodStart req, wi_PeriodEnd = cq_PeriodEnd req, wi_Snapshot = None,
      wi_SeenItemIDs = []\<rparr>"

definition CreateBill ::
  "'d lib \<Rightarrow> ('d, 't) temporal \<Rightarrow> reads \<Rightarrow> registry \<Rightarrow> AuthData option \<Rightarrow> string \<Rightarrow> CreateBillRequest
     \<Rightarrow> ('d, 't) World \<Rightarrow> (go_error + CreateBillResponse) \<times> ('d, 't) World" where
  "CreateBill lib tc rd reg data fresh req w =
     (if \<not> Currency_Valid reg (cq_Currency req)
      then (Inl (ErrsError InvalidArgument (''invalid currency: '' @ cq_Currency req)), w)
      else (case validatePeriod (cq_PeriodStart req) (cq_PeriodEnd req) of
         Some e \<Rightarrow> (Inl e, w)
       | None \<Rightarrow>
           (let accountID = callerAccountID data;
                billID = newBillID lib fresh accountID (cq_IdempotencyKey req)
            in (case tc_ExecuteWorkflow tc (workflowID billID) (createInput billID accountID req) w of
               (Inl err, w') \<Rightarrow>
                 if errors_Is err WorkflowExecutionAlreadyStarted
                 then (Inr (createBillReplayResponse lib tc rd billID (cq_Currency req) req w'), w')
                 else (Inl (ErrsError Unavailable (''failed to start bill workflow: '' @ err_Error lib err)), w')
             | (Inr _, w') \<Rightarrow>
                 (Inr \<lparr>cp_BillID = billID, cp_Status = status_string BillStatusOpen,
                    cp_Currency = cq_Currency req, cp_PeriodStart = cq_PeriodStart req,
                    cp_PeriodEnd = cq_PeriodEnd req\<rparr>, w')))))"

subsection \<open>AddLineItem\<close>

record AddLineItemRequest =
  aq_IdempotencyKey :: string
  aq_Description :: string
  aq_Amount :: string
  aq_Currency :: string

record AddLineItemResponse =
  ar_ItemID :: string
  ar_BillTotal :: string
  ar_ItemCount :: int

definition mapTemporalRPCError :: "go_error \<Rightarrow> temporalOp \<Rightarrow> go_error" where
  "mapTemporalRPCError err op =
     (if errors_Is err ServiceNotFound
      then ErrsError NotFound (''cannot '' @ op_string op @ '': bill not found or already closed'')
      else if errors_Is err ContextCanceled
      then ErrsError Canceled (''cannot '' @ op_string op @ '': request canceled'')
      else if errors_Is err ContextDeadlineExceeded
      then ErrsError DeadlineExceeded (''cannot '' @ op_string op @ '': deadline exceeded'')
      else ErrsError Unavailable (''cannot '' @ op_string op @ '': service unavailable''))"

text \<open>The error an update's outcome becomes, with the counters it increments, latest first.\<close>

definition classifyUpdateError :: "go_error \<Rightarrow> go_error \<times> Metric list" where
  "classifyUpdateError err =
     (case errors_find is_ApplicationError err of
        Some (ApplicationError typ msg) \<Rightarrow>
          (ErrsError (if typ = billNotFoundErrType then NotFound
             else if typ = currencyMismatchErrType then FailedPrecondition else InvalidArgument) msg,
           [LineItemsAdded ''rejected'', ValidatorRejection (if typ = '''' then ''InvalidInput'' else typ)])
      | _ \<Rightarrow>
          (if errors_Is err TimeoutError then ErrsError DeadlineExceeded ''add item timed out''
           else if errors_Is err CanceledError then ErrsError Canceled ''add item canceled''
           else ErrsError Internal ''failed to add item'', []))"

definition itemInput :: "string \<Rightarrow> 'd \<Rightarrow> AuthData option \<Rightarrow> AddLineItemRequest \<Rightarrow> 'd AddLineItemInput" where
  "itemInput itemID amount data req =
     \<lparr>in_ItemID = itemID, in_Description = aq_Description req, in_Amount = amount,
      in_Currency = aq_Currency req, in_CallerAccountID = callerAccountID data\<rparr>"

definition AddLineItem ::
  "'d lib \<Rightarrow> ('d::{zero,ord}, 't) temporal \<Rightarrow> registry \<Rightarrow> AuthData option \<Rightarrow> string \<Rightarrow> string
     \<Rightarrow> AddLineItemRequest \<Rightarrow> ('d, 't) World \<Rightarrow> (go_error + AddLineItemResponse) \<times> ('d, 't) World" where
  "AddLineItem lib tc reg data fresh i req w =
     (if aq_Description req = '''' then (Inl (ErrsError InvalidArgument ''description is required''), w)
      else (case parseAmount lib (aq_Amount req) of
         Inl e \<Rightarrow> (Inl e, w)
       | Inr amount \<Rightarrow>
           if \<not> Currency_Valid reg (aq_Currency req)
           then (Inl (ErrsError InvalidArgument (''invalid currency: '' @ aq_Currency req)), w)
           else
             (let itemID = (if aq_IdempotencyKey req = '''' then fresh else aq_IdempotencyKey req) in
              case tc_UpdateWorkflow tc (workflowID i) (itemInput itemID amount data req) w of
                (Inl err, w') \<Rightarrow> (Inl (mapTemporalRPCError err temporalOpAddItem), w')
              | (Inr (Inl err), w') \<Rightarrow>
                  (let (e, ms) = classifyUpdateError err in (Inl e, count_metrics ms w'))
              | (Inr (Inr result), w') \<Rightarrow>
                  (Inr \<lparr>ar_ItemID = res_ItemID result, ar_BillTotal = dec_String lib (res_BillTotal result),
                     ar_ItemCount = res_ItemCount result\<rparr>, w'))))"

subsection \<open>CloseBill\<close>

record CloseBillResponse =
  cr_BillID :: string
  cr_Status :: string
  cr_TotalAmount :: string
  cr_Currency :: string
  cr_LineItems :: "LineItemView list"
  cr_ClosedAt :: "string option"
  cr_CloseReason :: CloseReason

definition closeBillFromDB ::
  "'d lib \<Rightarrow> reads \<Rightarrow> string \<Rightarrow> ('d, 't) World \<Rightarrow> go_error + CloseBillResponse" where
  "closeBillFromDB lib rd i w =
     (case getBillRowFromDB lib (rd_closed rd) i (world_db w) of
        Inl err \<Rightarrow>
          if errors_Is err ErrNoRows then Inl (bill_not_found i)
          else Inl (ErrsError Internal ''failed to retrieve closed bill'')
      | Inr b \<Rightarrow>
          (case fetchLineItems lib (rd_items rd) i (world_db w) of
             Inl _ \<Rightarrow> Inl (ErrsError Internal ''failed to retrieve closed bill items'')
           | Inr items \<Rightarrow>
               Inr \<lparr>cr_BillID = bill_ID b, cr_Status = status_string (bill_Status b),
                 cr_TotalAmount = dec_String lib (bill_TotalAmount b), cr_Currency = bill_Currency b,
                 cr_LineItems = toLineItemViews lib items,
                 cr_ClosedAt = map_option FormatRFC3339Nano (bill_ClosedAt b),
                 cr_CloseReason = bill_CloseReason b\<rparr>))"

definition CloseBill ::
  "'d lib \<Rightarrow> ('d, 't) temporal \<Rightarrow> reads \<Rightarrow> AuthData option \<Rightarrow> string \<Rightarrow> ('d, 't) World
     \<Rightarrow> (go_error + CloseBillResponse) \<times> ('d, 't) World" where
  "CloseBill lib tc rd data i w =
     (case assertOwnsBill lib tc rd data i w of
        Some e \<Rightarrow> (Inl e, w)
      | None \<Rightarrow>
          (case tc_SignalWorkflow tc (workflowID i) w of
             (Inl err, w') \<Rightarrow>
               if errors_Is err ServiceNotFound then (closeBillFromDB lib rd i w', w')
               else (Inl (mapTemporalRPCError err temporalOpCloseBill), w')
           | (Inr _, w') \<Rightarrow>
               (case tc_GetWorkflow tc (workflowID i) w' of
                  (Inl _, w'') \<Rightarrow> (Inl (ErrsError Internal ''failed to close bill''), w'')
                | (Inr _, w'') \<Rightarrow> (closeBillFromDB lib rd i w'', w''))))"

subsection \<open>GetBill\<close>

record GetBillResponse =
  gr_Bill :: BillView

definition GetBill ::
  "'d lib \<Rightarrow> ('d, 't) temporal \<Rightarrow> reads \<Rightarrow> AuthData option \<Rightarrow> string \<Rightarrow> ('d, 't) World
     \<Rightarrow> go_error + GetBillResponse" where
  "GetBill lib tc rd data i w =
     (case loadBillSummary lib tc rd i w of
        Inl e \<Rightarrow> Inl e
      | Inr summary \<Rightarrow>
          if bill_AccountID summary \<noteq> callerAccountID data then Inl (bill_not_found i)
          else (case fetchLineItems lib (rd_items rd) i (world_db w) of
             Inl _ \<Rightarrow> Inl (ErrsError Internal ''failed to load line items'')
           | Inr items \<Rightarrow>
               Inr \<lparr>gr_Bill = toBillView lib (summary\<lparr>bill_LineItems := Some items\<rparr>)\<rparr>))"

subsection \<open>Listings\<close>

record ListLineItemsRequest =
  lq_Cursor :: string
  lq_Limit :: int

record ListLineItemsResponse =
  lp_Items :: "LineItemView list"
  lp_NextCursor :: string
  lp_Limit :: int

record ListBillEventsRequest =
  eq_Cursor :: string
  eq_Limit :: int

record ListBillEventsResponse =
  ep_Events :: "BillEvent list"
  ep_NextCursor :: string
  ep_Limit :: int

record ListBillsRequest =
  bq_Status :: string
  bq_Cursor :: string
  bq_Limit :: int

record ListBillsResponse =
  bp_Bills :: "BillView list"
  bp_NextCursor :: string
  bp_Limit :: int

text \<open>
  The limit of a page from the request's; an absent request asks for the default. Requests are
  pointers, \<open>None\<close> is nil.
\<close>

definition pageLimit :: "int option \<Rightarrow> go_error + int" where
  "pageLimit req =
     (case req of
        Some n \<Rightarrow>
          if n < 0 then Inl (ErrsError InvalidArgument ''limit must be non-negative'')
          else Inr (min (if 0 < n then n else defaultListLimit) maxListLimit)
      | None \<Rightarrow> Inr (min defaultListLimit maxListLimit))"

text \<open>The page cut off at the limit, and the cursor of its last row if there is more.\<close>

definition cut_page :: "int \<Rightarrow> ('r \<Rightarrow> string) \<Rightarrow> 'r list \<Rightarrow> 'r list \<times> string" where
  "cut_page limit cursor rs =
     (if limit < int (length rs) then (take (nat limit) rs, cursor (rs ! nat (limit - 1))) else (rs, ''''))"

text \<open>The positions that the requests name; ListBillEvents has the same check inline.\<close>

definition decodeLineItemCursor ::
  "(string \<Rightarrow> gotime option) \<Rightarrow> ListLineItemsRequest option \<Rightarrow> go_error + (gotime \<times> string)" where
  "decodeLineItemCursor slow req = decodeCursor slow (map_option lq_Cursor req)"

definition decodeBillCursor ::
  "(string \<Rightarrow> gotime option) \<Rightarrow> ListBillsRequest option \<Rightarrow> go_error + (gotime \<times> string)" where
  "decodeBillCursor slow req = decodeCursor slow (map_option bq_Cursor req)"

declare decodeLineItemCursor_def [simp] decodeBillCursor_def [simp]

definition ListLineItems ::
  "'d lib \<Rightarrow> ('d, 't) temporal \<Rightarrow> reads \<Rightarrow> (string \<Rightarrow> gotime option) \<Rightarrow> AuthData option \<Rightarrow> string
     \<Rightarrow> ListLineItemsRequest option \<Rightarrow> ('d, 't) World \<Rightarrow> go_error + ListLineItemsResponse" where
  "ListLineItems lib tc rd slow data i req w =
     (case assertOwnsBill lib tc rd data i w of
        Some e \<Rightarrow> Inl e
      | None \<Rightarrow>
          (case pageLimit (map_option lq_Limit req) of
             Inl e \<Rightarrow> Inl e
           | Inr limit \<Rightarrow>
               (case decodeLineItemCursor slow req of
                  Inl e \<Rightarrow> Inl e
                | Inr (ts, cid) \<Rightarrow>
                    (case rows_of (rd_page rd) (queryItemsPage lib i ts cid (nat (limit + 1)) (world_db w)) of
                       Inl (QueryFails _) \<Rightarrow> Inl (ErrsError Internal ''failed to list line items'')
                     | Inl (ScanFails _) \<Rightarrow> Inl (ErrsError Internal ''failed to scan line item'')
                     | Inl (IterFails e) \<Rightarrow>
                         Inl (ErrsError Internal (''iterating line items: '' @ err_Error lib e))
                     | Inr rows \<Rightarrow>
                         (let (items, next) = cut_page limit
                                (\<lambda>it. encodeLineItemCursor (li_CreatedAt it) (li_ID it)) (map scan_item rows)
                          in Inr \<lparr>lp_Items = toLineItemViews lib items, lp_NextCursor = next,
                               lp_Limit = limit\<rparr>)))))"

definition ListBillEvents ::
  "'d lib \<Rightarrow> ('d, 't) temporal \<Rightarrow> reads \<Rightarrow> (string \<Rightarrow> gotime option) \<Rightarrow> AuthData option \<Rightarrow> string
     \<Rightarrow> ListBillEventsRequest option \<Rightarrow> ('d, 't) World \<Rightarrow> go_error + ListBillEventsResponse" where
  "ListBillEvents lib tc rd slow data i req w =
     (case assertOwnsBill lib tc rd data i w of
        Some e \<Rightarrow> Inl e
      | None \<Rightarrow>
          (case pageLimit (map_option eq_Limit req) of
             Inl e \<Rightarrow> Inl e
           | Inr limit \<Rightarrow>
               (case decodeCursor slow (map_option eq_Cursor req) of
                  Inl e \<Rightarrow> Inl e
                | Inr (ts, cid) \<Rightarrow>
                    (case rows_of (rd_page rd) (queryEventsPage lib i ts cid (nat (limit + 1)) (world_db w)) of
                       Inl (QueryFails _) \<Rightarrow> Inl (ErrsError Internal ''failed to list bill events'')
                     | Inl (ScanFails _) \<Rightarrow> Inl (ErrsError Internal ''failed to scan bill event'')
                     | Inl (IterFails e) \<Rightarrow>
                         Inl (ErrsError Internal (''iterating bill events: '' @ err_Error lib e))
                     | Inr rows \<Rightarrow>
                         (let (events, next) = cut_page limit
                                (\<lambda>ev. encodeLineItemCursor (ev_CreatedAt ev) (ev_ID ev)) (map scan_event rows)
                          in Inr \<lparr>ep_Events = events, ep_NextCursor = next, ep_Limit = limit\<rparr>)))))"

text \<open>
  \<open>%q\<close>: a Go string literal. Bytes outside ASCII are quoted run by run, by \<open>quote_runes\<close>.
\<close>

definition hex_digit :: "nat \<Rightarrow> char" where
  "hex_digit n = ''0123456789abcdef'' ! n"

definition quote_ascii :: "char \<Rightarrow> string" where
  "quote_ascii c =
     (if c = CHR 0x22 \<or> c = CHR 0x5C then [CHR 0x5C, c]
      else case map_of [(CHR 0x07, CHR ''a''), (CHR 0x08, CHR ''b''), (CHR 0x0C, CHR ''f''),
          (CHR 0x0A, CHR ''n''), (CHR 0x0D, CHR ''r''), (CHR 0x09, CHR ''t''), (CHR 0x0B, CHR ''v'')] c of
        Some e \<Rightarrow> [CHR 0x5C, e]
      | None \<Rightarrow>
          if byte c < 32 \<or> byte c = 127
          then [CHR 0x5C, CHR ''x'', hex_digit (byte c div 16), hex_digit (byte c mod 16)]
          else [c])"

definition quote_run :: "'d lib \<Rightarrow> string \<Rightarrow> string" where
  "quote_run lib run = (if run = [] then [] else quote_runes lib (rev run))"

fun quote_from :: "'d lib \<Rightarrow> string \<Rightarrow> string \<Rightarrow> string" where
  "quote_from lib run [] = quote_run lib run"
| "quote_from lib run (c # cs) =
     (if byte c < 128 then quote_run lib run @ quote_ascii c @ quote_from lib [] cs
      else quote_from lib (c # run) cs)"

definition quote :: "'d lib \<Rightarrow> string \<Rightarrow> string" where
  "quote lib s = [CHR 0x22] @ quote_from lib [] s @ [CHR 0x22]"

definition normalizeListStatus :: "'d lib \<Rightarrow> ListBillsRequest option \<Rightarrow> go_error + string" where
  "normalizeListStatus lib req =
     (case req of
        None \<Rightarrow> Inr ''''
      | Some r \<Rightarrow>
          if bq_Status r = '''' then Inr ''''
          else if bq_Status r = status_string BillStatusOpen \<or> bq_Status r = status_string BillStatusClosed
          then Inr (bq_Status r)
          else Inl (ErrsError InvalidArgument
             (''status must be OPEN or CLOSED (got '' @ quote lib (bq_Status r) @ '')'')))"

definition ListBills ::
  "'d lib \<Rightarrow> reads \<Rightarrow> (string \<Rightarrow> gotime option) \<Rightarrow> AuthData option
     \<Rightarrow> ListBillsRequest option \<Rightarrow> ('d, 't) World \<Rightarrow> go_error + ListBillsResponse" where
  "ListBills lib rd slow data req w =
     (case pageLimit (map_option bq_Limit req) of
        Inl e \<Rightarrow> Inl e
      | Inr limit \<Rightarrow>
          (case normalizeListStatus lib req of
             Inl e \<Rightarrow> Inl e
           | Inr status \<Rightarrow>
               (case decodeBillCursor slow req of
                  Inl e \<Rightarrow> Inl e
                | Inr (ts, cid) \<Rightarrow>
                    (case rows_of (rd_page rd) (queryBillsPage lib (callerAccountID data) status ts cid
                            (nat (limit + 1)) (world_db w)) of
                       Inl (QueryFails _) \<Rightarrow> Inl (ErrsError Internal ''failed to list bills'')
                     | Inl (ScanFails _) \<Rightarrow> Inl (ErrsError Internal ''failed to scan bill'')
                     | Inl (IterFails e) \<Rightarrow>
                         Inl (ErrsError Internal (''iterating bills: '' @ err_Error lib e))
                     | Inr rows \<Rightarrow>
                         (let (bs, next) = cut_page limit
                                (\<lambda>b. encodeBillCursor (bill_CreatedAt b) (bill_ID b)) (map scanBillRow rows)
                          in Inr \<lparr>bp_Bills = map (toBillView lib) bs, bp_NextCursor = next,
                               bp_Limit = limit\<rparr>)))))"

end
