(* ===== verification/Access.thy ===== *)
theory Access
  imports Endpoints
begin

section \<open>What the endpoints let a caller see and do\<close>

text \<open>
  Ownership (a bill of another account is answered as one that does not exist), authorization
  of the mutating endpoints, the checks made before Temporal is called, and the codes errors
  become.
\<close>

subsection \<open>Ownership\<close>

text \<open>The caller does not own the bill, or there is none.\<close>

definition not_the_callers ::
  "'d lib \<Rightarrow> ('d, 't) temporal \<Rightarrow> reads \<Rightarrow> AuthData option \<Rightarrow> string \<Rightarrow> ('d, 't) World \<Rightarrow> bool" where
  "not_the_callers lib tc rd data i w \<longleftrightarrow>
     (case loadBillSummary lib tc rd i w of
        Inl e \<Rightarrow> e = bill_not_found i
      | Inr b \<Rightarrow> bill_AccountID b \<noteq> callerAccountID data)"

lemma assertOwnsBill_hidden:
  "not_the_callers lib tc rd data i w \<Longrightarrow> assertOwnsBill lib tc rd data i w = Some (bill_not_found i)"
  by (auto simp: not_the_callers_def assertOwnsBill_def split: sum.splits)

lemma assertOwnsBill_None:
  "assertOwnsBill lib tc rd data i w = None \<longleftrightarrow>
     (\<exists>b. loadBillSummary lib tc rd i w = Inr b \<and> bill_AccountID b = callerAccountID data)"
  by (auto simp: assertOwnsBill_def split: sum.splits)

lemma assertOwnsBill_Some:
  "assertOwnsBill lib tc rd data i w = Some e \<Longrightarrow> \<exists>c m. e = ErrsError c m"
  by (auto simp: assertOwnsBill_def loadBillSummary_def bill_not_found_def split: sum.splits if_splits)

lemma hidden_bill:
  assumes "not_the_callers lib tc rd data i w"
  shows "GetBill lib tc rd data i w = Inl (bill_not_found i)"
    "CloseBill lib tc rd data i w = (Inl (bill_not_found i), w)"
    "ListLineItems lib tc rd slow data i req w = Inl (bill_not_found i)"
    "ListBillEvents lib tc rd slow data i req' w = Inl (bill_not_found i)"
proof -
  note own = assertOwnsBill_hidden [OF assms]
  show "GetBill lib tc rd data i w = Inl (bill_not_found i)"
    using assms by (auto simp: not_the_callers_def GetBill_def split: sum.splits)
  show "CloseBill lib tc rd data i w = (Inl (bill_not_found i), w)"
    "ListLineItems lib tc rd slow data i req w = Inl (bill_not_found i)"
    "ListBillEvents lib tc rd slow data i req' w = Inl (bill_not_found i)"
    by (simp_all add: CloseBill_def ListLineItems_def ListBillEvents_def own)
qed

lemma GetBill_owner:
  "GetBill lib tc rd data i w = Inr r \<Longrightarrow> bv_AccountID (gr_Bill r) = callerAccountID data"
  by (auto simp: GetBill_def toBillView_def split: sum.splits if_splits)

text \<open>A listing of bills holds bills of the caller only.\<close>

lemma rows_of_Inr: "rows_of f r = Inr rs \<longleftrightarrow> f = None \<and> r = Inr rs"
  by (auto simp: rows_of_def split: option.splits sum.splits)

lemma set_cut_page: "cut_page limit c rs = (xs, n) \<Longrightarrow> set xs \<subseteq> set rs"
  by (auto simp: cut_page_def split: if_splits dest: in_set_takeD)

lemma length_cut_page: "0 \<le> limit \<Longrightarrow> cut_page limit c rs = (xs, n) \<Longrightarrow> int (length xs) \<le> limit"
  by (auto simp: cut_page_def split: if_splits)

lemma queryBillsPage_rows:
  "queryBillsPage lib acct status ts cid n db = Inr rs \<Longrightarrow> r \<in> set rs \<Longrightarrow>
   r \<in> set (bills db) \<and> br_account_id r = acct \<and> (status = '''' \<or> status_string (br_status r) = status)"
  by (auto simp: queryBillsPage_def split: sum.splits dest!: subsetD [OF set_page(2)])

lemma normalizeListStatus_Inr:
  "normalizeListStatus lib req = Inr s \<Longrightarrow>
   s = (case req of None \<Rightarrow> '''' | Some r \<Rightarrow> bq_Status r) \<and> (s = '''' \<or> s = ''OPEN'' \<or> s = ''CLOSED'')"
  by (auto simp: normalizeListStatus_def split: option.splits if_splits)

lemma ListBills_rows:
  assumes "ListBills lib rd slow data req w = Inr resp" "v \<in> set (bp_Bills resp)"
  shows "bv_AccountID v = callerAccountID data"
    "\<exists>r\<in>set (bills (world_db w)). v = toBillView lib (scanBillRow r)"
    "(case req of None \<Rightarrow> True | Some q \<Rightarrow> bq_Status q = '''' \<or> status_string (bv_Status v) = bq_Status q)"
proof -
  obtain limit status ts cid rows bs n where
    st: "normalizeListStatus lib req = Inr status"
    and rows: "queryBillsPage lib (callerAccountID data) status ts cid (nat (limit + 1)) (world_db w) = Inr rows"
    and cut: "cut_page limit (\<lambda>b. encodeBillCursor (bill_CreatedAt b) (bill_ID b)) (map scanBillRow rows) = (bs, n)"
    and resp: "bp_Bills resp = map (toBillView lib) bs"
    using assms(1) by (auto simp: ListBills_def rows_of_Inr split: sum.splits prod.splits rows_failure.splits)
  from assms(2) resp set_cut_page [OF cut] obtain r where r: "r \<in> set rows" "v = toBillView lib (scanBillRow r)"
    by auto
  from queryBillsPage_rows [OF rows r(1)] r(2) normalizeListStatus_Inr [OF st]
  show "bv_AccountID v = callerAccountID data"
    "\<exists>r\<in>set (bills (world_db w)). v = toBillView lib (scanBillRow r)"
    "(case req of None \<Rightarrow> True | Some q \<Rightarrow> bq_Status q = '''' \<or> status_string (bv_Status v) = bq_Status q)"
    by (auto simp: toBillView_def scanBillRow_def split: option.splits)
qed

subsection \<open>Authorization\<close>

definition may_mutate :: "AuthData option \<Rightarrow> bool" where
  "may_mutate data \<longleftrightarrow> (case data of None \<Rightarrow> False | Some d \<Rightarrow> ad_Status d = ClientStatusActive)"

lemma blocked_unchanged:
  "\<not> may_mutate data \<Longrightarrow>
   RequireActiveCaller data next w =
     (Inl (case data of
        None \<Rightarrow> ErrsError Unauthenticated ''missing caller identity''
      | Some _ \<Rightarrow> ErrsError PermissionDenied ''account not permitted to perform this operation''), w)"
  by (auto simp: may_mutate_def RequireActiveCaller_def assertActiveCaller_def split: option.splits)

lemma active_passes: "may_mutate data \<Longrightarrow> RequireActiveCaller data next w = next w"
  by (auto simp: may_mutate_def RequireActiveCaller_def assertActiveCaller_def split: option.splits)

subsection \<open>Checks before Temporal is called\<close>

definition valid_item_request :: "'d lib \<Rightarrow> registry \<Rightarrow> AddLineItemRequest \<Rightarrow> 'd::{zero,ord} \<Rightarrow> bool" where
  "valid_item_request lib reg req amount \<longleftrightarrow>
     aq_Description req \<noteq> '''' \<and> dec_NewFromString lib (aq_Amount req) = Some amount \<and>
     aq_Amount req \<noteq> '''' \<and> 0 < amount \<and> Currency_Valid reg (aq_Currency req)"

lemma AddLineItem_invalid:
  assumes "\<nexists>a. valid_item_request lib reg req a"
  shows "\<exists>m. AddLineItem lib tc reg data fresh i req w = (Inl (ErrsError InvalidArgument m), w)"
proof (cases "aq_Description req = ''''")
  case True
  then show ?thesis by (simp add: AddLineItem_def)
next
  case False
  show ?thesis
  proof (cases "parseAmount lib (aq_Amount req)")
    case (Inl e)
    with False parseAmount_Inl [OF Inl] show ?thesis by (auto simp: AddLineItem_def)
  next
    case (Inr a)
    then have "\<not> Currency_Valid reg (aq_Currency req)"
      using assms False by (auto simp: valid_item_request_def parseAmount_Inr)
    with False Inr show ?thesis by (simp add: AddLineItem_def)
  qed
qed

lemma AddLineItem_valid:
  assumes "valid_item_request lib reg req amount"
  shows "AddLineItem lib tc reg data fresh i req w =
    (case tc_UpdateWorkflow tc (workflowID i)
        (itemInput (if aq_IdempotencyKey req = '''' then fresh else aq_IdempotencyKey req) amount data req) w of
       (Inl err, w') \<Rightarrow> (Inl (mapTemporalRPCError err temporalOpAddItem), w')
     | (Inr (Inl err), w') \<Rightarrow> (Inl (fst (classifyUpdateError err)), count_metrics (snd (classifyUpdateError err)) w')
     | (Inr (Inr result), w') \<Rightarrow>
         (Inr \<lparr>ar_ItemID = res_ItemID result, ar_BillTotal = dec_String lib (res_BillTotal result),
            ar_ItemCount = res_ItemCount result\<rparr>, w'))"
proof -
  have p: "parseAmount lib (aq_Amount req) = Inr amount" "aq_Description req \<noteq> ''''"
    "Currency_Valid reg (aq_Currency req)"
    using assms by (auto simp: valid_item_request_def parseAmount_Inr)
  show ?thesis unfolding AddLineItem_def
    by (simp add: p Let_def split: prod.split sum.split)
qed

definition valid_bill_request :: "registry \<Rightarrow> CreateBillRequest \<Rightarrow> bool" where
  "valid_bill_request reg req \<longleftrightarrow>
     Currency_Valid reg (cq_Currency req) \<and> validatePeriod (cq_PeriodStart req) (cq_PeriodEnd req) = None"

lemma CreateBill_invalid:
  assumes "\<not> valid_bill_request reg req"
  shows "\<exists>m. CreateBill lib tc rd reg data fresh req w = (Inl (ErrsError InvalidArgument m), w)"
  using assms by (auto simp: valid_bill_request_def CreateBill_def validatePeriod_def split: option.splits)

lemma validatePeriod_None:
  "validatePeriod s e = None \<longleftrightarrow> (\<forall>a b. s = Some a \<longrightarrow> e = Some b \<longrightarrow> unix_ns a < unix_ns b)"
  by (auto simp: validatePeriod_def time_After_def split: option.splits)

subsection \<open>Error codes\<close>

definition err_code :: "go_error \<Rightarrow> ErrCode option" where
  "err_code e = (case e of ErrsError c _ \<Rightarrow> Some c | _ \<Rightarrow> None)"

lemma mapTemporalRPCError_code:
  "err_code (mapTemporalRPCError e op) = Some
     (if errors_Is e ServiceNotFound then NotFound else if errors_Is e ContextCanceled then Canceled
      else if errors_Is e ContextDeadlineExceeded then DeadlineExceeded else Unavailable)"
  by (simp add: mapTemporalRPCError_def err_code_def)

lemma find_ApplicationError:
  "errors_find is_ApplicationError e = Some x \<Longrightarrow> \<exists>t m. x = ApplicationError t m"
  using errors_find_sound [of is_ApplicationError e x] by (cases x) auto

lemma classifyUpdateError_code:
  "err_code (fst (classifyUpdateError e)) = Some
     (case errors_find is_ApplicationError e of
        Some (ApplicationError t m) \<Rightarrow>
          (if t = billNotFoundErrType then NotFound else if t = currencyMismatchErrType then FailedPrecondition
           else InvalidArgument)
      | _ \<Rightarrow> if errors_Is e TimeoutError then DeadlineExceeded
             else if errors_Is e CanceledError then Canceled else Internal)"
  by (auto simp: classifyUpdateError_def err_code_def split: option.splits go_error.splits)

end
