(* ===== verification/Pages.thy ===== *)
theory Pages
  imports Access
begin

section \<open>Following the pages of a listing\<close>

text \<open>
  A client that starts with the empty cursor and passes back each \<open>NextCursor\<close> until it is empty.
  Between two of its requests the table may change: \<open>follow_moving\<close> takes one server per request, each
  with the state it meets; \<open>follow\<close> is the client of a table at rest. The order of the listing is that
  of the keys of its rows, \<open>before\<close>: ascending for items and events, descending for bills.
\<close>

fun follow_moving :: "(string \<Rightarrow> go_error + ('v list \<times> string)) list \<Rightarrow> string \<Rightarrow> go_error + 'v list" where
  "follow_moving [] c = Inl (ErrorString ''too many pages'')"
| "follow_moving (f # fs) c =
     (case f c of
        Inl e \<Rightarrow> Inl e
      | Inr (vs, next) \<Rightarrow>
          if next = '''' then Inr vs
          else (case follow_moving fs next of Inl e \<Rightarrow> Inl e | Inr ws \<Rightarrow> Inr (vs @ ws)))"

definition follow :: "nat \<Rightarrow> (string \<Rightarrow> go_error + ('v list \<times> string)) \<Rightarrow> string \<Rightarrow> go_error + 'v list" where
  "follow n f c = follow_moving (replicate n f) c"

definition past :: "('k \<Rightarrow> 'k \<Rightarrow> bool) \<Rightarrow> 'k option \<Rightarrow> 'k \<Rightarrow> bool" where
  "past before pos k \<longleftrightarrow> (case pos of None \<Rightarrow> True | Some p \<Rightarrow> before p k)"

lemma past_simps [simp]: "past before None k" "past before (Some p) k = before p k"
  by (simp_all add: past_def)

text \<open>
  The contract of a page, for a server \<open>f\<close> of the listing \<open>rs\<close>: the cursor of any row that can be
  addressed (it need not be in the listing any more), or the empty cursor, yields the first \<open>limit\<close>
  rows past it, and the cursor of the last of these if more follow.
\<close>

definition serves ::
  "('k \<Rightarrow> 'k \<Rightarrow> bool) \<Rightarrow> ('r \<Rightarrow> 'k) \<Rightarrow> nat \<Rightarrow> ('r \<Rightarrow> string) \<Rightarrow> ('r \<Rightarrow> 'v) \<Rightarrow> ('r \<Rightarrow> bool) \<Rightarrow>
     (string \<Rightarrow> go_error + ('v list \<times> string)) \<Rightarrow> 'r list \<Rightarrow> bool" where
  "serves before key limit cur view ok f rs \<longleftrightarrow>
     (\<forall>start. (\<forall>r\<in>set_option start. ok r) \<longrightarrow>
        f (case start of None \<Rightarrow> '''' | Some r \<Rightarrow> cur r) =
          (let rest = filter (\<lambda>r. past before (map_option key start) (key r)) rs
           in Inr (map view (take limit rest), if limit < length rest then cur (rest ! (limit - 1)) else '''')))"

text \<open>
  What such a client has read, of listings \<open>rss\<close> and from the position \<open>pos\<close>: rows of these listings,
  in order, and a row for every key that is in all of them.
\<close>

definition reads :: "('k \<Rightarrow> 'k \<Rightarrow> bool) \<Rightarrow> ('r \<Rightarrow> 'k) \<Rightarrow> 'r list list \<Rightarrow> 'k option \<Rightarrow> 'r list \<Rightarrow> bool" where
  "reads before key rss pos read \<longleftrightarrow>
     sorted_wrt (\<lambda>x y. before (key x) (key y)) read \<and>
     (\<forall>r\<in>set read. past before pos (key r) \<and> (\<exists>rs\<in>set rss. r \<in> set rs)) \<and>
     (\<forall>k. past before pos k \<and> (\<forall>rs\<in>set rss. k \<in> key ` set rs) \<longrightarrow> k \<in> key ` set read)"

locale listing_order =
  fixes before :: "'k \<Rightarrow> 'k \<Rightarrow> bool"
  assumes irrefl: "\<not> before a a"
    and trans: "before a b \<Longrightarrow> before b c \<Longrightarrow> before a c"
    and total: "a \<noteq> b \<Longrightarrow> before a b \<or> before b a"
begin

lemma asym: "before a b \<Longrightarrow> \<not> before b a"
  using irrefl trans by blast

lemma past_trans: "past before pos a \<Longrightarrow> before a b \<Longrightarrow> past before pos b"
  using trans by (auto simp: past_def split: option.splits)

lemma past_shrinks:
  "past before pos a \<Longrightarrow> a \<in> K \<Longrightarrow> {k \<in> K. past before (Some a) k} \<subset> {k \<in> K. past before pos k}"
  using past_trans irrefl by (intro psubsetI notI) (auto dest!: eqset_imp_iff [where x = a])

lemma strict_unique:
  "sorted_wrt (\<lambda>x y. before (key x) (key y)) xs \<Longrightarrow> sorted_wrt (\<lambda>x y. before (key x) (key y)) ys \<Longrightarrow>
   set xs = set ys \<Longrightarrow> xs = ys"
proof (induction xs arbitrary: ys)
  case (Cons x xs)
  then obtain y ys' where ys: "ys = y # ys'" by (cases ys) auto
  have "x = y \<or> x \<in> set ys'" "y = x \<or> y \<in> set xs" using Cons.prems(3) ys by auto
  then have xy: "x = y" using Cons.prems(1,2) ys asym by auto
  moreover have "x \<notin> set xs" "y \<notin> set ys'" using Cons.prems(1,2) ys irrefl by auto
  ultimately have "set xs = set ys'" using Cons.prems(3) ys by auto
  with Cons ys xy show ?case by simp
qed simp

lemma strict_key_inj:
  "sorted_wrt (\<lambda>x y. before (key x) (key y)) xs \<Longrightarrow> x \<in> set xs \<Longrightarrow> y \<in> set xs \<Longrightarrow> key x = key y \<Longrightarrow> x = y"
  by (induction xs) (auto simp: irrefl dest: asym)

text \<open>A page that is not the last holds the rows up to the one it ends with.\<close>

lemma take_upto:
  assumes "sorted_wrt (\<lambda>x y. before (key x) (key y)) xs" "n < length xs"
  shows "r \<in> set (take (Suc n) xs) \<longleftrightarrow> r \<in> set xs \<and> \<not> before (key (xs ! n)) (key r)"
proof -
  have split: "xs = take n xs @ xs ! n # drop (Suc n) xs" using assms(2) by (rule id_take_nth_drop)
  have "sorted_wrt (\<lambda>x y. before (key x) (key y)) (take n xs @ xs ! n # drop (Suc n) xs)"
    using assms(1) split by simp
  then have "\<forall>x\<in>set (take n xs). \<not> before (key (xs ! n)) (key x)"
    "\<forall>x\<in>set (drop (Suc n) xs). before (key (xs ! n)) (key x)"
    by (auto simp: sorted_wrt_append dest: asym)
  moreover have "set xs = set (take n xs) \<union> {xs ! n} \<union> set (drop (Suc n) xs)"
    using arg_cong [OF split, of set] by simp
  moreover have "set (take (Suc n) xs) = set (take n xs) \<union> {xs ! n}"
    using assms(2) by (simp add: take_Suc_conv_app_nth)
  ultimately show ?thesis using irrefl by auto
qed

lemma reads_last:
  assumes "sorted_wrt (\<lambda>x y. before (key x) (key y)) rs"
  shows "reads before key (rs # rss) pos (filter (\<lambda>r. past before pos (key r)) rs)"
  unfolding reads_def using sorted_wrt_filter [OF assms] by (auto simp: image_iff)

lemma reads_join:
  assumes rs: "sorted_wrt (\<lambda>x y. before (key x) (key y)) rs"
    and rest: "rest = filter (\<lambda>r. past before pos (key r)) rs"
    and page: "0 < limit" "limit < length rest"
    and read: "reads before key rss (Some (key (rest ! (limit - 1)))) read"
  shows "reads before key (rs # rss) pos (take limit rest @ read)"
proof -
  let ?next = "key (rest ! (limit - 1))"
  have strict: "sorted_wrt (\<lambda>x y. before (key x) (key y)) rest" unfolding rest using rs by (rule sorted_wrt_filter)
  have upto: "r \<in> set (take limit rest) \<longleftrightarrow> r \<in> set rest \<and> \<not> before ?next (key r)" for r
    using take_upto [OF strict, of "limit - 1"] page by simp
  have "rest ! (limit - 1) \<in> set rest" using page by simp
  then have next_past: "past before pos ?next" by (simp add: rest)
  have "sorted_wrt (\<lambda>x y. before (key x) (key y)) (take limit rest @ read)"
    unfolding sorted_wrt_append
  proof (intro conjI ballI)
    fix x y assume "x \<in> set (take limit rest)" "y \<in> set read"
    then have "\<not> before ?next (key x)" "before ?next (key y)" using upto read by (auto simp: reads_def)
    then show "before (key x) (key y)" using total [of "key x" ?next] trans by metis
  qed (use strict read in \<open>auto simp: reads_def intro: sorted_wrt_take\<close>)
  moreover have "k \<in> key ` set (take limit rest @ read)"
    if k: "past before pos k" "\<forall>rs\<in>set (rs # rss). k \<in> key ` set rs" for k
  proof (cases "before ?next k")
    case False
    then show ?thesis using k upto by (auto simp: rest image_iff)
  qed (use k read in \<open>auto simp: reads_def\<close>)
  moreover have "past before pos (key r) \<and> (\<exists>rs\<in>set (rs # rss). r \<in> set rs)"
    if "r \<in> set (take limit rest @ read)" for r
  proof -
    from that consider "r \<in> set rest" | "r \<in> set read" by (auto dest: in_set_takeD)
    then show ?thesis
    proof cases
      case 1
      then show ?thesis by (simp add: rest)
    next
      case 2
      with read have "before ?next (key r)" "\<exists>rs\<in>set rss. r \<in> set rs" by (auto simp: reads_def)
      with past_trans [OF next_past] show ?thesis by simp
    qed
  qed
  ultimately show ?thesis by (simp only: reads_def) blast
qed

text \<open>
  The client is done after more requests than there are keys, and has read what \<open>reads\<close> says, as every
  page that is not the last leaves fewer keys past its end.
\<close>

lemma follow_from:
  assumes limit: "0 < limit" and cur: "\<And>r. cur r \<noteq> ''''" and K: "finite K"
    and "list_all2 (serves before key limit cur view ok) fs rss"
    and "\<And>rs. rs \<in> set rss \<Longrightarrow> sorted_wrt (\<lambda>x y. before (key x) (key y)) rs"
    and "\<And>rs r. rs \<in> set rss \<Longrightarrow> r \<in> set rs \<Longrightarrow> ok r \<and> key r \<in> K"
    and "\<forall>r\<in>set_option start. ok r"
    and "card {k \<in> K. past before (map_option key start) k} < length fs"
  shows "\<exists>read. follow_moving fs (case start of None \<Rightarrow> '''' | Some r \<Rightarrow> cur r) = Inr (map view read) \<and>
    reads before key rss (map_option key start) read"
  using assms(4-8)
proof (induction fs rss arbitrary: start rule: list_all2_induct)
  case (Cons f fs rs rss)
  let ?pos = "map_option key start"
  let ?rest = "filter (\<lambda>r. past before ?pos (key r)) rs"
  have page: "f (case start of None \<Rightarrow> '''' | Some r \<Rightarrow> cur r) =
      Inr (map view (take limit ?rest), if limit < length ?rest then cur (?rest ! (limit - 1)) else '''')"
    using Cons.hyps(1) Cons.prems(3) by (simp add: serves_def Let_def)
  have strict: "sorted_wrt (\<lambda>x y. before (key x) (key y)) rs" using Cons.prems(1) by simp
  show ?case
  proof (cases "limit < length ?rest")
    case False
    with page reads_last [OF strict, of rss ?pos] show ?thesis by auto
  next
    case True
    let ?next = "?rest ! (limit - 1)"
    have "?next \<in> set ?rest" using True limit by (intro nth_mem) simp
    then have mem: "?next \<in> set rs" "past before ?pos (key ?next)" by simp_all
    then have next_ok: "ok ?next" "key ?next \<in> K" using Cons.prems(2) by auto
    have "{k \<in> K. past before (Some (key ?next)) k} \<subset> {k \<in> K. past before ?pos k}"
      using mem(2) next_ok(2) by (rule past_shrinks)
    from psubset_card_mono [OF _ this] K Cons.prems(4)
    have fewer: "card {k \<in> K. past before (map_option key (Some ?next)) k} < length fs" by simp
    have "\<exists>read. follow_moving fs (case Some ?next of None \<Rightarrow> '''' | Some r \<Rightarrow> cur r) = Inr (map view read) \<and>
      reads before key rss (map_option key (Some ?next)) read"
    proof (rule Cons.IH)
      show "\<forall>r\<in>set_option (Some ?next). ok r" using next_ok(1) by (simp only: option.set) blast
      show "card {k \<in> K. past before (map_option key (Some ?next)) k} < length fs" by (rule fewer)
    qed (use Cons.prems(1,2) in \<open>meson list.set_intros(2)\<close>)+
    then obtain read where "follow_moving fs (cur ?next) = Inr (map view read)"
      "reads before key rss (Some (key ?next)) read" by (simp only: option.simps) blast
    then have "follow_moving (f # fs) (case start of None \<Rightarrow> '''' | Some r \<Rightarrow> cur r) =
        Inr (map view (take limit ?rest @ read))" "reads before key (rs # rss) ?pos (take limit ?rest @ read)"
      using page True cur reads_join [OF strict refl limit True] by auto
    then show ?thesis by blast
  qed
qed simp

lemma follow_all:
  assumes "serves before key limit cur view ok f rows" "0 < limit" "\<And>r. cur r \<noteq> ''''"
    and strict: "sorted_wrt (\<lambda>x y. before (key x) (key y)) rows" and "\<And>r. r \<in> set rows \<Longrightarrow> ok r"
    and "length rows < n"
  shows "follow n f '''' = Inr (map view rows)"
proof -
  have "\<exists>read. follow_moving (replicate n f) (case None of None \<Rightarrow> '''' | Some r \<Rightarrow> cur r) = Inr (map view read) \<and>
    reads before key (replicate n rows) (map_option key None) read"
    by (rule follow_from [where K = "key ` set rows" and ok = ok])
      (use assms card_image_le [of "set rows" key] card_length [of rows] in \<open>auto simp: list_all2_conv_all_nth\<close>)
  then obtain read where read: "follow n f '''' = Inr (map view read)"
    "reads before key (replicate n rows) None read" by (auto simp: follow_def)
  from read(2) assms(6) have "sorted_wrt (\<lambda>x y. before (key x) (key y)) read" "set read \<subseteq> set rows"
    "key ` set rows \<subseteq> key ` set read" by (auto simp: reads_def)
  moreover from this have "set rows \<subseteq> set read" using strict_key_inj [OF strict] by (auto simp: image_iff subset_iff) metis
  ultimately show ?thesis using strict_unique [OF _ strict] read(1) by blast
qed

end

interpretation oldest_first: listing_order "(<) :: keypos \<Rightarrow> keypos \<Rightarrow> bool"
  by unfold_locales auto

interpretation newest_first: listing_order "(>) :: keypos \<Rightarrow> keypos \<Rightarrow> bool"
  by unfold_locales auto

subsection \<open>Pages of a sorted table\<close>

lemma sort_key_strict:
  assumes "distinct (map key rs)"
  shows "sorted_wrt (\<lambda>x y. key x < (key y :: 'k::linorder)) (sort_key key rs)"
    "sorted_wrt (\<lambda>x y. key y < key x) (rev (sort_key key rs))"
proof -
  have "distinct (map key (sort_key key rs))"
    using assms by (metis distinct_map distinct_sort set_sort)
  then have "sorted_wrt (<) (map key (sort_key key rs))"
    by (simp add: strict_sorted_iff)
  then show "sorted_wrt (\<lambda>x y. key x < key y) (sort_key key rs)"
    by (simp add: sorted_wrt_map)
  then show "sorted_wrt (\<lambda>x y. key y < key x) (rev (sort_key key rs))"
    by (simp add: sorted_wrt_rev)
qed

lemma page_rest:
  "page_asc key pos n rs = take n (filter (\<lambda>r. past (<) pos (key r)) (sort_key key rs))"
  "page_desc key pos n rs = take n (filter (\<lambda>r. past (>) pos (key r)) (rev (sort_key key rs)))"
  by (simp_all add: page_asc_def page_desc_def past_def)

lemma cut_page_take:
  assumes "0 < limit"
  shows "cut_page limit cur (map g (take (nat (limit + 1)) B)) =
    (map g (take (nat limit) B), if nat limit < length B then cur (g (B ! (nat limit - 1))) else '''')"
proof (cases "nat limit < length B")
  case True
  have "nat (limit - 1) = nat limit - 1" "nat limit - 1 < nat (limit + 1)" using assms by auto
  then have "map g (take (nat (limit + 1)) B) ! nat (limit - 1) = g (B ! (nat limit - 1))"
    using True by simp
  moreover have "limit < int (length (map g (take (nat (limit + 1)) B)))" using True assms by auto
  moreover have "take (nat limit) (map g (take (nat (limit + 1)) B)) = map g (take (nat limit) B)"
    using assms by (simp add: take_map min_def)
  ultimately show ?thesis using True by (simp add: cut_page_def)
next
  case False
  then have "\<not> limit < int (length B)" "length B \<le> nat (limit + 1)" using assms by auto
  with False show ?thesis by (simp add: cut_page_def)
qed

lemma pageLimit_Inr:
  "pageLimit req = Inr limit \<Longrightarrow> 0 < limit \<and> limit \<le> maxListLimit \<and>
   (case req of None \<Rightarrow> limit = defaultListLimit
    | Some n \<Rightarrow> 0 \<le> n \<and> limit = (if n = 0 then defaultListLimit else min n maxListLimit))"
  by (auto simp: pageLimit_def defaultListLimit_def maxListLimit_def split: option.splits if_splits)

lemma pageLimit_valid: "0 \<le> n \<Longrightarrow> \<exists>limit. pageLimit (Some n) = Inr limit \<and> 0 < nat limit"
  by (auto simp: pageLimit_def defaultListLimit_def maxListLimit_def)

subsection \<open>The positions of stored rows\<close>

text \<open>
  A stored position can be handed out in a cursor and read back: the id is a canonical UUID, the
  time is one the column holds and RFC 3339 can write.
\<close>

definition addressable :: "'d lib \<Rightarrow> gotime \<Rightarrow> string \<Rightarrow> bool" where
  "addressable lib ts i \<longleftrightarrow>
     i \<noteq> '''' \<and> pg_uuid lib i = Some i \<and> stampable ts \<and> unix_ns (pg_time lib ts) = unix_ns ts"

lemma cursor_pos_addressable:
  "addressable lib ts i \<Longrightarrow> cursor_pos lib ts i = Inr (Some (Keypos (unix_ns ts) i))"
  by (simp add: addressable_def cursor_pos_def)

lemma decode_addressable:
  "addressable lib ts i \<Longrightarrow> decodeCursor slow (Some (encodeLineItemCursor ts i)) = Inr (ts, i)"
  "addressable lib ts i \<Longrightarrow> decodeCursor slow (Some (encodeBillCursor ts i)) = Inr (ts, i)"
  by (simp_all add: addressable_def decodeCursor_encode)

lemma decodeCursor_start [simp]: "decodeCursor slow (Some '''') = Inr (zero_time, '''')"
  by (simp add: decodeCursor_def)

lemma cursor_pos_start [simp]: "cursor_pos lib ts '''' = Inr None"
  by (simp add: cursor_pos_def)

text \<open>The cursor of a row leads to its position, and the empty cursor to the start.\<close>

lemma cursor_position:
  assumes key: "\<And>r. key r = Keypos (unix_ns (at r)) (ident r)"
    and "\<forall>r\<in>set_option start. addressable lib (at r) (ident r)"
  obtains ts cid where
    "decodeCursor slow (Some (case start of None \<Rightarrow> '''' | Some r \<Rightarrow> encodeLineItemCursor (at r) (ident r))) = Inr (ts, cid)"
    "decodeCursor slow (Some (case start of None \<Rightarrow> '''' | Some r \<Rightarrow> encodeBillCursor (at r) (ident r))) = Inr (ts, cid)"
    "cursor_pos lib ts cid = Inr (map_option key start)"
proof (cases start)
  case None
  then show thesis using that by simp
next
  case (Some r)
  with assms(2) have a: "addressable lib (at r) (ident r)" by simp
  show thesis
    using that [of "at r" "ident r"] Some a
    by (simp add: decode_addressable [OF a] cursor_pos_addressable [OF a] key)
qed

subsection \<open>The listings serve pages\<close>

definition items_page where
  "items_page lib tc rd slow data i limit w c =
     map_sum id (\<lambda>r. (lp_Items r, lp_NextCursor r))
       (ListLineItems lib tc rd slow data i (Some \<lparr>lq_Cursor = c, lq_Limit = limit\<rparr>) w)"

definition events_page where
  "events_page lib tc rd slow data i limit w c =
     map_sum id (\<lambda>r. (ep_Events r, ep_NextCursor r))
       (ListBillEvents lib tc rd slow data i (Some \<lparr>eq_Cursor = c, eq_Limit = limit\<rparr>) w)"

definition bills_page where
  "bills_page lib rd slow data status limit w c =
     map_sum id (\<lambda>r. (bp_Bills r, bp_NextCursor r))
       (ListBills lib rd slow data (Some \<lparr>bq_Status = status, bq_Cursor = c, bq_Limit = limit\<rparr>) w)"

lemma item_keys_distinct: "distinct (map lr_id rs) \<Longrightarrow> distinct (map item_key rs)"
  by (induction rs) (auto simp: item_key_def)

lemma event_keys_distinct: "distinct (map er_id rs) \<Longrightarrow> distinct (map event_key rs)"
  by (induction rs) (auto simp: event_key_def)

lemma bill_keys_distinct: "distinct (map br_id rs) \<Longrightarrow> distinct (map bill_key rs)"
  by (induction rs) (auto simp: bill_key_def)

lemma items_serve:
  fixes lib :: "'d lib"
  assumes own: "assertOwnsBill lib tc rd data i w = None" and rd: "rd_page rd = None"
    and u: "pg_uuid lib i = Some u" and lim: "pageLimit (Some n) = Inr limit"
  shows "serves (<) item_key (nat limit) (\<lambda>r. encodeLineItemCursor (lr_created_at r) (lr_id r))
    (toLineItemView lib \<circ> scan_item) (\<lambda>r. addressable lib (lr_created_at r) (lr_id r))
    (items_page lib tc rd slow data i n w) (sort_key item_key (items_of u (world_db w)))"
  unfolding serves_def Let_def
proof (intro allI impI)
  fix start :: "'d ItemRow option"
  let ?cur = "\<lambda>r :: 'd ItemRow. encodeLineItemCursor (lr_created_at r) (lr_id r)"
  let ?c = "case start of None \<Rightarrow> '''' | Some r \<Rightarrow> ?cur r"
  let ?rest = "filter (\<lambda>r. past (<) (map_option item_key start) (item_key r))
    (sort_key item_key (items_of u (world_db w)))"
  assume "\<forall>r\<in>set_option start. addressable lib (lr_created_at r) (lr_id r)"
  then obtain ts cid where c: "decodeCursor slow (Some ?c) = Inr (ts, cid)"
    "cursor_pos lib ts cid = Inr (map_option item_key start)"
    by (rule cursor_position [OF item_key_def])
  have page: "queryItemsPage lib i ts cid (nat (limit + 1)) (world_db w) =
      Inr (take (nat (limit + 1)) ?rest)"
    by (simp add: queryItemsPage_def u c(2) page_rest)
  have "0 < limit" using pageLimit_Inr [OF lim] by simp
  then show "items_page lib tc rd slow data i n w ?c =
      Inr (map (toLineItemView lib \<circ> scan_item) (take (nat limit) ?rest),
        if nat limit < length ?rest then ?cur (?rest ! (nat limit - 1)) else '''')"
    by (simp add: items_page_def ListLineItems_def own lim toLineItemViews_def c(1) page rows_of_def rd cut_page_take)
      (simp add: scan_item_def)
qed

lemma events_serve:
  fixes lib :: "'d lib"
  assumes own: "assertOwnsBill lib tc rd data i w = None" and rd: "rd_page rd = None"
    and u: "pg_uuid lib i = Some u" and lim: "pageLimit (Some n) = Inr limit"
  shows "serves (<) event_key (nat limit) (\<lambda>r. encodeLineItemCursor (er_created_at r) (er_id r))
    scan_event (\<lambda>r. addressable lib (er_created_at r) (er_id r))
    (events_page lib tc rd slow data i n w) (sort_key event_key (events_of u (world_db w)))"
  unfolding serves_def Let_def
proof (intro allI impI)
  fix start :: "EventRow option"
  let ?cur = "\<lambda>r :: EventRow. encodeLineItemCursor (er_created_at r) (er_id r)"
  let ?c = "case start of None \<Rightarrow> '''' | Some r \<Rightarrow> ?cur r"
  let ?rest = "filter (\<lambda>r. past (<) (map_option event_key start) (event_key r))
    (sort_key event_key (events_of u (world_db w)))"
  assume "\<forall>r\<in>set_option start. addressable lib (er_created_at r) (er_id r)"
  then obtain ts cid where c: "decodeCursor slow (Some ?c) = Inr (ts, cid)"
    "cursor_pos lib ts cid = Inr (map_option event_key start)"
    by (rule cursor_position [OF event_key_def])
  have page: "queryEventsPage lib i ts cid (nat (limit + 1)) (world_db w) =
      Inr (take (nat (limit + 1)) ?rest)"
    by (simp add: queryEventsPage_def u c(2) page_rest)
  have "0 < limit" using pageLimit_Inr [OF lim] by simp
  then show "events_page lib tc rd slow data i n w ?c =
      Inr (map scan_event (take (nat limit) ?rest),
        if nat limit < length ?rest then ?cur (?rest ! (nat limit - 1)) else '''')"
    by (simp add: events_page_def ListBillEvents_def own lim c(1) page rows_of_def rd cut_page_take)
      (simp add: scan_event_def)
qed

text \<open>The rows a status filter lets through, for a valid filter.\<close>

definition bills_of :: "string \<Rightarrow> string \<Rightarrow> 'd DB \<Rightarrow> 'd BillRow list" where
  "bills_of account status db = filter (\<lambda>r. br_account_id r = account \<and>
     (status = '''' \<or> status_string (br_status r) = status)) (bills db)"

lemma ids_distinct:
  "db_ok db \<Longrightarrow> distinct (map lr_id (items_of u db))"
  "db_ok db \<Longrightarrow> distinct (map er_id (events_of u db))"
  "db_ok db \<Longrightarrow> distinct (map br_id (bills_of acct status db))"
  by (simp_all add: db_ok_def items_of_def events_of_def bills_of_def distinct_map_filter)

lemma bills_serve:
  fixes lib :: "'d lib"
  assumes rd: "rd_page rd = None" and st: "status \<in> {'''', ''OPEN'', ''CLOSED''}"
    and lim: "pageLimit (Some n) = Inr limit"
  shows "serves (>) bill_key (nat limit) (\<lambda>r. encodeBillCursor (br_created_at r) (br_id r))
    (toBillView lib \<circ> scanBillRow) (\<lambda>r. addressable lib (br_created_at r) (br_id r))
    (bills_page lib rd slow data status n w) (rev (sort_key bill_key (bills_of (callerAccountID data) status (world_db w))))"
  unfolding serves_def Let_def
proof (intro allI impI)
  fix start :: "'d BillRow option"
  let ?cur = "\<lambda>r :: 'd BillRow. encodeBillCursor (br_created_at r) (br_id r)"
  let ?c = "case start of None \<Rightarrow> '''' | Some r \<Rightarrow> ?cur r"
  let ?rest = "filter (\<lambda>r. past (>) (map_option bill_key start) (bill_key r))
    (rev (sort_key bill_key (bills_of (callerAccountID data) status (world_db w))))"
  assume "\<forall>r\<in>set_option start. addressable lib (br_created_at r) (br_id r)"
  then obtain ts cid where c: "decodeCursor slow (Some ?c) = Inr (ts, cid)"
    "cursor_pos lib ts cid = Inr (map_option bill_key start)"
    by (rule cursor_position [OF bill_key_def])
  have page: "queryBillsPage lib (callerAccountID data) status ts cid (nat (limit + 1)) (world_db w) =
      Inr (take (nat (limit + 1)) ?rest)"
    by (simp add: queryBillsPage_def bills_of_def c(2) page_rest)
  have norm: "normalizeListStatus lib (Some \<lparr>bq_Status = status, bq_Cursor = q, bq_Limit = n\<rparr>) = Inr status" for q
    using st by (auto simp: normalizeListStatus_def)
  have "0 < limit" using pageLimit_Inr [OF lim] by simp
  then show "bills_page lib rd slow data status n w ?c =
      Inr (map (toBillView lib \<circ> scanBillRow) (take (nat limit) ?rest),
        if nat limit < length ?rest then ?cur (?rest ! (nat limit - 1)) else '''')"
    by (simp add: bills_page_def ListBills_def lim norm c(1) page rows_of_def rd cut_page_take)
      (simp add: scanBillRow_def)
qed

end
