(* ===== verification/RunInvariants.thy ===== *)
theory RunInvariants
  imports System
begin

section \<open>Invariants of a workflow run\<close>

text \<open>
  What holds of every workflow in every reachable state of the service: the bill a run works on
  is the one it was started for, its phases go with its status and close reason, its totals
  account for the items it has acknowledged, and what it has acknowledged is in the database.
  The parts are invariants one by one where possible and are put together in \<open>run_ok\<close>, the
  interpretation of \<open>run_invariant\<close>.
\<close>

definition same_identity :: "'d Bill \<Rightarrow> 'd BillWorkflowInput \<Rightarrow> bool" where
  "same_identity b inp \<longleftrightarrow>
     bill_ID b = wi_BillID inp \<and> bill_AccountID b = wi_AccountID inp \<and>
     bill_Currency b = wi_Currency inp \<and> bill_PeriodStart b = wi_PeriodStart inp \<and>
     bill_PeriodEnd b = wi_PeriodEnd inp"

definition run_identity :: "string \<Rightarrow> 'd WF \<Rightarrow> bool" where
  "run_identity wid w \<longleftrightarrow>
     wid = workflowID (wi_BillID (wf_input w)) \<and> same_identity (wf_bill w) (wf_input w)"

fun phase_ok :: "'d WF \<Rightarrow> 'd Phase \<Rightarrow> bool" where
  "phase_ok w (Creating a) \<longleftrightarrow>
     fresh_input (wf_input w) \<and> bill_Status (wf_bill w) = BillStatusOpen \<and> wf_handlers w = [] \<and>
     wf_seen w = {}"
| "phase_ok w Serving \<longleftrightarrow> bill_Status (wf_bill w) = BillStatusOpen"
| "phase_ok w (Draining r) \<longleftrightarrow>
     bill_Status (wf_bill w) = BillStatusOpen \<and> (r \<noteq> CloseReasonNone \<longrightarrow> r = wf_reason w)"
| "phase_ok w (Closing inp a) \<longleftrightarrow>
     cb_CloseReason inp \<noteq> CloseReasonNone \<and> cb_BillID inp = bill_ID (wf_bill w) \<and>
     cb_Actor inp = closeActor (wf_bill w) (cb_CloseReason inp) \<and>
     bill_Status (wf_bill w) = BillStatusClosed \<and>
     bill_CloseReason (wf_bill w) = cb_CloseReason inp"
| "phase_ok w (Completed res) \<longleftrightarrow>
     br_CloseReason res \<noteq> CloseReasonNone \<and> res = billResult (br_CloseReason res) (wf_bill w) \<and>
     bill_Status (wf_bill w) = BillStatusClosed \<and>
     bill_CloseReason (wf_bill w) = br_CloseReason res"
| "phase_ok w (Failed e) \<longleftrightarrow> True"
| "phase_ok w (Continued inp) \<longleftrightarrow>
     bill_Status (wf_bill w) = BillStatusOpen \<and>
     (\<exists>ids. inp = continueAsNew (wf_input w) (wf_bill w) ids \<and> set ids = wf_seen w \<and> distinct ids)"

definition run_phase :: "'d WF \<Rightarrow> bool" where
  "run_phase w \<longleftrightarrow>
     phase_ok w (wf_phase w) \<and>
     (wf_settled w \<longleftrightarrow> wf_reason w \<noteq> CloseReasonNone) \<and>
     (wf_sel w = SelDone \<longleftrightarrow> wf_settled w)"

definition handler_ok :: "'d::{zero,ord} Bill \<Rightarrow> 'd Handler \<Rightarrow> bool" where
  "handler_ok b h \<longleftrightarrow>
     validateAddLineItem b (h_in h) = None \<and> (\<exists>t. h_item h = newItem t (h_in h)) \<and>
     act_attempts (h_act h) \<le> MaximumAttempts shortActivityOpts"

definition run_accounts :: "'d::linordered_ab_group_add WF \<Rightarrow> bool" where
  "run_accounts w \<longleftrightarrow>
     finite (wf_seen w) \<and> int (card (wf_seen w)) \<le> bill_ItemCount (wf_bill w) \<and>
     0 \<le> bill_TotalAmount (wf_bill w) \<and>
     (\<forall>h\<in>set (wf_handlers w). handler_ok (wf_bill w) h)"

fun phase_durable :: "'d lib \<Rightarrow> string \<Rightarrow> 'd DB \<Rightarrow> 'd Phase \<Rightarrow> bool" where
  "phase_durable lib bid db (Creating a) \<longleftrightarrow> (act_done a \<longrightarrow> bill_durable lib db bid)"
| "phase_durable lib bid db (Closing inp a) \<longleftrightarrow>
     bill_durable lib db bid \<and> (act_done a \<longrightarrow> bill_closed lib db bid)"
| "phase_durable lib bid db (Completed res) \<longleftrightarrow> bill_closed lib db bid"
| "phase_durable lib bid db (Failed e) \<longleftrightarrow> True"
| "phase_durable lib bid db _ \<longleftrightarrow> bill_durable lib db bid"

definition run_durable :: "'d lib \<Rightarrow> 'd WF \<Rightarrow> 'd DB \<Rightarrow> bool" where
  "run_durable lib w db \<longleftrightarrow>
     (\<forall>i\<in>wf_seen w. item_durable lib db i) \<and>
     (\<forall>h\<in>set (wf_handlers w). act_done (h_act h) \<longrightarrow> item_durable lib db (in_ItemID (h_in h))) \<and>
     phase_durable lib (bill_ID (wf_bill w)) db (wf_phase w)"

definition run_ok :: "'d::linordered_ab_group_add lib \<Rightarrow> string \<Rightarrow> 'd WF \<Rightarrow> 'd DB \<Rightarrow> bool" where
  "run_ok lib wid w db \<longleftrightarrow>
     run_identity wid w \<and> run_phase w \<and> run_accounts w \<and> run_durable lib w db"

subsection \<open>Facts about the stretches\<close>

lemma validate_frame [simp]:
  "validateAddLineItem (applyItem i b) inp = validateAddLineItem b inp"
  "validateAddLineItem (closedBill now r b) inp = validateAddLineItem b inp"
  by (simp_all add: validateAddLineItem_def applyItem_def closedBill_def)

lemma same_identity_frame [simp]:
  "same_identity (applyItem i b) inp = same_identity b inp"
  "same_identity (closedBill now r b) inp = same_identity b inp"
  by (simp_all add: same_identity_def applyItem_def closedBill_def)

lemma validate_None:
  "validateAddLineItem b inp = None \<longleftrightarrow>
     in_CallerAccountID inp = bill_AccountID b \<and> in_Currency inp = bill_Currency b \<and>
     0 < in_Amount inp \<and> in_Description inp \<noteq> ''''"
  by (auto simp: validateAddLineItem_def)

lemma handler_ok_frame [simp]:
  "handler_ok (applyItem i b) h = handler_ok b h"
  "handler_ok (closedBill now r b) h = handler_ok b h"
  by (simp_all add: handler_ok_def)

lemma bill_fields [simp]:
  "bill_ID (applyItem i b) = bill_ID b" "bill_ID (closedBill now r b) = bill_ID b"
  "bill_Status (applyItem i b) = bill_Status b"
  "bill_Status (closedBill now r b) = BillStatusClosed"
  "bill_CloseReason (applyItem i b) = bill_CloseReason b"
  "bill_CloseReason (closedBill now r b) = r"
  "bill_TotalAmount (closedBill now r b) = bill_TotalAmount b"
  "bill_ItemCount (closedBill now r b) = bill_ItemCount b"
  "bill_TotalAmount (applyItem i b) = bill_TotalAmount b + in_Amount i"
  "bill_ItemCount (applyItem i b) = bill_ItemCount b + 1"
  "closeActor (applyItem i b) r' = closeActor b r'"
  "closeActor (closedBill now r b) r' = closeActor b r'"
  by (simp_all add: applyItem_def closedBill_def closeActor_def)

lemma set_without:
  "set (take k hs @ drop (Suc k) hs) \<subseteq> set hs"
  by (auto dest: in_set_takeD in_set_dropD)

subsection \<open>Every event keeps the invariant\<close>

lemmas selector_defs = selectorStart_def selectorSignal_def selectorTimer_def

lemma selectors_frame [simp]:
  "wf_bill (selectorStart now w) = wf_bill w" "wf_bill (selectorSignal w) = wf_bill w"
  "wf_bill (selectorTimer w) = wf_bill w"
  "wf_seen (selectorStart now w) = wf_seen w" "wf_seen (selectorSignal w) = wf_seen w"
  "wf_seen (selectorTimer w) = wf_seen w"
  "wf_handlers (selectorStart now w) = wf_handlers w" "wf_handlers (selectorSignal w) = wf_handlers w"
  "wf_handlers (selectorTimer w) = wf_handlers w"
  "wf_phase (selectorStart now w) = wf_phase w" "wf_phase (selectorSignal w) = wf_phase w"
  "wf_phase (selectorTimer w) = wf_phase w"
  "wf_input (selectorStart now w) = wf_input w" "wf_input (selectorSignal w) = wf_input w"
  "wf_input (selectorTimer w) = wf_input w"
  by (simp_all add: selector_defs split: option.splits)

lemma run_identity_step:
  assumes "run_identity wid w" "wf_step lib ev w s = Some (w', s', rs)"
  shows "run_identity wid w'"
  using assms(2) by (cases rule: wf_step_cases) (use assms(1) in \<open>simp_all add: run_identity_def\<close>)

lemma run_phase_step:
  assumes "run_phase w" "wf_step lib ev w s = Some (w', s', rs)"
  shows "run_phase w'"
  using assms(2)
proof (cases rule: wf_step_cases)
  case (selector_start now)
  with assms(1) show ?thesis
    by (cases "wf_phase w") (auto simp: run_phase_def selectorStart_def split: option.splits)
next
  case selector_signal
  with assms(1) show ?thesis
    by (cases "wf_phase w") (auto simp: run_phase_def selectorSignal_def)
next
  case (selector_timer now)
  with assms(1) show ?thesis
    by (cases "wf_phase w") (auto simp: run_phase_def selectorTimer_def)
next
  case (append_returns k h)
  with assms(1) show ?thesis by (cases "wf_phase w") (auto simp: run_phase_def)
next
  case (append_attempt k env rep h r)
  with assms(1) show ?thesis by (cases "wf_phase w") (auto simp: run_phase_def)
next
  case (append_gives_up k h elapsed)
  with assms(1) show ?thesis by (cases "wf_phase w") (auto simp: run_phase_def)
next
  case (accepted inp now)
  with assms(1) show ?thesis by (cases "wf_phase w") (auto simp: run_phase_def)
next
  case signal_arrives
  with assms(1) show ?thesis by (cases "wf_phase w") (auto simp: run_phase_def)
qed (use assms(1) in \<open>auto simp: run_phase_def closeInput_def billResult_def\<close>)

lemma after_attempt_bound:
  "can_attempt a \<Longrightarrow> act_attempts (after_attempt r rep a) \<le> MaximumAttempts shortActivityOpts"
  by (simp add: can_attempt_def after_attempt_def)

lemma run_accounts_step:
  fixes w :: "'d::linordered_ab_group_add WF"
  assumes acc: "run_accounts w" and step: "wf_step lib ev w s = Some (w', s', rs)"
  shows "run_accounts w'"
  using step
proof (cases rule: wf_step_cases)
  case (accepted inp now)
  with acc show ?thesis by (auto simp: run_accounts_def handler_ok_def act_new_def)
next
  case (append_attempt k env rep h r)
  have "handler_ok (wf_bill w) (h\<lparr>h_act := after_attempt r rep (h_act h)\<rparr>)"
    using acc append_attempt after_attempt_bound by (auto simp: run_accounts_def handler_ok_def)
  with acc append_attempt show ?thesis
    by (auto simp: run_accounts_def dest!: subsetD [OF set_update_subset_insert])
next
  case (append_returns k h)
  have "handler_ok (wf_bill w) h" using acc append_returns by (auto simp: run_accounts_def)
  then have "0 < in_Amount (h_in h)" by (simp add: handler_ok_def validate_None)
  moreover have "int (card (insert (in_ItemID (h_in h)) (wf_seen w))) \<le> bill_ItemCount (wf_bill w) + 1"
    using acc card_insert_le_m1 by (auto simp: run_accounts_def card_insert_if)
  moreover have "\<forall>x\<in>set (wf_handlers w'). handler_ok (wf_bill w') x"
    using acc append_returns by (auto simp: run_accounts_def dest: in_set_takeD in_set_dropD)
  ultimately show ?thesis using acc append_returns by (simp add: run_accounts_def)
next
  case (append_gives_up k h elapsed)
  with acc show ?thesis by (auto simp: run_accounts_def dest: in_set_takeD in_set_dropD)
qed (use acc in \<open>auto simp: run_accounts_def\<close>)

lemma phase_durable_extends:
  "phase_durable lib b db p \<Longrightarrow> db_extends db db' \<Longrightarrow> phase_durable lib b db' p"
  by (cases p) (auto intro: bill_durable_extends bill_closed_extends)

lemma run_durable_extends: "run_durable lib w db \<Longrightarrow> db_extends db db' \<Longrightarrow> run_durable lib w db'"
  unfolding run_durable_def by (meson item_durable_extends phase_durable_extends)

lemma serving_durable: "phase_durable lib b db p \<Longrightarrow> serving p \<Longrightarrow> bill_durable lib db b"
  by (cases p) simp_all

lemma bill_closed_durable: "bill_closed lib db b \<Longrightarrow> bill_durable lib db b"
  by (auto simp: bill_closed_def bill_durable_def)

lemma after_attempt_done: "act_done (after_attempt r rep a) \<Longrightarrow> r = Inr ()"
  by (cases r) (simp_all add: after_attempt_def)

lemma run_durable_step:
  fixes w :: "'d::linordered_ab_group_add WF"
  assumes dur: "run_durable lib w (fst s)" and acc: "run_accounts w" and ph: "run_phase w"
    and step: "wf_step lib ev w s = Some (w', s', rs)"
  shows "run_durable lib w' (fst s')"
proof -
  have old: "run_durable lib w (fst s')"
    using dur wf_step_extends [OF step] by (rule run_durable_extends)
  from step show ?thesis
  proof (cases rule: wf_step_cases)
    case (create_attempt env rep a r)
    have "bill_durable lib (fst s') (bill_ID (wf_bill w))" if "act_done (after_attempt r rep a)"
      using create_attempt(3) after_attempt_done [OF that] CreateBillActivity_durable by blast
    with old create_attempt show ?thesis by (simp add: run_durable_def)
  next
    case (append_attempt k env rep h r)
    have "handler_ok (wf_bill w) h" using acc append_attempt by (simp add: run_accounts_def)
    then have it: "li_ID (h_item h) = in_ItemID (h_in h)"
      by (auto simp: handler_ok_def newItem_def)
    have "item_durable lib (fst s') (in_ItemID (h_in h))" if "act_done (after_attempt r rep (h_act h))"
      using append_attempt(5) after_attempt_done [OF that] AppendLineItemActivity_durable it
      by (fastforce simp: appendInput_def)
    with old append_attempt show ?thesis
      by (auto simp: run_durable_def
          dest!: subsetD [OF set_update_subset_insert])
  next
    case (append_returns k h)
    with old show ?thesis
      by (auto simp: run_durable_def dest: in_set_takeD in_set_dropD)
  next
    case (close_attempt env rep inp a r)
    have "cb_BillID inp = bill_ID (wf_bill w)"
      using ph close_attempt by (simp add: run_phase_def)
    then have "bill_closed lib (fst s') (bill_ID (wf_bill w))" if "act_done (after_attempt r rep a)"
      using close_attempt(3) after_attempt_done [OF that] CloseBillActivity_closed by fastforce
    with old close_attempt show ?thesis by (simp add: run_durable_def)
  qed (use old in \<open>auto simp: run_durable_def act_new_def
      dest: in_set_takeD in_set_dropD\<close>)
qed

lemma run_ok_start: "fresh_input inp \<Longrightarrow> run_ok lib (workflowID (wi_BillID inp)) (startRun now 0 inp) db"
  by (simp add: run_ok_def run_identity_def run_phase_def run_accounts_def run_durable_def
      startRun_def initialBill_def initialSeen_def same_identity_def fresh_input_def act_new_def)

text \<open>The next run starts from the bill and the seen set the last one handed off.\<close>

lemma handoff:
  "wf_bill (startRun now n (continueAsNew inp b ids)) =
     b\<lparr>bill_LineItems := None, bill_ClosedAt := None, bill_CloseReason := CloseReasonNone\<rparr>"
  "wf_seen (startRun now n (continueAsNew inp b ids)) = set ids"
  "wf_phase (startRun now n (continueAsNew inp b ids)) = Serving"
  "wf_handlers (startRun now n (continueAsNew inp b ids)) = []"
  by (cases b; simp add: startRun_def initialBill_def initialSeen_def continueAsNew_def)+

lemma run_ok_next:
  assumes "run_ok lib wid w db" "wf_phase w = Continued inp"
  shows "run_ok lib wid (startRun now n inp) db"
proof -
  obtain ids where "inp = continueAsNew (wf_input w) (wf_bill w) ids" "set ids = wf_seen w"
    using assms by (auto simp: run_ok_def run_phase_def)
  moreover have "bill_durable lib db (wi_BillID (wf_input w))"
    using assms by (auto simp: run_ok_def run_durable_def run_identity_def same_identity_def)
  ultimately show ?thesis using assms
    by (simp add: run_ok_def run_identity_def run_phase_def run_accounts_def run_durable_def
        same_identity_def handoff) (simp add: startRun_def continueAsNew_def)
qed

interpretation run: run_invariant lib "run_ok lib" for lib :: "'d::linordered_ab_group_add lib"
proof
  fix inp :: "'d BillWorkflowInput" and now db
  assume "fresh_input inp"
  then show "run_ok lib (workflowID (wi_BillID inp)) (startRun now 0 inp) db" by (rule run_ok_start)
next
  fix wid and w w' :: "'d WF" and s s' ev rs
  assume "run_ok lib wid w (fst s)" "wf_step lib ev w s = Some (w', s', rs)"
  then show "run_ok lib wid w' (fst s')"
    unfolding run_ok_def by (blast intro: run_identity_step run_phase_step run_accounts_step run_durable_step)
next
  fix wid and w :: "'d WF" and db inp now n
  assume "run_ok lib wid w db" "wf_phase w = Continued inp"
  then show "run_ok lib wid (startRun now n inp) db" by (rule run_ok_next)
next
  fix wid and w :: "'d WF" and db db'
  assume "run_ok lib wid w db" "db_extends db db'"
  then show "run_ok lib wid w db'" unfolding run_ok_def by (blast intro: run_durable_extends)
qed

text \<open>A completed run: its result, and the row it leaves.\<close>

lemma run_completed:
  assumes "run_ok lib wid w db" "wf_phase w = Completed res"
  shows "br_BillID res = wi_BillID (wf_input w)" "br_Currency res = wi_Currency (wf_input w)"
    "br_CloseReason res \<noteq> CloseReasonNone" "br_TotalAmount res = bill_TotalAmount (wf_bill w)"
    "br_ItemCount res = bill_ItemCount (wf_bill w)" "wid = workflowID (br_BillID res)"
    "\<exists>u r. pg_uuid lib (br_BillID res) = Some u \<and> find_bill u db = Some r \<and>
       br_status r = BillStatusClosed"
    "0 \<le> br_TotalAmount res" "0 \<le> br_ItemCount res"
proof -
  have res: "res = billResult (br_CloseReason res) (wf_bill w)"
    and ident: "same_identity (wf_bill w) (wf_input w)" "wid = workflowID (wi_BillID (wf_input w))"
    using assms by (auto simp: run_ok_def run_phase_def run_identity_def)
  show id: "br_BillID res = wi_BillID (wf_input w)"
    using ident by (subst res) (simp add: billResult_def same_identity_def)
  show "br_Currency res = wi_Currency (wf_input w)"
    using ident by (subst res) (simp add: billResult_def same_identity_def)
  show total: "br_TotalAmount res = bill_TotalAmount (wf_bill w)"
    "br_ItemCount res = bill_ItemCount (wf_bill w)"
    by (subst res, simp add: billResult_def)+
  show "wid = workflowID (br_BillID res)" using ident id by simp
  show "br_CloseReason res \<noteq> CloseReasonNone" using assms by (simp add: run_ok_def run_phase_def)
  show "\<exists>u r. pg_uuid lib (br_BillID res) = Some u \<and> find_bill u db = Some r \<and> br_status r = BillStatusClosed"
    using assms id ident by (auto simp: run_ok_def run_durable_def bill_closed_def same_identity_def)
  show "0 \<le> br_TotalAmount res" "0 \<le> br_ItemCount res"
    using assms total by (auto simp: run_ok_def run_accounts_def)
qed

subsection \<open>The next run\<close>

text \<open>
  What a snapshot leaves out, an open bill does not have: the bill a run works on never holds line
  items, and has a closing time and reason only once it is closed.
\<close>

definition bill_bare :: "'d Bill \<Rightarrow> bool" where
  "bill_bare b \<longleftrightarrow> bill_LineItems b = None \<and>
     (bill_Status b = BillStatusOpen \<longrightarrow> bill_ClosedAt b = None \<and> bill_CloseReason b = CloseReasonNone)"

definition run_bare :: "'d WF \<Rightarrow> bool" where
  "run_bare w \<longleftrightarrow> bill_bare (wf_bill w) \<and>
     (\<forall>inp b. wf_phase w = Continued inp \<longrightarrow> wi_Snapshot inp = Some b \<longrightarrow> bill_bare b)"

lemma run_bare_step:
  assumes "run_bare w" "wf_step lib ev w s = Some (w', s', rs)"
  shows "run_bare w'"
  using assms(2)
  by (cases rule: wf_step_cases)
    (use assms(1) in \<open>auto simp: run_bare_def bill_bare_def applyItem_def closedBill_def continueAsNew_def\<close>)

interpretation bare: run_invariant lib "\<lambda>_ w _. run_bare w" for lib :: "'d::linordered_ab_group_add lib"
proof
  fix inp :: "'d BillWorkflowInput" and now
  assume "fresh_input inp"
  then show "run_bare (startRun now 0 inp)"
    by (simp add: run_bare_def bill_bare_def startRun_def initialBill_def fresh_input_def)
next
  fix w w' :: "'d WF" and s s' ev rs
  assume "run_bare w" "wf_step lib ev w s = Some (w', s', rs)"
  then show "run_bare w'" by (rule run_bare_step)
next
  fix w :: "'d WF" and inp now n
  assume "run_bare w" "wf_phase w = Continued inp"
  then show "run_bare (startRun now n inp)"
    by (cases "wi_Snapshot inp") (auto simp: run_bare_def bill_bare_def startRun_def initialBill_def)
qed

lemma next_run_bill:
  assumes "bill_bare b" "bill_Status b = BillStatusOpen"
  shows "wf_bill (startRun now n (continueAsNew inp b ids)) = b"
  using assms by (cases b) (simp add: handoff bill_bare_def)

subsection \<open>The replies\<close>

text \<open>Every item whose addition a caller has been told of is in the database.\<close>

lemma wf_step_replies:
  fixes w :: "'d::linordered_ab_group_add WF"
  assumes ok: "run_ok lib wid w (fst s)" and step: "wf_step lib ev w s = Some (w', s', rs)"
    and reply: "(inp, Inr res) \<in> set rs"
  shows "item_durable lib (fst s') (in_ItemID inp)"
    and "in_CallerAccountID inp = bill_AccountID (wf_bill w)"
    and "in_Currency inp = bill_Currency (wf_bill w)"
    and "0 < in_Amount inp"
proof -
  have "(item_durable lib (fst s') (in_ItemID inp) \<and> validateAddLineItem (wf_bill w) inp = None)"
    using step
  proof (cases rule: wf_step_cases)
    case (duplicate inp')
    with ok reply show ?thesis by (auto simp: run_ok_def run_durable_def)
  next
    case (append_returns k h)
    then have "h \<in> set (wf_handlers w)" by simp
    with ok reply append_returns show ?thesis
      by (auto simp: run_ok_def run_durable_def run_accounts_def handler_ok_def)
  qed (use reply in auto)
  then show "item_durable lib (fst s') (in_ItemID inp)"
    "in_CallerAccountID inp = bill_AccountID (wf_bill w)"
    "in_Currency inp = bill_Currency (wf_bill w)" "0 < in_Amount inp"
    by (auto simp: validate_None)
qed

text \<open>
  The state of the service is sound: the schema holds, every run satisfies \<open>run_ok\<close>, and every
  item whose addition was reported is stored. The metrics play no part in it.
\<close>

definition service_ok :: "'d::linordered_ab_group_add lib \<Rightarrow> 'd Sys \<Rightarrow> bool" where
  "service_ok lib \<sigma> \<longleftrightarrow>
     db_ok (fst (sys_store \<sigma>)) \<and>
     (\<forall>wid w. run_of \<sigma> wid = Some w \<longrightarrow> run_ok lib wid w (fst (sys_store \<sigma>))) \<and>
     (\<forall>wid inp res. (wid, inp, Inr res) \<in> set (sys_replies \<sigma>) \<longrightarrow>
        item_durable lib (fst (sys_store \<sigma>)) (in_ItemID inp))"

lemma service_ok_init: "sys_init \<sigma> \<Longrightarrow> service_ok lib \<sigma>"
  by (simp add: service_ok_def sys_init_def db_ok_def run_of_def)

lemma service_ok_step:
  assumes ok: "service_ok lib \<sigma>" and step: "sys_step lib e \<sigma> = Some \<sigma>'"
  shows "service_ok lib \<sigma>'"
proof -
  note ext = sys_step_extends [OF step]
  have db: "db_ok (fst (sys_store \<sigma>))" and runs: "\<And>wid w. run_of \<sigma> wid = Some w \<Longrightarrow>
      run_ok lib wid w (fst (sys_store \<sigma>))"
    and old: "\<And>wid inp res. (wid, inp, Inr res) \<in> set (sys_replies \<sigma>) \<Longrightarrow>
      item_durable lib (fst (sys_store \<sigma>)) (in_ItemID inp)"
    using ok unfolding service_ok_def by blast+
  have "item_durable lib (fst (sys_store \<sigma>')) (in_ItemID inp)"
    if reply: "(wid, inp, Inr res) \<in> set (sys_replies \<sigma>')" for wid inp res
    using step
  proof (cases rule: sys_step_cases)
    case (ran wid' ev w w' s' rs)
    from ran(4) reply consider "(wid, inp, Inr res) \<in> set (sys_replies \<sigma>)" | "(inp, Inr res) \<in> set rs"
      by auto
    then show ?thesis
    proof cases
      case 1
      then show ?thesis using old ext by (blast intro: item_durable_extends)
    next
      case 2
      from wf_step_replies(1) [OF runs [OF ran(2)] ran(3) this] ran(4) show ?thesis by simp
    qed
  qed (use reply old ext in \<open>auto intro: item_durable_extends\<close>)
  then show ?thesis
    using sys_step_db_ok [OF step db] run.keeps [OF runs db step] by (simp add: service_ok_def)
qed

lemma service_ok_run: "service_ok lib \<sigma> \<Longrightarrow> sys_run lib es \<sigma> = Some \<sigma>' \<Longrightarrow> service_ok lib \<sigma>'"
  by (induction es arbitrary: \<sigma>) (auto split: option.splits dest: service_ok_step)

lemma reachable_service_ok:
  fixes \<sigma> :: "'d::linordered_ab_group_add Sys"
  shows "reachable lib G \<sigma> \<Longrightarrow> service_ok lib \<sigma>"
  by (induction rule: reachable.induct) (auto intro: service_ok_init service_ok_step)

lemma replies_durable:
  fixes \<sigma> :: "'d::linordered_ab_group_add Sys"
  shows "reachable lib G \<sigma> \<Longrightarrow> (wid, inp, Inr res) \<in> set (sys_replies \<sigma>) \<Longrightarrow>
   item_durable lib (fst (sys_store \<sigma>)) (in_ItemID inp)"
  using reachable_service_ok unfolding service_ok_def by blast

end
