(* ===== verification/Service.thy ===== *)
theory Service
  imports Pages RunInvariants
begin

section \<open>The endpoints over the Temporal service\<close>

text \<open>
  What the endpoints rely on from Temporal is the locale \<open>temporal_service\<close>: calls keep the state
  of the service sound, an update that reports a result has stored its item, a workflow that
  reports a result has closed its bill, and a query answers with the bill of the workflow asked.
  The interpretation is on the runs of the billing workflow: \<open>sys_client\<close> answers each call from
  the system of theory \<open>System\<close>. While a call waits other events happen; which ones is the
  argument \<open>plan\<close>.
\<close>

locale temporal_service =
  fixes lib :: "'d::linordered_ab_group_add lib"
    and tc :: "('d, 't) temporal"
    and sound :: "('d, 't) World \<Rightarrow> bool"
  assumes sound_execute: "sound w \<Longrightarrow> fresh_input winp \<Longrightarrow> tc_ExecuteWorkflow tc wid winp w = (r, w') \<Longrightarrow> sound w'"
    and sound_update: "sound w \<Longrightarrow> tc_UpdateWorkflow tc wid inp w = (u, w') \<Longrightarrow> sound w'"
    and sound_signal: "sound w \<Longrightarrow> tc_SignalWorkflow tc wid w = (r, w') \<Longrightarrow> sound w'"
    and sound_get: "sound w \<Longrightarrow> tc_GetWorkflow tc wid w = (g, w') \<Longrightarrow> sound w'"
    and sound_metrics: "sound w \<Longrightarrow> sound (count_metrics ms w)"
    and update_stores: "sound w \<Longrightarrow> tc_UpdateWorkflow tc wid inp w = (Inr (Inr res), w') \<Longrightarrow>
      item_durable lib (world_db w') (in_ItemID inp)"
    and get_closes: "sound w \<Longrightarrow> tc_GetWorkflow tc (workflowID i) w = (Inr result, w') \<Longrightarrow>
      bill_closed lib (world_db w') i"
    and query_bill: "sound w \<Longrightarrow> tc_QueryWorkflow tc (workflowID i) w = Inr (Inr b) \<Longrightarrow> bill_ID b = i"
begin

lemma CreateBill_sound: "sound w \<Longrightarrow> CreateBill lib tc rd reg data fresh req w = (r, w') \<Longrightarrow> sound w'"
  by (auto simp: CreateBill_def Let_def createInput_def fresh_input_def
      split: if_splits option.splits prod.splits sum.splits dest: sound_execute [rotated 2])

lemma AddLineItem_sound: "sound w \<Longrightarrow> AddLineItem lib tc reg data fresh i req w = (r, w') \<Longrightarrow> sound w'"
  by (auto simp: AddLineItem_def Let_def split: if_splits prod.splits sum.splits
      dest: sound_update intro: sound_metrics)

lemma CloseBill_sound: "sound w \<Longrightarrow> CloseBill lib tc rd data i w = (r, w') \<Longrightarrow> sound w'"
  by (auto simp: CloseBill_def split: option.splits prod.splits sum.splits if_splits
      dest: sound_signal sound_get)

text \<open>An item the endpoint reports as added is stored.\<close>

lemma AddLineItem_stored:
  assumes "sound w" "AddLineItem lib tc reg data fresh i req w = (Inr resp, w')"
  shows "item_durable lib (world_db w') (if aq_IdempotencyKey req = '''' then fresh else aq_IdempotencyKey req)"
proof -
  let ?id = "if aq_IdempotencyKey req = '''' then fresh else aq_IdempotencyKey req"
  obtain amount result where
    "tc_UpdateWorkflow tc (workflowID i) (itemInput ?id amount data req) w = (Inr (Inr result), w')"
    using assms(2)
    by (auto simp: AddLineItem_def Let_def split: if_splits prod.splits sum.splits)
  from update_stores [OF assms(1) this] show ?thesis by (simp add: itemInput_def)
qed

text \<open>A bill CloseBill answers for, after the workflow has completed, is closed.\<close>

lemma closeBillFromDB_closed:
  assumes "bill_closed lib (world_db w) i" "closeBillFromDB lib rd i w = Inr resp"
  shows "cr_Status resp = ''CLOSED''"
  using assms by (auto simp: closeBillFromDB_def bill_closed_def getBillRowFromDB_def scanBillRow_def
      split: sum.splits option.splits if_splits)

lemma CloseBill_closed:
  assumes "sound w" "CloseBill lib tc rd data i w = (Inr resp, w')"
    and "fst (tc_SignalWorkflow tc (workflowID i) w) = Inr ()"
  shows "cr_Status resp = ''CLOSED'' \<and> bill_closed lib (world_db w') i"
proof -
  obtain w1 where s: "tc_SignalWorkflow tc (workflowID i) w = (Inr (), w1)"
    using assms(3) by (metis prod.collapse)
  obtain result where g: "tc_GetWorkflow tc (workflowID i) w1 = (Inr result, w')"
    and r: "closeBillFromDB lib rd i w' = Inr resp"
    using assms(2) s by (auto simp: CloseBill_def split: option.splits prod.splits sum.splits)
  have "bill_closed lib (world_db w') i" using get_closes [OF sound_signal [OF assms(1) s] g] .
  with closeBillFromDB_closed [OF this r] show ?thesis by simp
qed

lemma loadBillSummary_ID:
  assumes "sound w" "loadBillSummary lib tc rd i w = Inr b"
  shows "bill_ID b = i \<or> pg_uuid lib i = Some (bill_ID b)"
proof (cases "queryBillState tc (workflowID i) w")
  case (Inr b')
  then have "tc_QueryWorkflow tc (workflowID i) w = Inr (Inr b')"
    by (auto simp: queryBillState_def split: sum.splits)
  with query_bill [OF assms(1) this] assms(2) Inr show ?thesis by (simp add: loadBillSummary_def)
next
  case (Inl e)
  with assms(2) show ?thesis
    by (auto simp: loadBillSummary_def getBillRowFromDB_def scanBillRow_def
        split: if_splits option.splits sum.splits dest: find_bill_Some)
qed

end

subsection \<open>Temporal's calls on the runs of the workflow\<close>

fun run_events :: "'d lib \<Rightarrow> 'd::{zero,ord,plus} SysEvent list \<Rightarrow> 'd Sys \<Rightarrow> 'd Sys" where
  "run_events lib [] \<sigma> = \<sigma>"
| "run_events lib (e # es) \<sigma> =
     run_events lib es (case sys_step lib e \<sigma> of None \<Rightarrow> \<sigma> | Some \<sigma>' \<Rightarrow> \<sigma>')"

definition sys_of :: "('d, 'd Sys) World \<Rightarrow> 'd Sys" where
  "sys_of w = (w_temporal w)\<lparr>sys_store := w_store w\<rparr>"

definition put_sys :: "'d Sys \<Rightarrow> ('d, 'd Sys) World" where
  "put_sys \<sigma> = \<lparr>w_store = sys_store \<sigma>, w_temporal = \<sigma>\<rparr>"

definition new_reply :: "string \<Rightarrow> 'd AddLineItemInput \<Rightarrow> 'd Sys \<Rightarrow> 'd Sys
     \<Rightarrow> (go_error + 'd AddLineItemResult) option" where
  "new_reply wid inp \<sigma> \<sigma>' =
     map_option (snd \<circ> snd) (find (\<lambda>(wid', inp', r). wid' = wid \<and> inp' = inp)
       (drop (length (sys_replies \<sigma>)) (sys_replies \<sigma>')))"

text \<open>
  \<open>StartWorkflowOptions\<close> leaves \<open>WorkflowExecutionErrorWhenAlreadyStarted\<close> at its default: starting
  a workflow whose run is open hands back that run, without an error. \<open>retained\<close> says whether the
  history of a closed run can still be queried.
\<close>

definition sys_ExecuteWorkflow ::
  "'d lib \<Rightarrow> gotime \<Rightarrow> string \<Rightarrow> 'd BillWorkflowInput \<Rightarrow> ('d::{zero,ord,plus}, 'd Sys) World
     \<Rightarrow> (go_error + unit) \<times> ('d, 'd Sys) World" where
  "sys_ExecuteWorkflow lib now wid inp w =
     (if wid \<noteq> workflowID (wi_BillID inp) then (Inl (ErrorString ''no such workflow id''), w)
      else (case sys_step lib (StartWorkflow inp now) (sys_of w) of
         None \<Rightarrow> (Inr (), w)
       | Some \<sigma> \<Rightarrow> (Inr (), put_sys \<sigma>)))"

definition sys_UpdateWorkflow ::
  "'d lib \<Rightarrow> gotime \<Rightarrow> (string \<Rightarrow> 'd Sys \<Rightarrow> 'd SysEvent list) \<Rightarrow> string \<Rightarrow> 'd AddLineItemInput
     \<Rightarrow> ('d::{zero,ord,plus}, 'd Sys) World
     \<Rightarrow> (go_error + (go_error + 'd AddLineItemResult)) \<times> ('d, 'd Sys) World" where
  "sys_UpdateWorkflow lib now plan wid inp w =
     (if \<not> open_run (run_of (sys_of w) wid) then (Inl ServiceNotFound, w)
      else (let \<sigma> = run_events lib (RunEvent wid (UpdateArrives inp now) # plan wid (sys_of w)) (sys_of w)
        in (case new_reply wid inp (sys_of w) \<sigma> of
              None \<Rightarrow> Inl ContextDeadlineExceeded
            | Some (Inl e) \<Rightarrow> Inr (Inl (wire_error lib e))
            | Some (Inr res) \<Rightarrow> Inr (Inr res), put_sys \<sigma>)))"

definition sys_SignalWorkflow ::
  "'d lib \<Rightarrow> string \<Rightarrow> ('d::{zero,ord,plus}, 'd Sys) World \<Rightarrow> (go_error + unit) \<times> ('d, 'd Sys) World" where
  "sys_SignalWorkflow lib wid w =
     (if \<not> open_run (run_of (sys_of w) wid) then (Inl ServiceNotFound, w)
      else (case sys_step lib (RunEvent wid SignalArrives) (sys_of w) of
         None \<Rightarrow> (Inl ContextDeadlineExceeded, w)
       | Some \<sigma> \<Rightarrow> (Inr (), put_sys \<sigma>)))"

definition sys_GetWorkflow ::
  "'d lib \<Rightarrow> (string \<Rightarrow> 'd Sys \<Rightarrow> 'd SysEvent list) \<Rightarrow> string \<Rightarrow> ('d::{zero,ord,plus}, 'd Sys) World
     \<Rightarrow> (go_error + 'd BillResult) \<times> ('d, 'd Sys) World" where
  "sys_GetWorkflow lib plan wid w =
     (let \<sigma> = run_events lib (plan wid (sys_of w)) (sys_of w)
      in (case run_of \<sigma> wid of
            None \<Rightarrow> Inl ServiceNotFound
          | Some r \<Rightarrow> (case wf_phase r of
              Completed res \<Rightarrow> Inr res | Failed e \<Rightarrow> Inl e | _ \<Rightarrow> Inl ContextDeadlineExceeded),
          put_sys \<sigma>))"

text \<open>
  The query handler is registered once the bill row is inserted: a run that is still creating its bill,
  or failed at it, knows no query.
\<close>

fun query_registered :: "'d Phase \<Rightarrow> bool" where
  "query_registered (Creating a) = False"
| "query_registered (Failed e) = (e \<noteq> createFailure)"
| "query_registered _ = True"

definition sys_QueryWorkflow :: "bool \<Rightarrow> string \<Rightarrow> ('d, 'd Sys) World \<Rightarrow> go_error + (go_error + 'd Bill)" where
  "sys_QueryWorkflow retained wid w =
     (case run_of (sys_of w) wid of
        None \<Rightarrow> Inl ServiceNotFound
      | Some r \<Rightarrow>
          if \<not> retained \<and> \<not> open_run (Some r) then Inl ServiceNotFound
          else if \<not> query_registered (wf_phase r) then Inl (ErrorString ''unknown queryType bill-state'')
          else Inr (Inr (wf_bill r)))"

definition sys_client ::
  "'d lib \<Rightarrow> gotime \<Rightarrow> (string \<Rightarrow> 'd Sys \<Rightarrow> 'd SysEvent list) \<Rightarrow> bool
     \<Rightarrow> ('d::{zero,ord,plus}, 'd Sys) temporal" where
  "sys_client lib now plan retained =
     \<lparr>tc_ExecuteWorkflow = sys_ExecuteWorkflow lib now, tc_UpdateWorkflow = sys_UpdateWorkflow lib now plan,
      tc_SignalWorkflow = sys_SignalWorkflow lib, tc_GetWorkflow = sys_GetWorkflow lib plan,
      tc_QueryWorkflow = sys_QueryWorkflow retained\<rparr>"

lemmas sys_client_defs = sys_client_def sys_ExecuteWorkflow_def sys_UpdateWorkflow_def sys_SignalWorkflow_def
  sys_GetWorkflow_def sys_QueryWorkflow_def

definition sound_world :: "'d::linordered_ab_group_add lib \<Rightarrow> ('d, 'd Sys) World \<Rightarrow> bool" where
  "sound_world lib w \<longleftrightarrow> service_ok lib (sys_of w)"

lemma sys_of_put [simp]: "sys_of (put_sys \<sigma>) = \<sigma>"
  by (simp add: sys_of_def put_sys_def)

lemma world_db_put [simp]: "world_db (put_sys \<sigma>) = fst (sys_store \<sigma>)"
  by (simp add: world_db_def put_sys_def)

lemma world_db_sys: "world_db w = fst (sys_store (sys_of w))"
  by (simp add: world_db_def sys_of_def)

lemma run_events_ok: "service_ok lib \<sigma> \<Longrightarrow> service_ok lib (run_events lib es \<sigma>)"
  by (induction es arbitrary: \<sigma>) (auto split: option.splits intro: service_ok_step)

lemma new_reply_mem: "new_reply wid inp \<sigma> \<sigma>' = Some r \<Longrightarrow> (wid, inp, r) \<in> set (sys_replies \<sigma>')"
proof -
  assume "new_reply wid inp \<sigma> \<sigma>' = Some r"
  then obtain x where x: "find (\<lambda>(wid', inp', r). wid' = wid \<and> inp' = inp)
      (drop (length (sys_replies \<sigma>)) (sys_replies \<sigma>')) = Some x" "r = snd (snd x)"
    by (auto simp: new_reply_def)
  from find_SomeD [OF x(1)] have "x \<in> set (sys_replies \<sigma>')" "fst x = wid \<and> fst (snd x) = inp"
    by (auto dest: in_set_dropD)
  with x(2) show "(wid, inp, r) \<in> set (sys_replies \<sigma>')" by (cases x) auto
qed

lemma sound_count: "sound_world lib w \<Longrightarrow> sound_world lib (count_metrics ms w)"
  by (simp add: sound_world_def service_ok_def sys_of_def count_metrics_def run_of_def)

declare sys_step.simps [simp del] wf_step.simps [simp del] run_events.simps [simp del]

interpretation temporal: temporal_service lib "sys_client lib now plan retained" "sound_world lib"
  for lib :: "'d::linordered_ab_group_add lib" and now plan retained
proof
  fix w w' :: "('d, 'd Sys) World" and inp winp wid i r u g res result b ms
  let ?tc = "sys_client lib now plan retained"
  show "sound_world lib w'" if "sound_world lib w" "fresh_input winp" "tc_ExecuteWorkflow ?tc wid winp w = (r, w')"
    using that service_ok_step [of lib "sys_of w" "StartWorkflow winp now"]
    by (cases "sys_step lib (StartWorkflow winp now) (sys_of w)")
      (auto simp: sys_client_defs sound_world_def split: if_splits)
  show "sound_world lib w'" if "sound_world lib w" "tc_UpdateWorkflow ?tc wid inp w = (u, w')"
    using that run_events_ok by (auto simp: sys_client_defs sound_world_def Let_def split: if_splits)
  show "sound_world lib w'" if "sound_world lib w" "tc_SignalWorkflow ?tc wid w = (r, w')"
    using that service_ok_step [of lib "sys_of w" "RunEvent wid SignalArrives"]
    by (cases "sys_step lib (RunEvent wid SignalArrives) (sys_of w)")
      (auto simp: sys_client_defs sound_world_def split: if_splits)
  show "sound_world lib w'" if "sound_world lib w" "tc_GetWorkflow ?tc wid w = (g, w')"
    using that run_events_ok by (auto simp: sys_client_defs sound_world_def Let_def)
  show "sound_world lib (count_metrics ms w)" if "sound_world lib w" using that by (rule sound_count)
  show "item_durable lib (world_db w') (in_ItemID inp)"
    if "sound_world lib w" "tc_UpdateWorkflow ?tc wid inp w = (Inr (Inr res), w')"
  proof -
    let ?\<sigma> = "run_events lib (RunEvent wid (UpdateArrives inp now) # plan wid (sys_of w)) (sys_of w)"
    have w': "new_reply wid inp (sys_of w) ?\<sigma> = Some (Inr res)" "w' = put_sys ?\<sigma>"
      using that(2) by (auto simp: sys_client_defs Let_def split: if_splits option.splits sum.splits)
    have "service_ok lib ?\<sigma>" using that(1) unfolding sound_world_def by (rule run_events_ok)
    with new_reply_mem [OF w'(1)] w'(2) show ?thesis
      unfolding service_ok_def by (metis world_db_put)
  qed
  show "bill_closed lib (world_db w') i"
    if g: "sound_world lib w" "tc_GetWorkflow ?tc (workflowID i) w = (Inr result, w')"
  proof -
    let ?\<sigma> = "run_events lib (plan (workflowID i) (sys_of w)) (sys_of w)"
    obtain r where r: "run_of ?\<sigma> (workflowID i) = Some r" "wf_phase r = Completed result" "w' = put_sys ?\<sigma>"
      using g(2) by (auto simp: sys_client_defs Let_def split: option.splits Phase.splits)
    have "service_ok lib ?\<sigma>" using g(1) unfolding sound_world_def by (rule run_events_ok)
    then have "run_ok lib (workflowID i) r (fst (sys_store ?\<sigma>))" using r(1) by (simp add: service_ok_def)
    from run_completed(6,7) [OF this r(2)] r(3) show ?thesis
      by (auto simp: bill_closed_def workflowID_def)
  qed
  show "bill_ID b = i" if q: "sound_world lib w" "tc_QueryWorkflow ?tc (workflowID i) w = Inr (Inr b)" for b
  proof -
    obtain r where r: "run_of (sys_of w) (workflowID i) = Some r" "b = wf_bill r"
      using q(2) by (auto simp: sys_client_defs split: option.splits Phase.splits if_splits)
    then have "run_ok lib (workflowID i) r (fst (sys_store (sys_of w)))"
      using q(1) by (simp add: sound_world_def service_ok_def)
    with r(2) show ?thesis by (auto simp: run_ok_def run_identity_def same_identity_def workflowID_def)
  qed
qed

subsection \<open>The states of the service\<close>

text \<open>
  The states the service passes through: from a seeded database, each request of a mutating
  endpoint, behind the middleware, and each event of the workflows in the background.
\<close>

inductive served :: "'d::linordered_ab_group_add lib \<Rightarrow> ('d, 'd Sys) World \<Rightarrow> bool" for lib where
  served_init: "sys_init \<sigma> \<Longrightarrow> served lib (put_sys \<sigma>)"
| served_create: "served lib w \<Longrightarrow>
    RequireActiveCaller data (CreateBill lib (sys_client lib now plan retained) rd reg data fresh creq) w = (cr, w') \<Longrightarrow>
    served lib w'"
| served_add: "served lib w \<Longrightarrow>
    RequireActiveCaller data (AddLineItem lib (sys_client lib now plan retained) reg data fresh i areq) w = (ar, w') \<Longrightarrow>
    served lib w'"
| served_close: "served lib w \<Longrightarrow>
    RequireActiveCaller data (CloseBill lib (sys_client lib now plan retained) rd data i) w = (lr, w') \<Longrightarrow>
    served lib w'"
| served_event: "served lib w \<Longrightarrow> sys_step lib e (sys_of w) = Some \<sigma> \<Longrightarrow> served lib (put_sys \<sigma>)"

lemma RequireActiveCaller_world:
  "RequireActiveCaller data f w = (r, w') \<Longrightarrow> w' = w \<or> f w = (r, w')"
  by (auto simp: RequireActiveCaller_def split: option.splits)

lemma served_sound: "served lib w \<Longrightarrow> sound_world lib w"
proof (induction rule: served.induct)
  case (served_init \<sigma>)
  then show ?case by (simp add: sound_world_def service_ok_init)
next
  case (served_create w data now plan retained rd reg fresh creq cr w')
  from RequireActiveCaller_world [OF served_create.hyps(2)] show ?case
    using served_create.IH temporal.CreateBill_sound by blast
next
  case (served_add w data now plan retained reg fresh i areq ar w')
  from RequireActiveCaller_world [OF served_add.hyps(2)] show ?case
    using served_add.IH temporal.AddLineItem_sound by blast
next
  case (served_close w data now plan retained rd i lr w')
  from RequireActiveCaller_world [OF served_close.hyps(2)] show ?case
    using served_close.IH temporal.CloseBill_sound by blast
next
  case (served_event w e \<sigma>)
  then show ?case by (simp add: sound_world_def service_ok_step)
qed

lemma served_db_ok: "served lib w \<Longrightarrow> db_ok (world_db w)"
  using served_sound by (fastforce simp: sound_world_def service_ok_def world_db_sys)

text \<open>Every state of the system of theory \<open>System\<close> is one of them.\<close>

lemma served_reachable: "reachable lib always \<sigma> \<Longrightarrow> served lib (put_sys \<sigma>)"
proof (induction rule: reachable.induct)
  case (reach_init \<sigma>)
  then show ?case by (rule served_init)
next
  case (reach_step \<sigma> e \<sigma>')
  then show ?case using served_event [OF reach_step.IH] by simp
qed

text \<open>A bill whose run is closed: CloseBill reads the row and changes nothing.\<close>

lemma CloseBill_again:
  assumes "\<not> open_run (run_of (sys_of w) (workflowID i))"
  shows "CloseBill lib (sys_client lib now plan retained) rd data i w =
    (case assertOwnsBill lib (sys_client lib now plan retained) rd data i w of
       Some e \<Rightarrow> Inl e | None \<Rightarrow> closeBillFromDB lib rd i w, w)"
  using assms by (simp add: CloseBill_def sys_client_defs errors_Is_def split: option.splits)

text \<open>CreateBill for a bill whose run is open: the request is echoed.\<close>

lemma CreateBill_again:
  assumes "valid_bill_request reg req"
    and "open_run (run_of (sys_of w) (workflowID (newBillID lib fresh (callerAccountID data) (cq_IdempotencyKey req))))"
  shows "CreateBill lib (sys_client lib now plan retained) rd reg data fresh req w =
    (Inr \<lparr>cp_BillID = newBillID lib fresh (callerAccountID data) (cq_IdempotencyKey req),
       cp_Status = ''OPEN'', cp_Currency = cq_Currency req, cp_PeriodStart = cq_PeriodStart req,
       cp_PeriodEnd = cq_PeriodEnd req\<rparr>, w)"
  using assms
  by (simp add: valid_bill_request_def CreateBill_def Let_def sys_client_defs createInput_def
      sys_step.simps enabled_def)

end
