(* ===== verification/Ledger.thy ===== *)
theory Ledger
  imports RunInvariants
begin

section \<open>The persisted ledger\<close>

text \<open>
  What the activities keep true of the database as a whole: the running total of an open bill
  is the sum of its line items, and the audit log has one ITEM_ADDED event per line item and one
  OPENED event per bill. Both are interpretations of one contract, \<open>store_invariant\<close>. The first
  rests on laws of the \<open>NUMERIC(30,10)\<close> column, the locale \<open>numeric_column\<close>; theory
  \<open>Samples\<close> shows that rounding to ten decimals satisfies them.
\<close>

subsection \<open>A predicate of the database every activity keeps\<close>

locale store_invariant =
  fixes lib :: "'d::linordered_ab_group_add lib"
    and J :: "'d DB \<Rightarrow> bool"
  assumes empty: "bills db = [] \<Longrightarrow> line_items db = [] \<Longrightarrow> bill_events db = [] \<Longrightarrow> J db"
    and create_body: "J (fst s) \<Longrightarrow> db_ok (fst s) \<Longrightarrow> bill_Status b = BillStatusOpen \<Longrightarrow>
      CreateBillTx lib env b s = (Inr (), s') \<Longrightarrow> J (fst s')"
    and append_body: "J (fst s) \<Longrightarrow> db_ok (fst s) \<Longrightarrow> AppendLineItemTx lib env inp s = (Inr (), s') \<Longrightarrow> J (fst s')"
    and close_body: "J (fst s) \<Longrightarrow> db_ok (fst s) \<Longrightarrow> cb_CloseReason cin \<noteq> CloseReasonNone \<Longrightarrow>
      CloseBillTx lib env cin s = (Inr (), s') \<Longrightarrow> J (fst s')"
begin

lemma run_inv:
  assumes "J (fst s)" "inTx env op fn s = (r, s')" "fn s = (Inr (), s') \<Longrightarrow> J (fst s')"
  shows "J (fst s')"
  using assms(2) by (cases rule: inTx_cases) (use assms(1,3) in auto)

lemma run_create:
  assumes "J (fst s)" "db_ok (fst s)" "CreateBillActivity lib env b s = (r, s')"
    "bill_Status b = BillStatusOpen"
  shows "J (fst s')"
  using assms(3) unfolding CreateBillActivity_def
  by (rule run_inv [OF assms(1)]) (rule create_body [OF assms(1,2,4)])

lemma run_append:
  assumes "J (fst s)" "db_ok (fst s)" "AppendLineItemActivity lib env inp s = (r, s')"
  shows "J (fst s')"
  using assms(3) unfolding AppendLineItemActivity_def
  by (rule run_inv [OF assms(1)]) (rule append_body [OF assms(1,2)])

lemma run_close:
  assumes "J (fst s)" "db_ok (fst s)" "CloseBillActivity lib env cin s = (r, s')"
    "cb_CloseReason cin \<noteq> CloseReasonNone"
  shows "J (fst s')"
  using assms(3) unfolding CloseBillActivity_def
  by (rule run_inv [OF assms(1)]) (rule close_body [OF assms(1,2,4)])

lemma step:
  assumes "J (fst s)" "db_ok (fst s)" "wf_step lib ev w s = Some (w', s', rs)" "run_phase w"
  shows "J (fst s')"
  using assms(3)
proof (cases rule: wf_step_store)
  case same
  with assms(1) show ?thesis by simp
next
  case (create env r a)
  with assms(4) have "bill_Status (wf_bill w) = BillStatusOpen" by (simp add: run_phase_def)
  with create(2) show ?thesis by (rule run_create [OF assms(1,2)])
next
  case (append env r inp)
  then show ?thesis by (rule run_append [OF assms(1,2)])
next
  case (close env r inp a)
  with assms(4) have "cb_CloseReason inp \<noteq> CloseReasonNone" by (simp add: run_phase_def)
  with close(2) show ?thesis by (rule run_close [OF assms(1,2)])
qed

lemma holds: "reachable lib G \<sigma> \<Longrightarrow> J (fst (sys_store \<sigma>))"
proof (induction rule: reachable.induct)
  case (reach_init \<sigma>)
  then show ?case by (simp add: sys_init_def empty)
next
  case (reach_step \<sigma> e \<sigma>')
  from reach_step.hyps(3) show ?case
  proof (cases rule: sys_step_cases)
    case (ran wid ev w w' s' rs)
    then have "run_phase w" using run.holds [OF reach_step.hyps(1)] by (auto simp: run_ok_def)
    with step [OF reach_step.IH reachable_db_ok [OF reach_step.hyps(1)] ran(3)] ran(4)
    show ?thesis by simp
  qed (use reach_step.IH in auto)
qed

end

subsection \<open>What the statements do to a bill's rows\<close>

lemma insert_bill_effect:
  "insert_bill lib b db = Inr (u, db') \<Longrightarrow>
   pg_uuid lib (bill_ID b) = Some u \<and> find_bill u db = None \<and>
   line_items db' = line_items db \<and> bill_events db' = bill_events db \<and>
   (\<forall>v. find_bill v db' = (if v = u then Some
      \<lparr>br_id = u, br_account_id = bill_AccountID b, br_status = bill_Status b,
       br_currency = bill_Currency b, br_total_amount = 0,
       br_created_at = pg_time lib (bill_CreatedAt b), br_closed_at = None,
       br_period_start = map_option (pg_time lib) (bill_PeriodStart b),
       br_period_end = map_option (pg_time lib) (bill_PeriodEnd b),
       br_close_reason = None\<rparr> else find_bill v db))"
  by (auto simp: insert_bill_def split: option.splits if_splits)

lemma insert_line_item_effect:
  "insert_line_item lib bid it db = Inr (i, db') \<Longrightarrow>
   \<exists>u a b row. pg_uuid lib (li_ID it) = Some i \<and> pg_uuid lib bid = Some u \<and>
     pg_numeric lib (li_Amount it) = Some a \<and> 0 < a \<and> find_item i db = None \<and>
     find_bill u db = Some b \<and>
     row = \<lparr>lr_id = i, lr_bill_id = u, lr_description = li_Description it, lr_amount = a,
            lr_currency = li_Currency it, lr_created_at = pg_time lib (li_CreatedAt it)\<rparr> \<and>
     db' = db\<lparr>line_items := line_items db @ [row]\<rparr>"
  by (auto simp: insert_line_item_def split: option.splits if_splits)

lemma update_bill_total_effect:
  "update_bill_total lib bid a db = Inr db' \<Longrightarrow> pg_uuid lib bid = Some u \<Longrightarrow>
   find_bill u db = Some b \<Longrightarrow>
   \<exists>t. pg_numeric lib (br_total_amount b + a) = Some t \<and>
     db' = db\<lparr>bills := upd_where br_id u (br_total_amount_update (\<lambda>_. t)) (bills db)\<rparr>"
  by (auto simp: update_bill_total_def split: option.splits)

lemma update_bill_close_effect:
  "update_bill_close lib bid amt at reason db = Inr db' \<Longrightarrow> pg_uuid lib bid = Some u \<Longrightarrow>
   find_bill u db = Some b \<Longrightarrow>
   \<exists>t. pg_numeric lib amt = Some t \<and>
     db' = db\<lparr>bills := upd_where br_id u (close_row t (pg_time lib at) reason) (bills db)\<rparr>"
  by (auto simp: update_bill_close_def split: option.splits if_splits)

lemma insert_event_effect:
  "insert_event lib fresh now bid kind actor p db = Inr db' \<Longrightarrow> pg_uuid lib bid = Some u \<Longrightarrow>
   \<exists>ev. er_bill_id ev = u \<and> er_kind ev = kind \<and> er_actor ev = actor \<and> er_payload ev = p \<and>
     er_id ev = fresh \<and> find_bill u db \<noteq> None \<and>
     db' = db\<lparr>bill_events := bill_events db @ [ev]\<rparr>"
  by (rule exI [of _ "\<lparr>er_id = fresh, er_bill_id = u, er_kind = kind, er_actor = actor,
        er_payload = p, er_created_at = now\<rparr>"])
    (auto simp: insert_event_def split: option.splits if_splits)

text \<open>
  A committed AppendLineItem posts the item: the row, the new total and the event together.
\<close>

definition post_item :: "'d ItemRow \<Rightarrow> 'd \<Rightarrow> EventRow \<Rightarrow> 'd DB \<Rightarrow> 'd DB" where
  "post_item row t ev db =
     db\<lparr>bills := upd_where br_id (lr_bill_id row) (br_total_amount_update (\<lambda>_. t)) (bills db),
        line_items := line_items db @ [row], bill_events := bill_events db @ [ev]\<rparr>"

definition itemRow :: "'d lib \<Rightarrow> string \<Rightarrow> string \<Rightarrow> 'd \<Rightarrow> 'd LineItem \<Rightarrow> 'd ItemRow" where
  "itemRow lib i u a it =
     \<lparr>lr_id = i, lr_bill_id = u, lr_description = li_Description it, lr_amount = a,
      lr_currency = li_Currency it, lr_created_at = pg_time lib (li_CreatedAt it)\<rparr>"

lemma AppendLineItemTx_effect:
  fixes s :: "'d::{zero,ord,plus} Store"
  assumes "AppendLineItemTx lib env inp s = (Inr (), s')"
  obtains (conflict) "s' = (fst s, LineItemsAdded ''duplicate'' # snd s)"
      "item_durable lib (fst s) (li_ID (ap_Item inp))"
  | (posted) i u a b t ev where
      "pg_uuid lib (li_ID (ap_Item inp)) = Some i" "pg_uuid lib (ap_BillID inp) = Some u"
      "pg_numeric lib (li_Amount (ap_Item inp)) = Some a" "0 < a"
      "find_item i (fst s) = None" "find_bill u (fst s) = Some b"
      "pg_numeric lib (br_total_amount b + li_Amount (ap_Item inp)) = Some t"
      "er_bill_id ev = u" "er_kind ev = BillEventItemAdded"
      "s' = (post_item (itemRow lib i u a (ap_Item inp)) t ev (fst s),
             LineItemsAdded ''accepted'' # snd s)"
proof -
  let ?it = "ap_Item inp"
  from AppendLineItemTx_Inr [OF assms] show thesis
  proof (elim disjE conjE exE)
    assume "insert_line_item lib (ap_BillID inp) ?it (fst s) = Inl ErrNoRows"
      "s' = (fst s, LineItemsAdded ''duplicate'' # snd s)"
    then show thesis
      using conflict insert_line_item_ErrNoRows [OF _ errors_Is_refl]
      by (fastforce simp: item_durable_def)
  next
    fix i db1 db2 db3
    assume ins: "insert_line_item lib (ap_BillID inp) ?it (fst s) = Inr (i, db1)"
      and upd: "update_bill_total lib (ap_BillID inp) (li_Amount ?it) db1 = Inr db2"
      and ev: "insert_event lib (tx_fresh env) (tx_now env) (ap_BillID inp) BillEventItemAdded
        (if ap_Actor inp = '''' then SystemActor else ap_Actor inp)
        (ItemAddedPayload (li_ID ?it) (li_Description ?it) (dec_String lib (li_Amount ?it))
          (li_Currency ?it)) db2 = Inr db3"
      and s': "s' = (db3, LineItemsAdded ''accepted'' # snd s)"
    from insert_line_item_effect [OF ins] obtain u a b where
      i: "pg_uuid lib (li_ID ?it) = Some i" "pg_uuid lib (ap_BillID inp) = Some u"
        "pg_numeric lib (li_Amount ?it) = Some a" "0 < a" "find_item i (fst s) = None"
        "find_bill u (fst s) = Some b"
      and db1: "db1 = (fst s)\<lparr>line_items := line_items (fst s) @ [itemRow lib i u a ?it]\<rparr>"
      by (auto simp: itemRow_def)
    have "find_bill u db1 = Some b" using i(6) db1 by simp
    from update_bill_total_effect [OF upd i(2) this] obtain t where
      t: "pg_numeric lib (br_total_amount b + li_Amount ?it) = Some t"
      and db2: "db2 = db1\<lparr>bills := upd_where br_id u (br_total_amount_update (\<lambda>_. t)) (bills db1)\<rparr>"
      by blast
    from insert_event_effect [OF ev i(2)] obtain e where
      e: "er_bill_id e = u" "er_kind e = BillEventItemAdded"
      and db3: "db3 = db2\<lparr>bill_events := bill_events db2 @ [e]\<rparr>" by blast
    have "db3 = post_item (itemRow lib i u a ?it) t e (fst s)"
      by (simp add: db1 db2 db3 post_item_def itemRow_def)
    with posted i t e s' show thesis by blast
  qed
qed

lemma CreateBillTx_effect:
  fixes s :: "'d::{zero,ord} Store"
  assumes "CreateBillTx lib env b s = (Inr (), s')"
  obtains (conflict) "s' = s" "bill_durable lib (fst s) (bill_ID b)"
  | (opened) u ev where "pg_uuid lib (bill_ID b) = Some u" "find_bill u (fst s) = None"
      "line_items (fst s') = line_items (fst s)"
      "bill_events (fst s') = bill_events (fst s) @ [ev]"
      "er_bill_id ev = u" "er_kind ev = BillEventOpened"
      "\<And>v. find_bill v (fst s') = (if v = u then Some
         \<lparr>br_id = u, br_account_id = bill_AccountID b, br_status = bill_Status b,
          br_currency = bill_Currency b, br_total_amount = 0,
          br_created_at = pg_time lib (bill_CreatedAt b), br_closed_at = None,
          br_period_start = map_option (pg_time lib) (bill_PeriodStart b),
          br_period_end = map_option (pg_time lib) (bill_PeriodEnd b),
          br_close_reason = None\<rparr> else find_bill v (fst s))"
      "snd s' = BillsOpened (bill_Currency b) # snd s"
proof -
  from CreateBillTx_Inr [OF assms] show thesis
  proof (elim disjE conjE exE)
    assume "s' = s" "insert_bill lib b (fst s) = Inl ErrNoRows"
    then show thesis
      using conflict insert_bill_ErrNoRows [OF _ errors_Is_refl] by (fastforce simp: bill_durable_def)
  next
    fix u db1 db2
    assume ins: "insert_bill lib b (fst s) = Inr (u, db1)"
      and ev: "insert_event lib (tx_fresh env) (tx_now env) (bill_ID b) BillEventOpened
        (if bill_AccountID b = '''' then SystemActor else bill_AccountID b)
        (OpenedPayload (bill_Currency b) (bill_PeriodStart b) (bill_PeriodEnd b)) db1 = Inr db2"
      and s': "s' = (db2, BillsOpened (bill_Currency b) # snd s)"
    note i = insert_bill_effect [OF ins]
    from insert_event_effect [OF ev] i obtain e where
      "er_bill_id e = u" "er_kind e = BillEventOpened" "db2 = db1\<lparr>bill_events := bill_events db1 @ [e]\<rparr>"
      by blast
    with i s' show thesis by (intro opened [of u e]) simp_all
  qed
qed

lemma CloseBillTx_effect:
  assumes "CloseBillTx lib env inp s = (Inr (), s')"
  obtains u t b ev where "pg_uuid lib (cb_BillID inp) = Some u" "find_bill u (fst s) = Some b"
    "pg_numeric lib (cb_TotalAmount inp) = Some t"
    "er_bill_id ev = u" "er_kind ev = BillEventClosed"
    "er_actor ev = (if cb_Actor inp = '''' then SystemActor else cb_Actor inp)"
    "fst s' = (fst s)\<lparr>bills := upd_where br_id u
        (close_row t (pg_time lib (cb_ClosedAt inp)) (nullableCloseReason (cb_CloseReason inp)))
        (bills (fst s)), bill_events := bill_events (fst s) @ [ev]\<rparr>"
    "snd s' = BillsClosed (reason_string (cb_CloseReason inp)) # snd s"
proof -
  from CloseBillTx_Inr [OF assms] obtain db1 db2 where
    upd: "update_bill_close lib (cb_BillID inp) (cb_TotalAmount inp) (cb_ClosedAt inp)
      (nullableCloseReason (cb_CloseReason inp)) (fst s) = Inr db1"
    and ev: "insert_event lib (tx_fresh env) (tx_now env) (cb_BillID inp) BillEventClosed
        (if cb_Actor inp = '''' then SystemActor else cb_Actor inp)
        (ClosedPayload (dec_String lib (cb_TotalAmount inp)) (cb_CloseReason inp)) db1 = Inr db2"
    and s': "s' = (db2, BillsClosed (reason_string (cb_CloseReason inp)) # snd s)" by blast
  from upd obtain u where u: "pg_uuid lib (cb_BillID inp) = Some u"
    by (auto simp: update_bill_close_def split: option.splits)
  from insert_event_effect [OF ev u] obtain e where
    e: "er_bill_id e = u" "er_kind e = BillEventClosed"
      "er_actor e = (if cb_Actor inp = '''' then SystemActor else cb_Actor inp)"
    and ex: "find_bill u db1 \<noteq> None" and db2: "db2 = db1\<lparr>bill_events := bill_events db1 @ [e]\<rparr>"
    by blast
  from ex upd u obtain b where b: "find_bill u (fst s) = Some b"
    by (auto simp: update_bill_close_def split: option.splits if_splits)
  from update_bill_close_effect [OF upd u b] obtain t where
    "pg_numeric lib (cb_TotalAmount inp) = Some t"
    "db1 = (fst s)\<lparr>bills := upd_where br_id u
        (close_row t (pg_time lib (cb_ClosedAt inp)) (nullableCloseReason (cb_CloseReason inp)))
        (bills (fst s))\<rparr>" by blast
  with that [OF u b _ e] s' db2 show thesis by simp
qed

subsection \<open>The running total\<close>

text \<open>
  What the code relies on from a \<open>NUMERIC(30,10)\<close> column: zero is stored as it is, a stored
  value is stored again unchanged, and adding to a stored value and storing the sum is the same
  as adding the stored summand (rounding is to a fixed scale); rounding keeps the sign.
\<close>

locale numeric_column =
  fixes num :: "'d::linordered_ab_group_add \<Rightarrow> 'd option"
  assumes num_zero: "num 0 = Some 0"
    and num_idem: "num x = Some y \<Longrightarrow> num y = Some y"
    and num_add: "num t = Some t \<Longrightarrow> 0 \<le> t \<Longrightarrow> 0 < a \<Longrightarrow> num (t + a) = Some s \<Longrightarrow>
      \<exists>a'. num a = Some a' \<and> s = t + a'"
    and num_pos: "num x = Some y \<Longrightarrow> 0 < y \<Longrightarrow> 0 < x"
begin

lemma num_sum:
  assumes "num t = Some t" "0 \<le> t" "0 < a" "num a = Some a'" "num (t + a) = Some s"
  shows "s = t + a'"
  using num_add [OF assms(1,2,3,5)] assms(4) by simp

end

definition row_balanced :: "'d lib \<Rightarrow> 'd::linordered_ab_group_add DB \<Rightarrow> string \<Rightarrow> 'd BillRow \<Rightarrow> bool" where
  "row_balanced lib db u r \<longleftrightarrow>
     items_total u db = br_total_amount r \<and>
     pg_numeric lib (br_total_amount r) = Some (br_total_amount r) \<and> 0 \<le> br_total_amount r"

definition balanced :: "'d lib \<Rightarrow> 'd::linordered_ab_group_add DB \<Rightarrow> bool" where
  "balanced lib db \<longleftrightarrow>
     (\<forall>u r. find_bill u db = Some r \<longrightarrow> br_status r = BillStatusOpen \<longrightarrow> row_balanced lib db u r) \<and>
     (\<forall>r\<in>set (line_items db). pg_numeric lib (lr_amount r) = Some (lr_amount r))"

lemma no_bill_no_items: "db_ok db \<Longrightarrow> find_bill u db = None \<Longrightarrow> items_of u db = []"
  by (auto simp: db_ok_def find_bill_None items_of_def filter_empty_conv)

lemma find_bill_post [simp]:
  "find_bill v (post_item row t ev db) =
     (if v = lr_bill_id row then map_option (br_total_amount_update (\<lambda>_. t)) (find_bill v db)
      else find_bill v db)"
  by (simp add: post_item_def find_bill_def find_upd_where)

lemma items_of_post [simp]:
  "items_of v (post_item row t ev db) = items_of v db @ (if lr_bill_id row = v then [row] else [])"
  by (simp add: post_item_def items_of_def)

lemma items_total_post [simp]:
  "items_total v (post_item row t ev db) =
     items_total v db + (if lr_bill_id row = v then lr_amount row else 0)"
  by (simp add: items_total_def)

lemma line_items_post [simp]: "line_items (post_item row t ev db) = line_items db @ [row]"
  by (simp add: post_item_def)

lemma itemRow_simps [simp]:
  "lr_id (itemRow lib i u a it) = i" "lr_bill_id (itemRow lib i u a it) = u"
  "lr_amount (itemRow lib i u a it) = a"
  by (simp_all add: itemRow_def)

locale ledger_lib = numeric_column "pg_numeric lib"
  for lib :: "'d::linordered_ab_group_add lib"
begin

lemma balanced_create:
  assumes bal: "balanced lib (fst s)" and ok: "db_ok (fst s)"
    and run: "CreateBillTx lib env b s = (Inr (), s')"
  shows "balanced lib (fst s')"
  using run
proof (cases rule: CreateBillTx_effect)
  case (opened u ev)
  have "items_total v (fst s') = items_total v (fst s)" for v
    using opened(3) by (simp add: items_total_def items_of_def)
  moreover have "items_total u (fst s) = 0"
    using no_bill_no_items [OF ok opened(2)] by (simp add: items_total_def)
  ultimately have "row_balanced lib (fst s') v r"
    if "find_bill v (fst s') = Some r" "br_status r = BillStatusOpen" for v r
    using bal that opened(7) num_zero by (auto simp: balanced_def row_balanced_def split: if_splits)
  then show ?thesis using bal opened(3) by (simp add: balanced_def)
qed (use bal in simp)

lemma balanced_append:
  assumes bal: "balanced lib (fst s)"
    and run: "AppendLineItemTx lib env inp s = (Inr (), s')"
  shows "balanced lib (fst s')"
  using run
proof (cases rule: AppendLineItemTx_effect)
  case (posted i u a b t ev)
  have "row_balanced lib (fst s') u (b\<lparr>br_total_amount := t\<rparr>)" if "br_status b = BillStatusOpen"
  proof -
    have b: "row_balanced lib (fst s) u b" using bal posted(6) that by (simp add: balanced_def)
    then have "t = br_total_amount b + a"
      using num_sum [OF _ _ num_pos [OF posted(3,4)] posted(3,7)] by (simp add: row_balanced_def)
    moreover have "pg_numeric lib t = Some t" using posted(7) by (rule num_idem)
    ultimately show ?thesis using b posted(4,10) by (auto simp: row_balanced_def)
  qed
  moreover have "row_balanced lib (fst s') v r"
    if "find_bill v (fst s) = Some r" "br_status r = BillStatusOpen" "v \<noteq> u" for v r
    using bal that posted(10) by (simp add: balanced_def row_balanced_def)
  ultimately show ?thesis
    using bal posted(3,6,10) num_idem by (auto simp: balanced_def split: if_splits)
qed (use bal in simp)

lemma balanced_close:
  assumes bal: "balanced lib (fst s)" and run: "CloseBillTx lib env cin s = (Inr (), s')"
  shows "balanced lib (fst s')"
  using run
proof (cases rule: CloseBillTx_effect)
  case (1 u t b ev)
  have "items_total v (fst s') = items_total v (fst s)" for v
    by (simp add: 1(7) items_total_def items_of_def)
  moreover have "find_bill v (fst s') =
    (if v = u then map_option (close_row t (pg_time lib (cb_ClosedAt cin))
       (nullableCloseReason (cb_CloseReason cin))) (find_bill v (fst s)) else find_bill v (fst s))" for v
    by (simp add: 1(7) find_bill_def find_upd_where)
  ultimately show ?thesis
    using bal 1(2,7) by (auto simp: balanced_def row_balanced_def close_row_def split: if_splits)
qed

end

sublocale ledger_lib \<subseteq> books: store_invariant lib "balanced lib"
proof
  show "balanced lib db" if "bills db = []" "line_items db = []" "bill_events db = []" for db
    using that by (simp add: balanced_def find_bill_def)
qed (blast intro: balanced_create balanced_append balanced_close)+

subsection \<open>The audit log\<close>

definition count_events :: "string \<Rightarrow> BillEventKind \<Rightarrow> 'd DB \<Rightarrow> nat" where
  "count_events u k db = length (filter (\<lambda>e. er_bill_id e = u \<and> er_kind e = k) (bill_events db))"

lemma count_events_append:
  "bill_events db' = bill_events db @ [ev] \<Longrightarrow>
   count_events u k db' = count_events u k db + (if er_bill_id ev = u \<and> er_kind ev = k then 1 else 0)"
  by (simp add: count_events_def)

lemma count_events_post [simp]:
  "count_events u k (post_item row t ev db) =
     count_events u k db + (if er_bill_id ev = u \<and> er_kind ev = k then 1 else 0)"
  by (simp add: count_events_def post_item_def)

definition audited :: "'d DB \<Rightarrow> bool" where
  "audited db \<longleftrightarrow> (\<forall>u.
     count_events u BillEventItemAdded db = length (items_of u db) \<and>
     count_events u BillEventOpened db = (if find_bill u db = None then 0 else 1) \<and>
     (0 < count_events u BillEventClosed db \<longleftrightarrow>
        (\<exists>r. find_bill u db = Some r \<and> br_status r = BillStatusClosed)))"

interpretation audit: store_invariant lib audited for lib :: "'d::linordered_ab_group_add lib"
proof
  show "audited db" if "bills db = []" "line_items db = []" "bill_events db = []" for db :: "'d DB"
    using that by (simp add: audited_def count_events_def items_of_def find_bill_def)
next
  fix s s' :: "'d Store" and env b
  assume a: "audited (fst s)" "db_ok (fst s)" "bill_Status b = BillStatusOpen"
    and run: "CreateBillTx lib env b s = (Inr (), s')"
  show "audited (fst s')"
    using run
  proof (cases rule: CreateBillTx_effect)
    case (opened u ev)
    have "items_of v (fst s') = items_of v (fst s)" for v using opened(3) by (simp add: items_of_def)
    with a opened(2,5-7) count_events_append [OF opened(4)] show ?thesis by (auto simp: audited_def)
  qed (use a in simp)
next
  fix s s' :: "'d Store" and env inp
  assume a: "audited (fst s)" "db_ok (fst s)"
    and run: "AppendLineItemTx lib env inp s = (Inr (), s')"
  show "audited (fst s')"
    using run
  proof (cases rule: AppendLineItemTx_effect)
    case (posted i u am b t ev)
    with a show ?thesis by (auto simp: audited_def)
  qed (use a in simp)
next
  fix s s' :: "'d Store" and env cin
  assume a: "audited (fst s)" "db_ok (fst s)"
    and run: "CloseBillTx lib env cin s = (Inr (), s')"
  show "audited (fst s')"
    using run
  proof (cases rule: CloseBillTx_effect)
    case (1 u t b ev)
    have "items_of v (fst s') = items_of v (fst s)" for v by (simp add: 1(7) items_of_def)
    moreover have "find_bill v (fst s') =
      (if v = u then map_option (close_row t (pg_time lib (cb_ClosedAt cin))
         (nullableCloseReason (cb_CloseReason cin))) (find_bill v (fst s)) else find_bill v (fst s))" for v
      by (simp add: 1(7) find_bill_def find_upd_where)
    moreover have "count_events v k (fst s') = count_events v k (fst s) +
      (if er_bill_id ev = v \<and> er_kind ev = k then 1 else 0)" for v k
      by (rule count_events_append) (simp add: 1(7))
    ultimately show ?thesis using a 1(2,4,5) by (auto simp: audited_def close_row_def)
  qed
qed

subsection \<open>Retries\<close>

text \<open>A retried CreateBill or AppendLineItem finds its row and leaves the database alone.\<close>

lemma CreateBillActivity_retry:
  fixes s :: "'d::{zero,ord} Store"
  assumes "bill_durable lib (fst s) (bill_ID b)" "CreateBillActivity lib env b s = (r, s')"
  shows "fst s' = fst s"
  using assms(2) unfolding CreateBillActivity_def
proof (cases rule: inTx_cases)
  case finished
  from finished(1) show ?thesis
    by (cases rule: CreateBillTx_effect) (use assms(1) in \<open>auto simp: bill_durable_def\<close>)
next
  case unreported
  from unreported(1) show ?thesis
    by (cases rule: CreateBillTx_effect) (use assms(1) in \<open>auto simp: bill_durable_def\<close>)
qed

lemma AppendLineItemActivity_retry:
  fixes s :: "'d::{zero,ord,plus} Store"
  assumes "item_durable lib (fst s) (li_ID (ap_Item inp))"
    "AppendLineItemActivity lib env inp s = (r, s')"
  shows "fst s' = fst s"
  using assms(2) unfolding AppendLineItemActivity_def
proof (cases rule: inTx_cases)
  case finished
  from finished(1) show ?thesis
    by (cases rule: AppendLineItemTx_effect) (use assms(1) in \<open>auto simp: item_durable_def\<close>)
next
  case unreported
  from unreported(1) show ?thesis
    by (cases rule: AppendLineItemTx_effect) (use assms(1) in \<open>auto simp: item_durable_def\<close>)
qed

text \<open>Every attempt of AppendLineItem either changes nothing or posts the item.\<close>

lemma AppendLineItemActivity_cases:
  fixes s :: "'d::{zero,ord,plus} Store"
  assumes "AppendLineItemActivity lib env inp s = (r, s')"
  obtains (unchanged) "fst s' = fst s"
  | (posted) i u a b t ev where
      "pg_uuid lib (li_ID (ap_Item inp)) = Some i" "pg_uuid lib (ap_BillID inp) = Some u"
      "pg_numeric lib (li_Amount (ap_Item inp)) = Some a" "0 < a"
      "find_item i (fst s) = None" "find_bill u (fst s) = Some b"
      "pg_numeric lib (br_total_amount b + li_Amount (ap_Item inp)) = Some t"
      "er_bill_id ev = u" "er_kind ev = BillEventItemAdded"
      "fst s' = post_item (itemRow lib i u a (ap_Item inp)) t ev (fst s)"
proof -
  have body: thesis if "AppendLineItemTx lib env inp s = (Inr (), s')"
    using that by (cases rule: AppendLineItemTx_effect) (use unchanged posted in auto)
  from assms show thesis unfolding AppendLineItemActivity_def
    by (cases rule: inTx_cases) (use body unchanged in blast)+
qed

end
