(* ===== verification/Agreement.thy ===== *)
theory Agreement
  imports Ledger
begin

section \<open>Agreement of workflow and database\<close>

text \<open>
  The total a workflow accumulates and the line items its activities write are kept apart: the
  workflow counts an item when its activity returns, the database has it when the transaction
  commits. \<open>undisturbed\<close> names the circumstances under which they agree when the bill closes;
  theory \<open>Divergence\<close> shows executions outside each of them where they do not.
\<close>

definition committed :: "'d lib \<Rightarrow> 'd DB \<Rightarrow> 'd Handler \<Rightarrow> bool" where
  "committed lib db h \<longleftrightarrow>
     (case pg_uuid lib (in_ItemID (h_in h)) of None \<Rightarrow> False | Some i \<Rightarrow> find_item i db \<noteq> None)"

lemma committed_durable: "committed lib db h \<longleftrightarrow> item_durable lib db (in_ItemID (h_in h))"
  by (auto simp: committed_def item_durable_def split: option.splits)

text \<open>The item ids the handlers of a run are working on, as the UUIDs they denote.\<close>

definition claimed :: "'d lib \<Rightarrow> 'd Handler list \<Rightarrow> string list" where
  "claimed lib hs = List.map_filter (\<lambda>h. pg_uuid lib (in_ItemID (h_in h))) hs"

text \<open>
  \<^item> a workflow is started only for a bill that has no row and no other workflow;
  \<^item> an item id that is not a repetition is new: no line item has it and no handler of any
    workflow is working on it;
  \<^item> its amount fits the column exactly;
  \<^item> no item is accepted once the run has started to close;
  \<^item> an activity is not given up after one of its attempts has committed.
\<close>

definition opens_new_bill :: "'d lib \<Rightarrow> 'd Sys \<Rightarrow> 'd BillWorkflowInput \<Rightarrow> bool" where
  "opens_new_bill lib \<sigma> inp \<longleftrightarrow>
     (case pg_uuid lib (wi_BillID inp) of
        None \<Rightarrow> True
      | Some u \<Rightarrow> find_bill u (fst (sys_store \<sigma>)) = None \<and>
          (\<forall>p\<in>set (sys_wfs \<sigma>). fst p \<noteq> workflowID (wi_BillID inp) \<longrightarrow>
             pg_uuid lib (wi_BillID (wf_input (snd p))) \<noteq> Some u))"

definition new_item_id :: "'d lib \<Rightarrow> 'd Sys \<Rightarrow> 'd AddLineItemInput \<Rightarrow> bool" where
  "new_item_id lib \<sigma> inp \<longleftrightarrow>
     (case pg_uuid lib (in_ItemID inp) of
        None \<Rightarrow> True
      | Some i \<Rightarrow> find_item i (fst (sys_store \<sigma>)) = None \<and>
          (\<forall>p\<in>set (sys_wfs \<sigma>). i \<notin> set (claimed lib (wf_handlers (snd p)))))"

fun is_closing :: "'d Phase \<Rightarrow> bool" where
  "is_closing (Closing _ _) = True"
| "is_closing _ = False"

definition admissible_update :: "'d lib \<Rightarrow> 'd Sys \<Rightarrow> 'd WF \<Rightarrow> 'd::{zero,ord} AddLineItemInput \<Rightarrow> bool" where
  "admissible_update lib \<sigma> w inp \<longleftrightarrow>
     validateAddLineItem (wf_bill w) inp \<noteq> None \<or> in_ItemID inp \<in> wf_seen w \<or>
     (new_item_id lib \<sigma> inp \<and> pg_numeric lib (in_Amount inp) = Some (in_Amount inp) \<and>
      \<not> is_closing (wf_phase w))"

fun undisturbed_run :: "'d lib \<Rightarrow> 'd Sys \<Rightarrow> 'd WF \<Rightarrow> 'd::{zero,ord} Event \<Rightarrow> bool" where
  "undisturbed_run lib \<sigma> w (UpdateArrives inp now) = admissible_update lib \<sigma> w inp"
| "undisturbed_run lib \<sigma> w (AppendGivesUp k d) =
     (k < length (wf_handlers w) \<longrightarrow> \<not> committed lib (fst (sys_store \<sigma>)) (wf_handlers w ! k))"
| "undisturbed_run lib \<sigma> w _ = True"

fun undisturbed :: "'d lib \<Rightarrow> 'd Sys \<Rightarrow> 'd::{zero,ord} SysEvent \<Rightarrow> bool" where
  "undisturbed lib \<sigma> (StartWorkflow inp now) = opens_new_bill lib \<sigma> inp"
| "undisturbed lib \<sigma> (RunEvent wid ev) =
     (case run_of \<sigma> wid of None \<Rightarrow> True | Some w \<Rightarrow> undisturbed_run lib \<sigma> w ev)"
| "undisturbed lib \<sigma> (NextRun wid now n) = True"

subsection \<open>The invariant\<close>

text \<open>
  Committed items that the workflow has not counted yet: their amounts, and their number.
\<close>

definition pending_amount :: "'d::comm_monoid_add lib \<Rightarrow> 'd DB \<Rightarrow> 'd Handler list \<Rightarrow> 'd" where
  "pending_amount lib db hs =
     (\<Sum>h\<leftarrow>hs. if committed lib db h then in_Amount (h_in h) else 0)"

definition pending_count :: "'d lib \<Rightarrow> 'd DB \<Rightarrow> 'd Handler list \<Rightarrow> nat" where
  "pending_count lib db hs = length (filter (committed lib db) hs)"

definition agrees :: "'d::linordered_ab_group_add lib \<Rightarrow> 'd DB \<Rightarrow> 'd WF \<Rightarrow> bool" where
  "agrees lib db w \<longleftrightarrow>
     (\<forall>u. pg_uuid lib (bill_ID (wf_bill w)) = Some u \<longrightarrow>
        items_total u db = bill_TotalAmount (wf_bill w) + pending_amount lib db (wf_handlers w) \<and>
        int (length (items_of u db)) =
          bill_ItemCount (wf_bill w) + int (pending_count lib db (wf_handlers w)))"

fun quiet :: "'d WF \<Rightarrow> 'd Phase \<Rightarrow> bool" where
  "quiet w (Closing inp a) \<longleftrightarrow>
     wf_handlers w = [] \<and> cb_TotalAmount inp = bill_TotalAmount (wf_bill w)"
| "quiet w (Completed res) \<longleftrightarrow> wf_handlers w = []"
| "quiet w (Continued inp) \<longleftrightarrow> wf_handlers w = []"
| "quiet w _ \<longleftrightarrow> True"

definition orderly :: "'d::linordered_ab_group_add lib \<Rightarrow> 'd DB \<Rightarrow> 'd WF \<Rightarrow> bool" where
  "orderly lib db w \<longleftrightarrow>
     agrees lib db w \<and> distinct (claimed lib (wf_handlers w)) \<and>
     (\<forall>h\<in>set (wf_handlers w). pg_numeric lib (in_Amount (h_in h)) = Some (in_Amount (h_in h))) \<and>
     quiet w (wf_phase w)"

definition rows_balanced :: "'d lib \<Rightarrow> 'd::linordered_ab_group_add DB \<Rightarrow> bool" where
  "rows_balanced lib db \<longleftrightarrow> (\<forall>u r. find_bill u db = Some r \<longrightarrow> row_balanced lib db u r)"

definition apart :: "'d lib \<Rightarrow> 'd WF \<Rightarrow> 'd WF \<Rightarrow> bool" where
  "apart lib w v \<longleftrightarrow>
     (\<forall>u. pg_uuid lib (bill_ID (wf_bill w)) = Some u \<longrightarrow> pg_uuid lib (bill_ID (wf_bill v)) \<noteq> Some u) \<and>
     set (claimed lib (wf_handlers w)) \<inter> set (claimed lib (wf_handlers v)) = {}"

definition agreement :: "'d lib \<Rightarrow> 'd::linordered_ab_group_add Sys \<Rightarrow> bool" where
  "agreement lib \<sigma> \<longleftrightarrow>
     rows_balanced lib (fst (sys_store \<sigma>)) \<and>
     (\<forall>wid w. run_of \<sigma> wid = Some w \<longrightarrow> orderly lib (fst (sys_store \<sigma>)) w) \<and>
     (\<forall>wid wid' w v. run_of \<sigma> wid = Some w \<longrightarrow> run_of \<sigma> wid' = Some v \<longrightarrow> wid \<noteq> wid' \<longrightarrow> apart lib w v)"

subsection \<open>Handlers as a list with one of them singled out\<close>

lemma claimed_simps [simp]:
  "claimed lib [] = []"
  "claimed lib (hs @ hs') = claimed lib hs @ claimed lib hs'"
  by (simp_all add: claimed_def map_filter_def)

lemma claimed_Cons [simp]:
  "claimed lib (h # hs) =
     (case pg_uuid lib (in_ItemID (h_in h)) of None \<Rightarrow> [] | Some i \<Rightarrow> [i]) @ claimed lib hs"
  by (simp add: claimed_def map_filter_def split: option.splits)

lemma claimed_mem: "i \<in> set (claimed lib hs) \<longleftrightarrow> (\<exists>h\<in>set hs. pg_uuid lib (in_ItemID (h_in h)) = Some i)"
  by (induction hs) (auto split: option.splits)

lemma pending_simps [simp]:
  "pending_amount lib db [] = 0" "pending_count lib db [] = 0"
  "pending_amount lib db (hs @ hs') = pending_amount lib db hs + pending_amount lib db hs'"
  "pending_count lib db (hs @ hs') = pending_count lib db hs + pending_count lib db hs'"
  "pending_amount lib db (h # hs) =
     (if committed lib db h then in_Amount (h_in h) else 0) + pending_amount lib db hs"
  "pending_count lib db (h # hs) = (if committed lib db h then 1 else 0) + pending_count lib db hs"
  by (simp_all add: pending_amount_def pending_count_def)

lemma pending_cong:
  assumes "\<And>h. h \<in> set hs \<Longrightarrow> committed lib db' h = committed lib db h"
  shows "pending_amount lib db' hs = pending_amount lib db hs"
    "pending_count lib db' hs = pending_count lib db hs"
  using assms by (induction hs) auto

lemma one_of_list:
  assumes "k < length hs" "h = hs ! k"
  obtains xs ys where "hs = xs @ h # ys" "take k hs = xs" "drop (Suc k) hs = ys"
    "\<forall>x. hs[k := x] = xs @ x # ys"
  using that [of "take k hs" "drop (Suc k) hs"] assms
  by (metis id_take_nth_drop upd_conv_take_nth_drop)

subsection \<open>What an event does to the line items\<close>

lemma find_item_append_row:
  "find_item j (db\<lparr>line_items := line_items db @ [row]\<rparr>) =
     (case find_item j db of Some r \<Rightarrow> Some r | None \<Rightarrow> if lr_id row = j then Some row else None)"
  by (simp add: find_item_def find_append split: option.splits)

lemma find_item_post [simp]:
  "find_item j (post_item row t ev db) =
     (case find_item j db of Some r \<Rightarrow> Some r | None \<Rightarrow> if lr_id row = j then Some row else None)"
  by (simp add: post_item_def find_item_def find_append split: option.splits)

lemma CreateBillActivity_items:
  fixes s :: "'d::{zero,ord} Store"
  assumes "CreateBillActivity lib env b s = (r, s')"
  shows "line_items (fst s') = line_items (fst s)"
proof -
  have "line_items (fst s') = line_items (fst s)" if "CreateBillTx lib env b s = (Inr (), s')"
    using that by (cases rule: CreateBillTx_effect) auto
  with assms show ?thesis unfolding CreateBillActivity_def by (cases rule: inTx_cases) auto
qed

lemma CloseBillActivity_cases:
  assumes "CloseBillActivity lib env inp s = (r, s')"
  obtains (unchanged) "fst s' = fst s"
  | (marked) u t b ev where "pg_uuid lib (cb_BillID inp) = Some u" "find_bill u (fst s) = Some b"
    "pg_numeric lib (cb_TotalAmount inp) = Some t" "er_bill_id ev = u" "er_kind ev = BillEventClosed"
    "er_actor ev = (if cb_Actor inp = '''' then SystemActor else cb_Actor inp)"
    "fst s' = (fst s)\<lparr>bills := upd_where br_id u
        (close_row t (pg_time lib (cb_ClosedAt inp)) (nullableCloseReason (cb_CloseReason inp)))
        (bills (fst s)), bill_events := bill_events (fst s) @ [ev]\<rparr>"
proof -
  have body: thesis if "CloseBillTx lib env inp s = (Inr (), s')"
    using that by (cases rule: CloseBillTx_effect) (use marked in auto)
  from assms show thesis unfolding CloseBillActivity_def
    by (cases rule: inTx_cases) (use body unchanged in blast)+
qed

lemma CloseBillActivity_items:
  assumes "CloseBillActivity lib env inp s = (r, s')"
  shows "line_items (fst s') = line_items (fst s)"
  using assms by (cases rule: CloseBillActivity_cases) auto

lemma same_items:
  assumes "line_items db' = line_items db"
  shows "items_of u db' = items_of u db" "items_total u db' = items_total u db"
    "find_item i db' = find_item i db" "committed lib db' h = committed lib db h"
    "pending_amount lib db' hs = pending_amount lib db hs"
    "pending_count lib db' hs = pending_count lib db hs"
proof -
  show a: "items_of u db' = items_of u db" "find_item i db' = find_item i db" for u i
    using assms by (simp_all add: items_of_def find_item_def)
  then show "items_total u db' = items_total u db" by (simp add: items_total_def)
  from a show c: "committed lib db' h = committed lib db h" for h
    by (simp add: committed_def split: option.splits)
  from c show "pending_amount lib db' hs = pending_amount lib db hs"
    "pending_count lib db' hs = pending_count lib db hs" by (simp_all cong: pending_cong)
qed

text \<open>
  Seen from another bill: an event of a run only adds line items of its own bill under ids its
  handlers had claimed.
\<close>

lemma wf_step_frame:
  fixes w :: "'d::linordered_ab_group_add WF"
  assumes ok: "run_ok lib wid w (fst s)" and step: "wf_step lib ev w s = Some (w', s', rs)"
  shows "pg_uuid lib (bill_ID (wf_bill w)) \<noteq> Some u \<Longrightarrow> items_of u (fst s') = items_of u (fst s)"
    and "i \<notin> set (claimed lib (wf_handlers w)) \<Longrightarrow> find_item i (fst s') = find_item i (fst s)"
proof -
  have "(pg_uuid lib (bill_ID (wf_bill w)) \<noteq> Some u \<longrightarrow> items_of u (fst s') = items_of u (fst s)) \<and>
    (i \<notin> set (claimed lib (wf_handlers w)) \<longrightarrow> find_item i (fst s') = find_item i (fst s))"
    using step
  proof (cases rule: wf_step_cases)
    case (create_attempt env rep a r)
    from same_items [OF CreateBillActivity_items [OF create_attempt(3)]] show ?thesis by simp
  next
    case (append_attempt k env rep h r)
    have h: "h \<in> set (wf_handlers w)" using append_attempt by simp
    then have "handler_ok (wf_bill w) h" using ok by (simp add: run_ok_def run_accounts_def)
    then have it: "li_ID (h_item h) = in_ItemID (h_in h)" by (auto simp: handler_ok_def newItem_def)
    from append_attempt(5) show ?thesis
    proof (cases rule: AppendLineItemActivity_cases)
      case (posted j v a b t e)
      with it h have "j \<in> set (claimed lib (wf_handlers w))"
        by (auto simp: claimed_mem appendInput_def)
      with posted show ?thesis by (auto simp: appendInput_def split: option.splits)
    qed simp
  next
    case (close_attempt env rep inp a r)
    from same_items [OF CloseBillActivity_items [OF close_attempt(3)]] show ?thesis by simp
  qed simp_all
  then show "pg_uuid lib (bill_ID (wf_bill w)) \<noteq> Some u \<Longrightarrow> items_of u (fst s') = items_of u (fst s)"
    "i \<notin> set (claimed lib (wf_handlers w)) \<Longrightarrow> find_item i (fst s') = find_item i (fst s)" by blast+
qed

lemma orderly_frame:
  assumes "orderly lib db w"
    and "\<And>u. pg_uuid lib (bill_ID (wf_bill w)) = Some u \<Longrightarrow> items_of u db' = items_of u db"
    and "\<And>i. i \<in> set (claimed lib (wf_handlers w)) \<Longrightarrow> find_item i db' = find_item i db"
  shows "orderly lib db' w"
proof -
  have "committed lib db' h = committed lib db h" if "h \<in> set (wf_handlers w)" for h
  proof (cases "pg_uuid lib (in_ItemID (h_in h))")
    case (Some i)
    with that have "i \<in> set (claimed lib (wf_handlers w))" by (auto simp: claimed_mem)
    from assms(3) [OF this] Some show ?thesis by (simp add: committed_def)
  qed (simp add: committed_def)
  note p = pending_cong [OF this]
  with assms(1,2) show ?thesis by (auto simp: orderly_def agrees_def items_total_def)
qed

subsection \<open>Preservation\<close>

lemma post_item_pending:
  assumes "distinct (claimed lib (xs @ h # ys))" "pg_uuid lib (in_ItemID (h_in h)) = Some i"
    "find_item i db = None" "lr_id row = i"
  shows "pending_amount lib (post_item row t ev db) (xs @ h # ys) =
      pending_amount lib db (xs @ h # ys) + in_Amount (h_in h)"
    and "pending_count lib (post_item row t ev db) (xs @ h # ys) =
      Suc (pending_count lib db (xs @ h # ys))"
proof -
  let ?db' = "post_item row t ev db"
  have "committed lib ?db' x = committed lib db x" if "x \<in> set xs \<union> set ys" for x
  proof (cases "pg_uuid lib (in_ItemID (h_in x))")
    case (Some j)
    with that have "j \<in> set (claimed lib xs) \<union> set (claimed lib ys)" by (auto simp: claimed_mem)
    with assms(1,2) have "j \<noteq> i" by auto
    with Some assms(4) show ?thesis by (simp add: committed_def split: option.splits)
  qed (simp add: committed_def)
  then have "pending_amount lib ?db' xs = pending_amount lib db xs"
    "pending_amount lib ?db' ys = pending_amount lib db ys"
    "pending_count lib ?db' xs = pending_count lib db xs"
    "pending_count lib ?db' ys = pending_count lib db ys"
    by (auto intro: pending_cong)
  moreover have "\<not> committed lib db h" "committed lib ?db' h"
    using assms(2,3,4) by (simp_all add: committed_def)
  ultimately show "pending_amount lib ?db' (xs @ h # ys) =
      pending_amount lib db (xs @ h # ys) + in_Amount (h_in h)"
    "pending_count lib ?db' (xs @ h # ys) = Suc (pending_count lib db (xs @ h # ys))"
    by (simp_all add: ac_simps)
qed

lemma act_update_same [simp]:
  "claimed lib (xs @ h\<lparr>h_act := a\<rparr> # ys) = claimed lib (xs @ h # ys)"
  "pending_amount lib db (xs @ h\<lparr>h_act := a\<rparr> # ys) = pending_amount lib db (xs @ h # ys)"
  "pending_count lib db (xs @ h\<lparr>h_act := a\<rparr> # ys) = pending_count lib db (xs @ h # ys)"
  by (simp_all add: committed_def)

lemma claimed_step:
  assumes "wf_step lib ev w s = Some (w', s', rs)" "i \<in> set (claimed lib (wf_handlers w'))"
    "i \<notin> set (claimed lib (wf_handlers w))"
  obtains inp now where "ev = UpdateArrives inp now" "validateAddLineItem (wf_bill w) inp = None"
    "in_ItemID inp \<notin> wf_seen w" "pg_uuid lib (in_ItemID inp) = Some i"
  using assms(1)
proof (cases rule: wf_step_cases)
  case (accepted inp now)
  with assms(2,3) that show thesis by (auto split: option.splits)
next
  case (append_attempt k env rep h r)
  from append_attempt(2,3) obtain xs ys where hs: "wf_handlers w = xs @ h # ys"
    and "take k (wf_handlers w) = xs" "drop (Suc k) (wf_handlers w) = ys"
    and "\<forall>x. (wf_handlers w)[k := x] = xs @ x # ys" by (rule one_of_list)
  with assms(2,3) append_attempt(6) show thesis by simp
next
  case (append_returns k h)
  with assms(2,3) show thesis by (auto simp: claimed_mem dest: in_set_takeD in_set_dropD)
next
  case (append_gives_up k h elapsed)
  with assms(2,3) show thesis by (auto simp: claimed_mem dest: in_set_takeD in_set_dropD)
qed (use assms(2,3) in simp_all)

lemma bill_ID_step:
  assumes "wf_step lib ev w s = Some (w', s', rs)"
  shows "bill_ID (wf_bill w') = bill_ID (wf_bill w)"
  using assms by (cases rule: wf_step_cases) simp_all

lemma apart_sym: "apart lib w v \<Longrightarrow> apart lib v w"
  by (auto simp: apart_def)

lemma apart_step:
  assumes "apart lib w v" "wf_step lib ev w s = Some (w', s', rs)"
    "undisturbed_run lib \<sigma> w ev" "(wid', v) \<in> set (sys_wfs \<sigma>)"
  shows "apart lib w' v"
proof -
  have "i \<notin> set (claimed lib (wf_handlers v))" if "i \<in> set (claimed lib (wf_handlers w'))" for i
  proof (cases "i \<in> set (claimed lib (wf_handlers w))")
    case True
    with assms(1) show ?thesis by (auto simp: apart_def)
  next
    case False
    from claimed_step [OF assms(2) that False] obtain inp now where
      "ev = UpdateArrives inp now" "validateAddLineItem (wf_bill w) inp = None"
      "in_ItemID inp \<notin> wf_seen w" "pg_uuid lib (in_ItemID inp) = Some i" .
    with assms(3,4) show ?thesis by (auto simp: admissible_update_def new_item_id_def)
  qed
  with assms(1) bill_ID_step [OF assms(2)] show ?thesis by (auto simp: apart_def)
qed

context ledger_lib
begin

lemma orderly_append_attempt:
  assumes ord: "orderly lib (fst s) w" and hs: "wf_handlers w = xs @ h # ys"
    and ok: "handler_ok (wf_bill w) h"
    and run: "AppendLineItemActivity lib env (appendInput (wf_bill w) (h_in h) (h_item h)) s = (r, s')"
    and ser: "serving (wf_phase w)"
  shows "orderly lib (fst s') (w\<lparr>wf_handlers := xs @ h\<lparr>h_act := a\<rparr> # ys\<rparr>)"
proof -
  let ?w' = "w\<lparr>wf_handlers := xs @ h\<lparr>h_act := a\<rparr> # ys\<rparr>"
  have it: "li_ID (h_item h) = in_ItemID (h_in h)" "li_Amount (h_item h) = in_Amount (h_in h)"
    using ok by (auto simp: handler_ok_def newItem_def)
  have exact: "pg_numeric lib (in_Amount (h_in h)) = Some (in_Amount (h_in h))"
    using ord hs by (simp add: orderly_def)
  have dis: "distinct (claimed lib (xs @ h # ys))" using ord hs by (simp only: orderly_def)
  have frame: "quiet ?w' (wf_phase w)" "distinct (claimed lib (wf_handlers ?w'))"
    "\<forall>h\<in>set (wf_handlers ?w'). pg_numeric lib (in_Amount (h_in h)) = Some (in_Amount (h_in h))"
    using ord hs ser dis by (cases "wf_phase w", auto simp: orderly_def simp del: claimed_Cons claimed_simps)
  have ag: "agrees lib (fst s) w" using ord by (simp add: orderly_def)
  from run have "agrees lib (fst s') ?w'"
  proof (cases rule: AppendLineItemActivity_cases)
    case unchanged
    with ag show ?thesis by (simp add: agrees_def hs del: pending_simps)
  next
    case (posted i u am b t ev)
    then have i: "pg_uuid lib (in_ItemID (h_in h)) = Some i" and u: "pg_uuid lib (bill_ID (wf_bill w)) = Some u"
      and am: "am = in_Amount (h_in h)"
      using it exact by (simp_all add: appendInput_def)
    note p = post_item_pending [OF dis i posted(5)]
    show ?thesis using ag u posted(10)
      by (simp add: agrees_def hs appendInput_def am p ac_simps del: pending_simps)
  qed
  with frame show ?thesis by (simp add: orderly_def del: claimed_Cons claimed_simps)
qed

lemma orderly_remove:
  assumes "orderly lib db w" "wf_handlers w = xs @ h # ys" "serving (wf_phase w)"
  shows "committed lib db h \<Longrightarrow>
      orderly lib db (w\<lparr>wf_bill := applyItem (h_in h) (wf_bill w), wf_seen := S, wf_handlers := xs @ ys\<rparr>)"
    and "\<not> committed lib db h \<Longrightarrow> orderly lib db (w\<lparr>wf_handlers := xs @ ys\<rparr>)"
  using assms
  by (cases "wf_phase w"; auto simp: orderly_def agrees_def ac_simps split: option.splits)+

lemma orderly_add:
  assumes "orderly lib db w" "serving (wf_phase w)" "\<not> is_closing (wf_phase w)"
    "pg_numeric lib (in_Amount (h_in h)) = Some (in_Amount (h_in h))" "\<not> committed lib db h"
    "\<And>i. pg_uuid lib (in_ItemID (h_in h)) = Some i \<Longrightarrow> i \<notin> set (claimed lib (wf_handlers w))"
  shows "orderly lib db (w\<lparr>wf_handlers := wf_handlers w @ [h]\<rparr>)"
  using assms by (cases "wf_phase w"; auto simp: orderly_def agrees_def split: option.splits)

lemma orderly_step:
  assumes ok: "run_ok lib wid w (fst s)" and ord: "orderly lib (fst s) w"
    and step: "wf_step lib ev w s = Some (w', s', rs)"
    and guard: "undisturbed_run lib \<sigma> w ev" "sys_store \<sigma> = s" "(wid, w) \<in> set (sys_wfs \<sigma>)"
  shows "orderly lib (fst s') w'"
  using step
proof (cases rule: wf_step_cases)
  case (create_attempt env rep a r)
  note same = same_items [OF CreateBillActivity_items [OF create_attempt(3)]]
  from create_attempt ord show ?thesis by (simp add: orderly_def agrees_def same)
next
  case (accepted inp now)
  have new: "new_item_id lib \<sigma> inp" and ex: "pg_numeric lib (in_Amount inp) = Some (in_Amount inp)"
    and cl: "\<not> is_closing (wf_phase w)"
    using guard(1) accepted by (auto simp: admissible_update_def)
  let ?h = "\<lparr>h_in = inp, h_item = newItem now inp, h_act = act_new\<rparr>"
  have "\<not> committed lib (fst s) ?h" "\<forall>i. pg_uuid lib (in_ItemID inp) = Some i \<longrightarrow>
      i \<notin> set (claimed lib (wf_handlers w))"
    using new guard(2,3) by (auto simp: new_item_id_def committed_def split: option.splits)
  then have "orderly lib (fst s) (w\<lparr>wf_handlers := wf_handlers w @ [?h]\<rparr>)"
    using ord accepted(2) cl ex by (intro orderly_add) auto
  with accepted(5,6) show ?thesis by simp
next
  case (append_attempt k env rep h r)
  from append_attempt(2,3) obtain xs ys where hs: "wf_handlers w = xs @ h # ys"
    and "take k (wf_handlers w) = xs" "drop (Suc k) (wf_handlers w) = ys"
    and upd: "\<forall>x. (wf_handlers w)[k := x] = xs @ x # ys" by (rule one_of_list)
  have "handler_ok (wf_bill w) h" using ok hs by (simp add: run_ok_def run_accounts_def)
  from orderly_append_attempt [OF ord hs this append_attempt(5,1)] append_attempt(6) upd
  show ?thesis by (simp only:)
next
  case (append_returns k h)
  from append_returns(2,3) obtain xs ys where hs: "wf_handlers w = xs @ h # ys"
    and rest: "take k (wf_handlers w) = xs" "drop (Suc k) (wf_handlers w) = ys"
    and "\<forall>x. (wf_handlers w)[k := x] = xs @ x # ys" by (rule one_of_list)
  have "committed lib (fst s) h"
    using ok append_returns(4) hs by (simp add: run_ok_def run_durable_def committed_durable)
  from orderly_remove(1) [OF ord hs append_returns(1) this] append_returns(5,6) rest
  show ?thesis by (simp only:)
next
  case (append_gives_up k h elapsed)
  from append_gives_up(3,4) obtain xs ys where hs: "wf_handlers w = xs @ h # ys"
    and rest: "take k (wf_handlers w) = xs" "drop (Suc k) (wf_handlers w) = ys"
    and "\<forall>x. (wf_handlers w)[k := x] = xs @ x # ys" by (rule one_of_list)
  have "\<not> committed lib (fst s) h" using guard(1,2) append_gives_up(1,3,4) by simp
  from orderly_remove(2) [OF ord hs append_gives_up(2) this] append_gives_up(6,7) rest
  show ?thesis by (simp only:)
next
  case (close_attempt env rep inp a r)
  note same = same_items [OF CloseBillActivity_items [OF close_attempt(3)]]
  from close_attempt ord show ?thesis by (simp add: orderly_def agrees_def same)
next
  case (selector_start now)
  then show ?thesis using ord by (cases "wf_phase w") (simp_all add: orderly_def agrees_def)
next
  case selector_signal
  then show ?thesis using ord by (cases "wf_phase w") (simp_all add: orderly_def agrees_def)
next
  case (selector_timer now)
  then show ?thesis using ord by (cases "wf_phase w") (simp_all add: orderly_def agrees_def)
next
  case signal_arrives
  then show ?thesis using ord by (cases "wf_phase w") (simp_all add: orderly_def agrees_def)
qed (use ord in \<open>simp_all add: orderly_def agrees_def closeInput_def\<close>)

lemma rows_balanced_create:
  assumes bal: "rows_balanced lib (fst s)" and db: "db_ok (fst s)"
    and run: "CreateBillActivity lib env b s = (r, s')"
  shows "rows_balanced lib (fst s')"
proof -
  have "rows_balanced lib (fst s')" if "CreateBillTx lib env b s = (Inr (), s')"
    using that
  proof (cases rule: CreateBillTx_effect)
    case (opened u ev)
    have "items_total u (fst s) = 0"
      using no_bill_no_items [OF db opened(2)] by (simp add: items_total_def)
    with bal opened(7) same_items(2) [OF opened(3)] num_zero show ?thesis
      by (auto simp: rows_balanced_def row_balanced_def split: if_splits)
  qed (use bal in simp)
  with run bal show ?thesis unfolding CreateBillActivity_def by (cases rule: inTx_cases) auto
qed

lemma rows_balanced_append:
  assumes bal: "rows_balanced lib (fst s)" and run: "AppendLineItemActivity lib env inp s = (r, s')"
  shows "rows_balanced lib (fst s')"
  using run
proof (cases rule: AppendLineItemActivity_cases)
  case (posted i u a b t ev)
  have b: "row_balanced lib (fst s) u b" using bal posted(6) by (simp add: rows_balanced_def)
  then have "t = br_total_amount b + a"
    using num_sum [OF _ _ num_pos [OF posted(3,4)] posted(3,7)] by (simp add: row_balanced_def)
  moreover have "pg_numeric lib t = Some t" using posted(7) by (rule num_idem)
  ultimately have "row_balanced lib (fst s') u (b\<lparr>br_total_amount := t\<rparr>)"
    using b posted(4,10) by (auto simp: row_balanced_def)
  with bal posted(6,10) show ?thesis by (auto simp: rows_balanced_def row_balanced_def split: if_splits)
qed (use bal in simp)

lemma rows_balanced_close:
  assumes bal: "rows_balanced lib (fst s)"
    and total: "\<And>u. pg_uuid lib (cb_BillID inp) = Some u \<Longrightarrow> items_total u (fst s) = cb_TotalAmount inp"
    and run: "CloseBillActivity lib env inp s = (r, s')"
  shows "rows_balanced lib (fst s')"
proof -
  note same = same_items(2) [OF CloseBillActivity_items [OF run]]
  from run show ?thesis
  proof (cases rule: CloseBillActivity_cases)
    case (marked u t b ev)
    have b: "row_balanced lib (fst s) u b" using bal marked(2) by (simp add: rows_balanced_def)
    have "t = br_total_amount b" using b total [OF marked(1)] marked(3) by (simp add: row_balanced_def)
    moreover have "find_bill v (fst s') = (if v = u then map_option
        (close_row t (pg_time lib (cb_ClosedAt inp)) (nullableCloseReason (cb_CloseReason inp)))
        (find_bill v (fst s)) else find_bill v (fst s))" for v
      by (simp add: marked(7) find_bill_def find_upd_where)
    ultimately show ?thesis using bal b marked(2) same
      by (auto simp: rows_balanced_def row_balanced_def close_row_def split: if_splits)
  qed (use bal in simp)
qed

lemma rows_balanced_step:
  assumes ok: "run_ok lib wid w (fst s)" and db: "db_ok (fst s)" and bal: "rows_balanced lib (fst s)"
    and ord: "orderly lib (fst s) w" and step: "wf_step lib ev w s = Some (w', s', rs)"
  shows "rows_balanced lib (fst s')"
  using step
proof (cases rule: wf_step_cases)
  case (create_attempt env rep a r)
  show ?thesis using bal db create_attempt(3) by (rule rows_balanced_create)
next
  case (append_attempt k env rep h r)
  show ?thesis using bal append_attempt(5) by (rule rows_balanced_append)
next
  case (close_attempt env rep inp a r)
  have "cb_BillID inp = bill_ID (wf_bill w)" "wf_handlers w = []"
    "cb_TotalAmount inp = bill_TotalAmount (wf_bill w)" "agrees lib (fst s) w"
    using ok ord close_attempt(1) by (auto simp: run_ok_def run_phase_def orderly_def)
  then have "items_total u (fst s) = cb_TotalAmount inp" if "pg_uuid lib (cb_BillID inp) = Some u" for u
    using that by (simp add: agrees_def)
  with bal close_attempt(3) show ?thesis by (blast intro: rows_balanced_close)
qed (use bal in simp_all)

end

lemma orderly_start:
  assumes "db_ok db" "fresh_input inp"
    "\<And>u. pg_uuid lib (wi_BillID inp) = Some u \<Longrightarrow> find_bill u db = None"
  shows "orderly lib db (startRun now 0 inp)"
proof -
  have "items_of u db = []" if "pg_uuid lib (wi_BillID inp) = Some u" for u
    using no_bill_no_items [OF assms(1) assms(3) [OF that]] .
  with assms(2) show ?thesis
    by (simp add: orderly_def agrees_def items_total_def startRun_def initialBill_def fresh_input_def)
qed

lemma orderly_next:
  assumes "orderly lib db w" "wf_phase w = Continued inp" "run_ok lib wid w db"
  shows "orderly lib db (startRun now n inp)"
proof -
  from assms obtain ids where "inp = continueAsNew (wf_input w) (wf_bill w) ids"
    by (auto simp: run_ok_def run_phase_def)
  with assms(1,2) show ?thesis by (simp add: orderly_def agrees_def handoff)
qed

lemma run_bill_ID: "run_ok lib wid w db \<Longrightarrow> bill_ID (wf_bill w) = wi_BillID (wf_input w)"
  by (simp add: run_ok_def run_identity_def same_identity_def)

lemma apart_next:
  assumes "apart lib w v" "wf_phase w = Continued inp" "run_ok lib wid w db"
  shows "apart lib (startRun now n inp) v"
proof -
  from assms obtain ids where "inp = continueAsNew (wf_input w) (wf_bill w) ids"
    by (auto simp: run_ok_def run_phase_def)
  with assms(1) show ?thesis by (simp add: apart_def handoff)
qed

text \<open>To show that a system state agrees after one run has changed.\<close>

lemma agreement_update:
  assumes "rows_balanced lib (fst (sys_store \<sigma>'))"
    and "run_of \<sigma>' = (run_of \<sigma>)(wid \<mapsto> w)"
    and "orderly lib (fst (sys_store \<sigma>')) w"
    and "\<And>wid' v. wid' \<noteq> wid \<Longrightarrow> run_of \<sigma> wid' = Some v \<Longrightarrow>
      orderly lib (fst (sys_store \<sigma>')) v \<and> apart lib w v"
    and "agreement lib \<sigma>"
  shows "agreement lib \<sigma>'"
  using assms unfolding agreement_def by (auto intro: apart_sym)

context ledger_lib
begin

lemma agreement_step:
  assumes reach: "reachable lib G \<sigma>" and agr: "agreement lib \<sigma>"
    and step: "sys_step lib e \<sigma> = Some \<sigma>'" and guard: "undisturbed lib \<sigma> e"
  shows "agreement lib \<sigma>'"
proof -
  note db = reachable_db_ok [OF reach] and ok = run.holds [OF reach]
  have rb: "rows_balanced lib (fst (sys_store \<sigma>))"
    and ord: "\<And>wid w. run_of \<sigma> wid = Some w \<Longrightarrow> orderly lib (fst (sys_store \<sigma>)) w"
    and ap: "\<And>wid wid' w v. run_of \<sigma> wid = Some w \<Longrightarrow> run_of \<sigma> wid' = Some v \<Longrightarrow> wid \<noteq> wid' \<Longrightarrow>
      apart lib w v"
    using agr by (auto simp: agreement_def)
  from step show ?thesis
  proof (cases rule: sys_step_cases)
    case (started inp now)
    let ?wid = "workflowID (wi_BillID inp)"
    have new: "find_bill u (fst (sys_store \<sigma>)) = None" if "pg_uuid lib (wi_BillID inp) = Some u" for u
      using guard started(1) that by (simp add: opens_new_bill_def)
    have "apart lib (startRun now 0 inp) v" if "wid' \<noteq> ?wid" "run_of \<sigma> wid' = Some v" for wid' v
      using guard started(1,2) that run_bill_ID [OF ok [OF that(2)]] run_of_mem [OF that(2)]
      by (auto simp: apart_def opens_new_bill_def startRun_def initialBill_def fresh_input_def
          split: option.splits)
    note ap' = this
    show ?thesis
    proof (rule agreement_update [where wid = ?wid and w = "startRun now 0 inp" and \<sigma> = \<sigma>])
      show "orderly lib (fst (sys_store \<sigma>')) v \<and> apart lib (startRun now 0 inp) v"
        if "wid' \<noteq> ?wid" "run_of \<sigma> wid' = Some v" for wid' v
        using ord [OF that(2)] ap' [OF that] started(4) by simp
    qed (use rb orderly_start [OF db started(2) new] started(4) agr in simp_all)
  next
    case (ran wid ev w w' s' rs)
    have g: "undisturbed_run lib \<sigma> w ev" using guard ran(1,2) by simp
    note okw = ok [OF ran(2)] and ordw = ord [OF ran(2)] and fr = wf_step_frame [OF ok [OF ran(2)] ran(3)]
    have other: "orderly lib (fst s') v \<and> apart lib w' v" if "wid' \<noteq> wid" "run_of \<sigma> wid' = Some v" for wid' v
    proof
      have a: "apart lib w v" using ap [OF ran(2) that(2)] that(1) by simp
      then show "orderly lib (fst s') v"
        by (intro orderly_frame [OF ord [OF that(2)]] fr) (auto simp: apart_def)
      from a ran(3) g run_of_mem [OF that(2)] show "apart lib w' v" by (rule apart_step)
    qed
    have "rows_balanced lib (fst s')" using okw db rb ordw ran(3) by (rule rows_balanced_step)
    moreover have "orderly lib (fst s') w'"
      using okw ordw ran(3) g refl run_of_mem [OF ran(2)] by (rule orderly_step)
    ultimately have own: "rows_balanced lib (fst s')" "orderly lib (fst s') w'" .
    show ?thesis
    proof (rule agreement_update [where wid = wid and w = w' and \<sigma> = \<sigma>])
      show "orderly lib (fst (sys_store \<sigma>')) v \<and> apart lib w' v"
        if "wid' \<noteq> wid" "run_of \<sigma> wid' = Some v" for wid' v
        using other [OF that] ran(4) by simp
    qed (use own ran(4) agr in simp_all)
  next
    case (resumed wid now n w inp)
    note okw = ok [OF resumed(2)]
    show ?thesis
    proof (rule agreement_update [where wid = wid and w = "startRun now n inp" and \<sigma> = \<sigma>])
      show "orderly lib (fst (sys_store \<sigma>')) (startRun now n inp)"
        using orderly_next [OF ord [OF resumed(2)] resumed(3) okw] resumed(4) by simp
      show "orderly lib (fst (sys_store \<sigma>')) v \<and> apart lib (startRun now n inp) v"
        if "wid' \<noteq> wid" "run_of \<sigma> wid' = Some v" for wid' v
      proof
        have "apart lib w v" using ap [OF resumed(2) that(2)] that(1) by blast
        then show "apart lib (startRun now n inp) v" using resumed(3) okw by (rule apart_next)
        show "orderly lib (fst (sys_store \<sigma>')) v" using ord [OF that(2)] resumed(4) by simp
      qed
    qed (use rb resumed(4) agr in simp_all)
  qed
qed

lemma undisturbed_agreement: "reachable lib (undisturbed lib) \<sigma> \<Longrightarrow> agreement lib \<sigma>"
proof (induction rule: reachable.induct)
  case (reach_init \<sigma>)
  then show ?case
    by (simp add: agreement_def sys_init_def rows_balanced_def find_bill_def run_of_def)
next
  case (reach_step \<sigma> e \<sigma>')
  from agreement_step [OF reach_step.hyps(1) reach_step.IH reach_step.hyps(3,2)] show ?case .
qed

lemma closed_bill_agrees:
  assumes reach: "reachable lib (undisturbed lib) \<sigma>" and w: "run_of \<sigma> wid = Some w"
    and ph: "wf_phase w = Completed res" and u: "pg_uuid lib (br_BillID res) = Some u"
  shows "\<exists>r. find_bill u (fst (sys_store \<sigma>)) = Some r \<and> br_status r = BillStatusClosed \<and>
      br_total_amount r = items_total u (fst (sys_store \<sigma>)) \<and>
      br_TotalAmount res = items_total u (fst (sys_store \<sigma>)) \<and>
      br_ItemCount res = int (length (items_of u (fst (sys_store \<sigma>))))"
proof -
  let ?db = "fst (sys_store \<sigma>)"
  have agr: "agreement lib \<sigma>" using reach by (rule undisturbed_agreement)
  have ok: "run_ok lib wid w ?db" using run.holds [OF reach w] .
  then have fields: "br_BillID res = bill_ID (wf_bill w)" "br_TotalAmount res = bill_TotalAmount (wf_bill w)"
    "br_ItemCount res = bill_ItemCount (wf_bill w)"
    using run_completed [OF ok ph] by (simp_all add: run_ok_def run_identity_def same_identity_def)
  have "bill_closed lib ?db (bill_ID (wf_bill w))" using ok ph by (simp add: run_ok_def run_durable_def)
  with u fields(1) obtain r where r: "find_bill u ?db = Some r" "br_status r = BillStatusClosed"
    by (auto simp: bill_closed_def)
  have "orderly lib ?db w" "row_balanced lib ?db u r"
    using agr w r(1) by (auto simp: agreement_def rows_balanced_def)
  with ph u fields have "items_total u ?db = bill_TotalAmount (wf_bill w)"
    "int (length (items_of u ?db)) = bill_ItemCount (wf_bill w)" "br_total_amount r = items_total u ?db"
    by (simp_all add: orderly_def agrees_def row_balanced_def)
  with r fields show ?thesis by simp
qed

end

end
