(* ===== verification/Samples.thy ===== *)
theory Samples
  imports Agreement Complex_Main
begin

section \<open>Columns, seed data and the library used in examples\<close>

text \<open>
  Concrete instances of the parameters: the \<open>UUID\<close> and \<open>NUMERIC(30,10)\<close> columns of the
  migrations, which discharge the laws of \<open>numeric_column\<close>; the rows the migrations seed; and
  \<open>sample_lib\<close>, whole amounts with identities for the rest, on which example runs evaluate.
\<close>

subsection \<open>The NUMERIC(30,10) column\<close>

text \<open>
  30 digits, 10 of them after the point: the value is rounded to ten decimals, half away from
  zero, and refused when more than 20 digits are left before the point.
\<close>

definition numeric_30_10 :: "rat \<Rightarrow> rat option" where
  "numeric_30_10 x =
     (let n = \<lfloor>\<bar>x\<bar> * 10 ^ 10 + 1 / 2\<rfloor>
      in if n < 10 ^ 30 then Some (sgn x * of_int n / 10 ^ 10) else None)"

lemma numeric_stored:
  assumes "0 \<le> t" "numeric_30_10 t = Some t"
  obtains n where "t * 10 ^ 10 = of_int n" "0 \<le> n"
proof (cases "t = 0")
  case True
  then show ?thesis using that [of 0] by simp
next
  case False
  with assms have "t * 10 ^ 10 = of_int \<lfloor>t * 10 ^ 10 + 1 / 2\<rfloor>"
    by (auto simp: numeric_30_10_def Let_def sgn_if field_simps split: if_splits)
  moreover have "0 \<le> \<lfloor>t * 10 ^ 10 + 1 / 2\<rfloor>" using assms(1) by simp
  ultimately show ?thesis using that by blast
qed

lemma numeric_pos:
  "0 < x \<Longrightarrow> numeric_30_10 x =
     (let n = \<lfloor>x * 10 ^ 10 + 1 / 2\<rfloor> in if n < 10 ^ 30 then Some (of_int n / 10 ^ 10) else None)"
  by (simp add: numeric_30_10_def)

interpretation numeric: numeric_column numeric_30_10
proof
  show "numeric_30_10 0 = Some 0" by (simp add: numeric_30_10_def)
next
  fix x y assume "numeric_30_10 x = Some y"
  then have y: "y = sgn x * of_int \<lfloor>\<bar>x\<bar> * 10 ^ 10 + 1 / 2\<rfloor> / 10 ^ 10"
    and b: "\<lfloor>\<bar>x\<bar> * 10 ^ 10 + 1 / 2\<rfloor> < 10 ^ 30"
    by (auto simp: numeric_30_10_def Let_def split: if_splits)
  define n where "n = \<lfloor>\<bar>x\<bar> * 10 ^ 10 + 1 / 2\<rfloor>"
  have n: "0 \<le> n" by (simp add: n_def)
  show "numeric_30_10 y = Some y"
  proof (cases "x = 0 \<or> n = 0")
    case True
    then show ?thesis using y by (auto simp: numeric_30_10_def n_def)
  next
    case False
    define c :: rat where "c = of_int n / 10 ^ 10"
    have yc: "y = sgn x * c" using y by (simp add: c_def n_def)
    have c: "0 < c" "c * 10 ^ 10 = of_int n" using False n by (auto simp: c_def)
    from yc c(1) False have "\<bar>y\<bar> = c" "sgn y = sgn x"
      by (auto simp: abs_mult abs_sgn_eq sgn_mult)
    with c(2) have "\<bar>y\<bar> * 10 ^ 10 = of_int n" "sgn y = sgn x" by simp_all
    moreover have "\<lfloor>of_int n + 1 / 2 :: rat\<rfloor> = n" by linarith
    ultimately have fl: "\<lfloor>\<bar>y\<bar> * 10 ^ 10 + 1 / 2\<rfloor> = n" and sg: "sgn y = sgn x" by (simp_all only:)
    show ?thesis
      unfolding numeric_30_10_def Let_def fl sg using b y by (simp only: n_def [symmetric] if_True)
  qed
next
  fix t a s assume t: "numeric_30_10 t = Some t" "0 \<le> t" and a: "0 < a"
    and s: "numeric_30_10 (t + a) = Some s"
  from t obtain n where n: "t * 10 ^ 10 = of_int n" "0 \<le> n" using numeric_stored by blast
  define k where "k = \<lfloor>a * 10 ^ 10 + 1 / 2\<rfloor>"
  have "\<lfloor>(t + a) * 10 ^ 10 + 1 / 2\<rfloor> = \<lfloor>of_int n + (a * 10 ^ 10 + 1 / 2)\<rfloor>"
    using n(1) by (simp only: distrib_right add.assoc)
  then have sum: "\<lfloor>(t + a) * 10 ^ 10 + 1 / 2\<rfloor> = n + k" by (simp only: k_def int_add_floor)
  have pos: "0 < t + a" using t(2) a by simp
  have "(if n + k < 10 ^ 30 then Some (of_int (n + k) / 10 ^ 10) else None) = Some s"
    using s unfolding numeric_pos [OF pos] Let_def sum .
  then have bound: "n + k < 10 ^ 30" and seq: "s = of_int (n + k) / 10 ^ 10" by (auto split: if_splits)
  have "k < 10 ^ 30" using bound n(2) by simp
  then have "numeric_30_10 a = Some (of_int k / 10 ^ 10)"
    unfolding numeric_pos [OF a] Let_def k_def [symmetric] by (rule if_P)
  moreover have "s = t + of_int k / 10 ^ 10" using seq n(1) by (simp add: field_simps)
  ultimately show "\<exists>a'. numeric_30_10 a = Some a' \<and> s = t + a'" by blast
next
  fix x y assume xy: "numeric_30_10 x = Some y" "0 < y"
  then have "0 < sgn x * of_int \<lfloor>\<bar>x\<bar> * 10 ^ 10 + 1 / 2\<rfloor>"
    unfolding numeric_30_10_def Let_def by (auto split: if_splits simp: zero_less_divide_iff)
  moreover have "(0::rat) \<le> of_int \<lfloor>\<bar>x\<bar> * 10 ^ 10 + 1 / 2\<rfloor>" by simp
  ultimately have "0 < sgn x" by (metis linorder_not_le mult_nonpos_nonneg)
  then show "0 < x" by simp
qed

subsection \<open>The UUID column\<close>

text \<open>
  Postgres reads 32 hexadecimal digits in either case, with optional braces around them and an
  optional hyphen after every fourth digit, and prints the canonical lower-case form.
\<close>

definition is_hex :: "char \<Rightarrow> bool" where
  "is_hex c \<longleftrightarrow> c \<in> set ''0123456789abcdefABCDEF''"

definition lower_hex :: "char \<Rightarrow> char" where
  "lower_hex c = (case map_of (zip ''ABCDEF'' ''abcdef'') c of Some d \<Rightarrow> d | None \<Rightarrow> c)"

fun uuid_digits :: "nat \<Rightarrow> string \<Rightarrow> string option" where
  "uuid_digits 0 cs = (if cs = [] then Some [] else None)"
| "uuid_digits (Suc n) (a # b # cs) =
     (if is_hex a \<and> is_hex b
      then (let rest = (case cs of c # r \<Rightarrow> if c = CHR ''-'' \<and> even n \<and> 0 < n then r else cs | [] \<Rightarrow> [])
            in map_option (\<lambda>ds. lower_hex a # lower_hex b # ds) (uuid_digits n rest))
      else None)"
| "uuid_digits (Suc n) cs = None"

definition uuid_canonical :: "string \<Rightarrow> string" where
  "uuid_canonical ds =
     take 8 ds @ ''-'' @ take 4 (drop 8 ds) @ ''-'' @ take 4 (drop 12 ds) @ ''-'' @
     take 4 (drop 16 ds) @ ''-'' @ drop 20 ds"

definition uuid_in :: "string \<Rightarrow> string option" where
  "uuid_in cs =
     (let body = (if cs \<noteq> [] \<and> hd cs = CHR ''{'' \<and> last cs = CHR ''}'' then butlast (tl cs) else cs)
      in map_option uuid_canonical (uuid_digits 16 body))"

lemma uuid_in_example:
  "uuid_in ''{0F7D8C4B3A914F1B9A6F-1a0c7d2e8f51}'' = Some ''0f7d8c4b-3a91-4f1b-9a6f-1a0c7d2e8f51''"
  "uuid_in ''fee-2026-01'' = None"
  by code_simp+

text \<open>A library whose columns are the declared ones satisfies the laws of the ledger.\<close>

definition with_columns :: "rat lib \<Rightarrow> rat lib" where
  "with_columns lib = lib\<lparr>pg_uuid := uuid_in, pg_numeric := numeric_30_10\<rparr>"

interpretation columns: ledger_lib "with_columns lib" for lib
  using numeric.numeric_column_axioms by (simp add: ledger_lib_def with_columns_def)

subsection \<open>Seed rows\<close>

definition seed_currencies :: "CurrencyRow list" where
  "seed_currencies = map (\<lambda>(c, n, k, d). \<lparr>cr_code = c, cr_name = n, cr_numeric_code = k, cr_minor_unit = d\<rparr>)
     [(''USD'', ''US Dollar'', 840, 2), (''EUR'', ''Euro'', 978, 2), (''GBP'', ''Pound Sterling'', 826, 2),
      (''GEL'', ''Lari'', 981, 2), (''JPY'', ''Yen'', 392, 0), (''KRW'', ''Won'', 410, 0),
      (''BHD'', ''Bahraini Dinar'', 48, 3), (''KWD'', ''Kuwaiti Dinar'', 414, 3)]"

definition seed_clients :: "ClientRow list" where
  "seed_clients =
     [\<lparr>cl_id = ''acct-alpha'', cl_name = ''Alpha Demo Co'', cl_status = ClientStatusActive\<rparr>,
      \<lparr>cl_id = ''acct-beta'', cl_name = ''Beta Demo Ltd'', cl_status = ClientStatusActive\<rparr>,
      \<lparr>cl_id = ''acct-suspended'', cl_name = ''Suspended Demo SA'', cl_status = ClientStatusSuspended\<rparr>]"

definition seed_db :: "'d DB" where
  "seed_db = \<lparr>bills = [], line_items = [], bill_events = [], currencies = seed_currencies,
     clients = seed_clients\<rparr>"

subsection \<open>The library of the examples\<close>

definition sample_numeric :: "int \<Rightarrow> int option" where
  "sample_numeric x = (if \<bar>x\<bar> < 10 ^ 20 then Some x else None)"

definition sample_lib :: "int lib" where
  "sample_lib = \<lparr>pg_uuid = Some, pg_numeric = sample_numeric, pg_time = id,
     dec_String = (\<lambda>_. ''''), dec_NewFromString = (\<lambda>s. if s = ''15'' then Some 15 else None),
     dec_StringFixed = (\<lambda>_ _. ''''), uuid_NewSHA1 = id, wire_error = id,
     err_Error = (\<lambda>_. ''error''), quote_runes = id\<rparr>"

interpretation sample: ledger_lib sample_lib
  by unfold_locales (auto simp: sample_lib_def sample_numeric_def split: if_splits)

subsection \<open>Example inputs\<close>

definition at_time :: "int \<Rightarrow> gotime" where
  "at_time s = \<lparr>unix_ns = s * second, zone = 0\<rparr>"

definition sample_sys :: "'d Sys" where
  "sample_sys = \<lparr>sys_wfs = [], sys_store = (seed_db, []), sys_replies = []\<rparr>"

text \<open>An attempt nothing goes wrong with, and one whose commit is applied but not reported.\<close>

definition good_env :: "string \<Rightarrow> tx_env" where
  "good_env ev = \<lparr>begin_fails = False, stmt_fails = None, commit = CommitOk, tx_now = at_time 0,
     tx_fresh = ev\<rparr>"

definition lost_env :: "string \<Rightarrow> tx_env" where
  "lost_env ev = (good_env ev)\<lparr>commit := CommitUnknown\<rparr>"

definition bill_input :: "string \<Rightarrow> string \<Rightarrow> 'd BillWorkflowInput" where
  "bill_input bid acct = \<lparr>wi_BillID = bid, wi_AccountID = acct, wi_Currency = ''USD'',
     wi_PeriodStart = None, wi_PeriodEnd = None, wi_Snapshot = None, wi_SeenItemIDs = []\<rparr>"

definition item_input :: "string \<Rightarrow> string \<Rightarrow> 'd \<Rightarrow> 'd AddLineItemInput" where
  "item_input acct i a = \<lparr>in_ItemID = i, in_Description = ''fee'', in_Amount = a,
     in_Currency = ''USD'', in_CallerAccountID = acct\<rparr>"

text \<open>The events of opening a bill, and of closing it by a signal.\<close>

definition open_events :: "string \<Rightarrow> string \<Rightarrow> string \<Rightarrow> 'd SysEvent list" where
  "open_events bid acct ev =
     [StartWorkflow (bill_input bid acct) (at_time 0),
      RunEvent (workflowID bid) (CreateAttempt (good_env ev) True),
      RunEvent (workflowID bid) CreateReturns]"

definition closing_events :: "string \<Rightarrow> 'd SysEvent list" where
  "closing_events bid = map (RunEvent (workflowID bid))
     [SignalArrives, SelectorStart (at_time 9), SelectorSignal, AwaitReturns,
      DrainReturns (at_time 9) []]"

definition closed_events :: "string \<Rightarrow> string \<Rightarrow> 'd SysEvent list" where
  "closed_events bid ev = map (RunEvent (workflowID bid))
     [CloseAttempt (good_env ev) True, CloseReturns]"

lemma sample_init: "sys_init (sample_sys :: 'd::{zero,ord} Sys)"
  by (simp add: sys_init_def sample_sys_def seed_db_def)

lemma sample_reachable:
  "sys_run lib es (sample_sys :: 'd::{zero,ord,plus} Sys) = Some \<sigma> \<Longrightarrow> reachable lib always \<sigma>"
  using reachable_run [OF reach_init [OF sample_init]] .

text \<open>The way a bill is closed by a signal; \<open>ids\<close> is the seen set.\<close>

definition close_run :: "string \<Rightarrow> string list \<Rightarrow> string \<Rightarrow> 'd SysEvent list" where
  "close_run bid ids ev = map (RunEvent (workflowID bid))
     [SignalArrives, SelectorStart (at_time 9), SelectorSignal, AwaitReturns,
      DrainReturns (at_time 9) ids] @ closed_events bid ev"

definition add_run :: "string \<Rightarrow> 'd AddLineItemInput \<Rightarrow> string \<Rightarrow> 'd SysEvent list" where
  "add_run bid inp ev = map (RunEvent (workflowID bid))
     [UpdateArrives inp (at_time 1), AppendAttempt 0 (good_env ev) True, AppendReturns 0]"

text \<open>Identifiers in the form the columns take, and the library on the declared columns.\<close>

definition bill_uuid :: string where
  "bill_uuid = ''0f7d8c4b-3a91-4f1b-9a6f-1a0c7d2e8f51''"

definition item_uuid :: string where
  "item_uuid = ''2f7d8c4b-3a91-4f1b-9a6f-1a0c7d2e8f52''"

definition item_uuid2 :: string where
  "item_uuid2 = ''3f7d8c4b-3a91-4f1b-9a6f-1a0c7d2e8f53''"

definition plain_lib :: "rat lib" where
  "plain_lib = \<lparr>pg_uuid = Some, pg_numeric = Some, pg_time = id,
     dec_String = (\<lambda>_. ''''), dec_NewFromString = (\<lambda>s. None),
     dec_StringFixed = (\<lambda>_ _. ''''), uuid_NewSHA1 = id, wire_error = id,
     err_Error = (\<lambda>_. ''error''), quote_runes = id\<rparr>"

definition column_lib :: "rat lib" where
  "column_lib = with_columns plain_lib"

subsection \<open>A bill from opening to close\<close>

text \<open>Two items, one of them sent twice, on the declared columns, and a close by signal.\<close>

definition billed_events :: "rat SysEvent list" where
  "billed_events =
     open_events bill_uuid ''acct-alpha'' ''e1'' @
     add_run bill_uuid (item_input ''acct-alpha'' item_uuid (1599 / 100)) ''e2'' @
     [RunEvent (workflowID bill_uuid)
        (UpdateArrives (item_input ''acct-alpha'' item_uuid (1599 / 100)) (at_time 2))] @
     add_run bill_uuid (item_input ''acct-alpha'' item_uuid2 (1 / 1000)) ''e3'' @
     close_run bill_uuid [item_uuid, item_uuid2] ''e4''"

definition adding_sys :: "rat Sys" where
  "adding_sys = the (sys_run column_lib (take 9 billed_events) sample_sys)"

definition billed_sys :: "rat Sys" where
  "billed_sys = the (sys_run column_lib billed_events sample_sys)"

lemma billed_run: "sys_run column_lib billed_events sample_sys = Some billed_sys"
proof -
  have "sys_run column_lib billed_events sample_sys \<noteq> None" by code_simp
  then show ?thesis by (simp add: billed_sys_def)
qed

lemma adding_run: "sys_run column_lib (take 9 billed_events) sample_sys = Some adding_sys"
proof -
  have "sys_run column_lib (take 9 billed_events) sample_sys \<noteq> None" by code_simp
  then show ?thesis by (simp add: adding_sys_def)
qed

lemma adding_reachable: "reachable column_lib always adding_sys"
  using adding_run by (rule sample_reachable)

lemma adding_open:
  "case find_bill bill_uuid (fst (sys_store adding_sys)) of
     None \<Rightarrow> False | Some r \<Rightarrow> br_status r = BillStatusOpen \<and> 0 < br_total_amount r"
  by code_simp

lemma billed_bill: "find_bill bill_uuid (fst (sys_store billed_sys)) \<noteq> None \<and> pg_uuid column_lib bill_uuid = Some bill_uuid"
  by code_simp

lemma billed_item: "find_item item_uuid (fst (sys_store billed_sys)) \<noteq> None \<and> pg_uuid column_lib item_uuid = Some item_uuid"
  by code_simp

lemma billed_reachable: "reachable column_lib always billed_sys"
  using billed_run by (rule sample_reachable)

end
