(* ===== verification/Rollover.thy ===== *)
theory Rollover
  imports Samples
begin

section \<open>Adding an item, and the roll-over at the threshold\<close>

subsection \<open>An accepted update is carried out\<close>

text \<open>
  When the first attempt of the activity meets no failure and the database takes the row, the
  update posts the item and is answered with the new total and count.
\<close>

definition can_post :: "'d lib \<Rightarrow> tx_env \<Rightarrow> 'd Bill \<Rightarrow> 'd::{zero,ord,plus} AddLineItemInput \<Rightarrow> 'd DB \<Rightarrow> bool" where
  "can_post lib env b inp db \<longleftrightarrow>
     \<not> begin_fails env \<and> stmt_fails env = None \<and> commit env = CommitOk \<and>
     tx_fresh env \<notin> er_id ` set (bill_events db) \<and>
     in_Currency inp \<in> cr_code ` set (currencies db) \<and>
     (case (pg_uuid lib (in_ItemID inp), pg_uuid lib (bill_ID b), pg_numeric lib (in_Amount inp)) of
        (Some i, Some u, Some a) \<Rightarrow>
          0 < a \<and> find_item i db = None \<and>
          (case find_bill u db of None \<Rightarrow> False
           | Some r \<Rightarrow> pg_numeric lib (br_total_amount r + in_Amount inp) \<noteq> None)
      | _ \<Rightarrow> False)"

lemma insert_event_succeeds:
  "pg_uuid lib bid = Some u \<Longrightarrow> fresh \<notin> er_id ` set (bill_events db) \<Longrightarrow>
   find_bill u db = Some r \<Longrightarrow>
   insert_event lib fresh now bid kind actor p db = Inr (db\<lparr>bill_events := bill_events db @
     [\<lparr>er_id = fresh, er_bill_id = u, er_kind = kind, er_actor = actor, er_payload = p,
       er_created_at = now\<rparr>]\<rparr>)"
  by (simp add: insert_event_def)

lemma AppendLineItemActivity_posts:
  fixes s :: "'d::{zero,ord,plus} Store"
  assumes "can_post lib env b inp (fst s)"
  shows "\<exists>i u a t r ev s'.
      AppendLineItemActivity lib env (appendInput b inp (newItem now inp)) s = (Inr (), s') \<and>
      pg_uuid lib (in_ItemID inp) = Some i \<and> pg_uuid lib (bill_ID b) = Some u \<and>
      pg_numeric lib (in_Amount inp) = Some a \<and> find_bill u (fst s) = Some r \<and>
      pg_numeric lib (br_total_amount r + in_Amount inp) = Some t \<and>
      er_bill_id ev = u \<and> er_kind ev = BillEventItemAdded \<and> er_id ev = tx_fresh env \<and>
      s' = (post_item (itemRow lib i u a (newItem now inp)) t ev (fst s), LineItemsAdded ''accepted'' # snd s)"
proof -
  from assms obtain i u a r t where
    i: "pg_uuid lib (in_ItemID inp) = Some i" "pg_uuid lib (bill_ID b) = Some u"
      "pg_numeric lib (in_Amount inp) = Some a" "0 < a" "find_item i (fst s) = None"
      "find_bill u (fst s) = Some r" "pg_numeric lib (br_total_amount r + in_Amount inp) = Some t"
    by (auto simp: can_post_def split: option.splits)
  let ?it = "newItem now inp"
  let ?ev = "\<lparr>er_id = tx_fresh env, er_bill_id = u, er_kind = BillEventItemAdded,
      er_actor = (if in_CallerAccountID inp = '''' then SystemActor else in_CallerAccountID inp),
      er_payload = ItemAddedPayload (in_ItemID inp) (in_Description inp) (dec_String lib (in_Amount inp))
        (in_Currency inp), er_created_at = tx_now env\<rparr>"
  let ?s' = "(post_item (itemRow lib i u a ?it) t ?ev (fst s), LineItemsAdded ''accepted'' # snd s)"
  have env: "\<not> begin_fails env" "stmt_fails env = None" "commit env = CommitOk"
    "tx_fresh env \<notin> er_id ` set (bill_events (fst s))"
    "in_Currency inp \<in> cr_code ` set (currencies (fst s))"
    using assms by (simp_all add: can_post_def)
  let ?db1 = "(fst s)\<lparr>line_items := line_items (fst s) @ [itemRow lib i u a ?it]\<rparr>"
  let ?db2 = "?db1\<lparr>bills := upd_where br_id u (br_total_amount_update (\<lambda>_. t)) (bills ?db1)\<rparr>"
  have find1: "find_bill u ?db1 = Some r" using i by simp
  have find2: "find_bill u ?db2 = Some (r\<lparr>br_total_amount := t\<rparr>)"
    by (subst find_bill_upd_where) (use find1 in simp_all)
  have ins: "insert_line_item lib (bill_ID b) ?it (fst s) = Inr (i, ?db1)"
    using i env by (simp add: insert_line_item_def itemRow_def newItem_def)
  have upd: "update_bill_total lib (bill_ID b) (in_Amount inp) ?db1 = Inr ?db2"
    unfolding update_bill_total_def find1 i by (simp add: find1 i)
  have ev: "insert_event lib (tx_fresh env) (tx_now env) (bill_ID b) BillEventItemAdded
      (if in_CallerAccountID inp = '''' then SystemActor else in_CallerAccountID inp)
      (ItemAddedPayload (in_ItemID inp) (in_Description inp) (dec_String lib (in_Amount inp))
        (in_Currency inp)) ?db2 = Inr (?db2\<lparr>bill_events := bill_events ?db2 @ [?ev]\<rparr>)"
    by (rule insert_event_succeeds [OF i(2) _ find2]) (use env in simp)
  have post: "post_item (itemRow lib i u a ?it) t ?ev (fst s) = ?db2\<lparr>bill_events := bill_events ?db2 @ [?ev]\<rparr>"
    by (simp add: post_item_def itemRow_def)
  have "AppendLineItemTx lib env (appendInput b inp ?it) s = (Inr (), ?s')"
    unfolding AppendLineItemTx_def post using ins upd ev env
    by (simp add: appendInput_def sql_def Let_def appendEvent_def newItem_def)
  then have "AppendLineItemActivity lib env (appendInput b inp ?it) s = (Inr (), ?s')"
    unfolding AppendLineItemActivity_def by (intro inTx_ok env)
  moreover have "er_bill_id ?ev = u" "er_kind ?ev = BillEventItemAdded" "er_id ?ev = tx_fresh env"
    by simp_all
  ultimately show ?thesis using i(1-3,6,7) by metis
qed

lemma add_item_steps:
  fixes w :: "'d::{zero,ord,plus} WF"
  assumes ser: "serving (wf_phase w)" and val: "validateAddLineItem (wf_bill w) inp = None"
    and new: "in_ItemID inp \<notin> wf_seen w" and post: "can_post lib env (wf_bill w) inp (fst s)"
    and k: "k = length (wf_handlers w)"
  shows "\<exists>w1 w2 s2. wf_step lib (UpdateArrives inp now) w s = Some (w1, s, []) \<and>
      wf_step lib (AppendAttempt k env True) w1 s = Some (w2, s2, []) \<and>
      wf_step lib (AppendReturns k) w2 s2 =
        Some (w\<lparr>wf_bill := applyItem inp (wf_bill w), wf_seen := insert (in_ItemID inp) (wf_seen w)\<rparr>, s2,
          [(inp, Inr (addResult (applyItem inp (wf_bill w)) (in_ItemID inp)))]) \<and>
      AppendLineItemActivity lib env (appendInput (wf_bill w) inp (newItem now inp)) s = (Inr (), s2)"
proof -
  from AppendLineItemActivity_posts [OF post] obtain s2 where
    run: "AppendLineItemActivity lib env (appendInput (wf_bill w) inp (newItem now inp)) s = (Inr (), s2)"
    by blast
  let ?h = "\<lparr>h_in = inp, h_item = newItem now inp, h_act = act_new\<rparr>"
  let ?w1 = "w\<lparr>wf_handlers := wf_handlers w @ [?h]\<rparr>"
  let ?w2 = "w\<lparr>wf_handlers := wf_handlers w @ [?h\<lparr>h_act := \<lparr>act_attempts = 1, act_done = True\<rparr>\<rparr>]\<rparr>"
  have "wf_step lib (UpdateArrives inp now) w s = Some (?w1, s, [])"
    using ser val new by (simp add: receiveUpdate_def)
  moreover have "wf_step lib (AppendAttempt k env True) ?w1 s = Some (?w2, s2, [])"
    using ser k run by (simp add: can_attempt_def act_new_def shortActivityOpts_def set_handler_act_def
        after_attempt_def)
  moreover have "wf_step lib (AppendReturns k) ?w2 s2 =
      Some (w\<lparr>wf_bill := applyItem inp (wf_bill w), wf_seen := insert (in_ItemID inp) (wf_seen w)\<rparr>, s2,
        [(inp, Inr (addResult (applyItem inp (wf_bill w)) (in_ItemID inp)))])"
    using ser k by (simp add: finishUpdate_def Let_def)
  ultimately show ?thesis using run by blast
qed

subsection \<open>The main coroutine goes first\<close>

text \<open>
  The SDK runs a coroutine until it blocks, and \<open>workflow.Await\<close> does not block when its
  condition already holds. In particular a run's main coroutine, the first to run, passes an
  \<open>Await\<close> whose condition holds before any other coroutine starts. \<open>cooperative\<close> restricts
  the events of a run accordingly; signals can arrive at any time.
\<close>

definition main_ready :: "'d WF \<Rightarrow> bool" where
  "main_ready w \<longleftrightarrow>
     (case wf_phase w of
        Serving \<Rightarrow> closeOrThreshold w
      | Draining _ \<Rightarrow> wf_handlers w = []
      | _ \<Rightarrow> False)"

fun main_event :: "'d Event \<Rightarrow> bool" where
  "main_event AwaitReturns = True"
| "main_event (DrainReturns _ _) = True"
| "main_event SignalArrives = True"
| "main_event _ = False"

fun cooperative :: "'d Sys \<Rightarrow> 'd SysEvent \<Rightarrow> bool" where
  "cooperative \<sigma> (RunEvent wid ev) =
     (case run_of \<sigma> wid of None \<Rightarrow> True | Some w \<Rightarrow> main_ready w \<longrightarrow> main_event ev)"
| "cooperative \<sigma> _ = True"

text \<open>Executions from a given state on.\<close>

inductive leads :: "'d lib \<Rightarrow> ('d Sys \<Rightarrow> 'd SysEvent \<Rightarrow> bool) \<Rightarrow> 'd::{zero,ord,plus} Sys \<Rightarrow> 'd Sys \<Rightarrow> bool"
  for lib G where
  leads_refl: "leads lib G \<sigma> \<sigma>"
| leads_step: "leads lib G \<sigma> \<sigma>' \<Longrightarrow> G \<sigma>' e \<Longrightarrow> sys_step lib e \<sigma>' = Some \<sigma>'' \<Longrightarrow> leads lib G \<sigma> \<sigma>''"

text \<open>
  A run that rolls over: it has reached the threshold, its main coroutine is on its way from
  \<open>awaitCloseOrThreshold\<close> to \<open>continueAsNew\<close>, and it has no update in progress.
\<close>

definition rolling :: "int \<Rightarrow> 'd WF \<Rightarrow> bool" where
  "rolling n w \<longleftrightarrow>
     continueAsNewThreshold \<le> n \<and> wf_handlers w = [] \<and>
     (case wf_phase w of
        Serving \<Rightarrow> bill_ItemCount (wf_bill w) = n \<and> wf_reason w = CloseReasonNone
      | Draining r \<Rightarrow> bill_ItemCount (wf_bill w) = n \<and> r = CloseReasonNone
      | Continued inp \<Rightarrow> (\<exists>b. wi_Snapshot inp = Some b \<and> bill_ItemCount b = n)
      | _ \<Rightarrow> False)"

lemma rolling_step:
  assumes roll: "rolling n w" and step: "wf_step lib ev w s = Some (w', s', rs)"
    and coop: "main_ready w \<longrightarrow> main_event ev"
  shows "rolling n w'"
proof (cases "wf_phase w")
  case Serving
  then have "main_ready w" using roll by (simp add: main_ready_def closeOrThreshold_def rolling_def)
  with coop step roll Serving show ?thesis
    by (cases ev) (auto simp: rolling_def)
next
  case (Draining r)
  then have "main_ready w" using roll by (simp add: main_ready_def rolling_def)
  with coop step roll Draining show ?thesis
    by (cases ev) (auto simp: rolling_def afterDrain_def continueAsNew_def)
next
  case (Continued inp)
  with step show ?thesis by (cases ev) (auto simp: Let_def split: prod.splits)
qed (use roll in \<open>auto simp: rolling_def\<close>)

lemma rolling_next:
  "rolling n w \<Longrightarrow> wf_phase w = Continued inp \<Longrightarrow> rolling n (startRun now m inp)"
  by (auto simp: rolling_def startRun_def initialBill_def)

lemma rolling_open: "rolling n w \<Longrightarrow> open_run (Some w)"
  by (cases "wf_phase w") (auto simp: rolling_def open_run_def)

lemma rolling_forever:
  assumes "leads lib cooperative \<sigma> \<sigma>'" "run_of \<sigma> wid = Some w" "rolling n w"
  shows "\<exists>w'. run_of \<sigma>' wid = Some w' \<and> rolling n w'"
  using assms
proof (induction rule: leads.induct)
  case (leads_step \<sigma> \<sigma>' e \<sigma>'')
  then obtain w' where w': "run_of \<sigma>' wid = Some w'" "rolling n w'" by blast
  from leads_step.hyps(3) show ?case
  proof (cases rule: sys_step_cases)
    case (started inp now)
    with w' rolling_open [OF w'(2)] show ?thesis by auto
  next
    case (ran wid' ev v v' s' rs)
    then show ?thesis using w' leads_step.hyps(2) rolling_step [OF w'(2)] by (cases "wid = wid'") auto
  next
    case (resumed wid' now m v inp)
    then show ?thesis using w' rolling_next [OF w'(2)] by (cases "wid = wid'") auto
  qed
qed blast

subsection \<open>A run that reaches the threshold\<close>

text \<open>A thousand items, one after the other, on a bill without a period.\<close>

definition nth_id :: "nat \<Rightarrow> string" where
  "nth_id k = replicate k (CHR ''i'')"

lemma nth_id_inj [simp]: "nth_id j = nth_id k \<longleftrightarrow> j = k"
  by (metis length_replicate nth_id_def)

definition after_items :: "nat \<Rightarrow> int Sys \<Rightarrow> bool" where
  "after_items n \<sigma> \<longleftrightarrow>
     (\<exists>w r. run_of \<sigma> (workflowID ''b1'') = Some w \<and> wf_phase w = Serving \<and> wf_handlers w = [] \<and>
        \<not> wf_settled w \<and> wf_reason w = CloseReasonNone \<and> wf_seen w = nth_id ` {..<n} \<and>
        bill_ID (wf_bill w) = ''b1'' \<and> bill_AccountID (wf_bill w) = ''acct-alpha'' \<and>
        bill_Currency (wf_bill w) = ''USD'' \<and> bill_ItemCount (wf_bill w) = int n \<and>
        find_bill ''b1'' (fst (sys_store \<sigma>)) = Some r \<and> br_total_amount r = 15 * int n \<and>
        lr_id ` set (line_items (fst (sys_store \<sigma>))) = nth_id ` {..<n} \<and>
        er_id ` set (bill_events (fst (sys_store \<sigma>))) = nth_id ` {..n} \<and>
        ''USD'' \<in> cr_code ` set (currencies (fst (sys_store \<sigma>))))"

lemma post_item_frame:
  "currencies (post_item row t ev db) = currencies db"
  "bill_events (post_item row t ev db) = bill_events db @ [ev]"
  by (simp_all add: post_item_def)

lemma leads_reachable: "leads lib G \<sigma> \<sigma>' \<Longrightarrow> reachable lib G \<sigma> \<Longrightarrow> reachable lib G \<sigma>'"
  by (induction rule: leads.induct) (auto intro: reach_step)

lemma after_no_items:
  "\<exists>\<sigma>. reachable sample_lib cooperative \<sigma> \<and> after_items 0 \<sigma>"
proof -
  let ?es = "open_events ''b1'' ''acct-alpha'' '''' :: int SysEvent list"
  have "case sys_run sample_lib ?es sample_sys of None \<Rightarrow> False | Some \<sigma> \<Rightarrow>
      guarded_run sample_lib cooperative ?es sample_sys \<and>
      (case run_of \<sigma> (workflowID ''b1'') of None \<Rightarrow> False | Some w \<Rightarrow>
        wf_phase w = Serving \<and> wf_handlers w = [] \<and>
        \<not> wf_settled w \<and> wf_reason w = CloseReasonNone \<and> wf_seen w = {} \<and>
        bill_ID (wf_bill w) = ''b1'' \<and> bill_AccountID (wf_bill w) = ''acct-alpha'' \<and>
        bill_Currency (wf_bill w) = ''USD'' \<and> bill_ItemCount (wf_bill w) = 0 \<and>
        (case find_bill ''b1'' (fst (sys_store \<sigma>)) of None \<Rightarrow> False | Some r \<Rightarrow> br_total_amount r = 0) \<and>
        line_items (fst (sys_store \<sigma>)) = [] \<and>
        map er_id (bill_events (fst (sys_store \<sigma>))) = [''''] \<and>
        ''USD'' \<in> cr_code ` set (currencies (fst (sys_store \<sigma>))))"
    by code_simp
  then obtain \<sigma> w r where run: "sys_run sample_lib ?es sample_sys = Some \<sigma>"
    and g: "guarded_run sample_lib cooperative ?es sample_sys"
    and w: "run_of \<sigma> (workflowID ''b1'') = Some w" "wf_phase w = Serving" "wf_handlers w = []"
      "\<not> wf_settled w" "wf_reason w = CloseReasonNone" "wf_seen w = {}"
      "bill_ID (wf_bill w) = ''b1''" "bill_AccountID (wf_bill w) = ''acct-alpha''"
      "bill_Currency (wf_bill w) = ''USD''" "bill_ItemCount (wf_bill w) = 0"
    and r: "find_bill ''b1'' (fst (sys_store \<sigma>)) = Some r" "br_total_amount r = 0"
      "line_items (fst (sys_store \<sigma>)) = []" "map er_id (bill_events (fst (sys_store \<sigma>))) = ['''']"
      "''USD'' \<in> cr_code ` set (currencies (fst (sys_store \<sigma>)))"
    by (auto split: option.splits)
  from r(4) have "er_id ` set (bill_events (fst (sys_store \<sigma>))) = {nth_id 0}"
    by (simp add: nth_id_def flip: set_map)
  with w r have "after_items 0 \<sigma>" by (simp add: after_items_def)
  with reachable_guarded_run [OF reach_init [OF sample_init] g run] show ?thesis by blast
qed

lemma serving_ready:
  assumes "wf_phase w = Serving" "\<not> closeOrThreshold w"
  shows "wf_step lib (UpdateArrives inp now) w s = Some (w', s', rs) \<Longrightarrow>
      wf_phase w' = Serving \<and> \<not> closeOrThreshold w'"
    and "wf_step lib (AppendAttempt k env rep) w s = Some (w', s', rs) \<Longrightarrow>
      wf_phase w' = Serving \<and> \<not> closeOrThreshold w'"
  using assms
  by (auto simp: receiveUpdate_def set_handler_act_def Let_def closeOrThreshold_def
      split: option.splits if_splits prod.splits)

lemma cooperative_serving:
  "run_of \<sigma> wid = Some w \<Longrightarrow> wf_phase w = Serving \<Longrightarrow> \<not> closeOrThreshold w \<Longrightarrow>
   cooperative \<sigma> (RunEvent wid ev)"
  by (simp add: main_ready_def)

lemma after_next_item:
  assumes "after_items n \<sigma>" "n < 1000"
  shows "\<exists>\<sigma>'. leads sample_lib cooperative \<sigma> \<sigma>' \<and> after_items (Suc n) \<sigma>'"
proof -
  let ?inp = "item_input ''acct-alpha'' (nth_id n) 15 :: int AddLineItemInput"
  let ?env = "good_env (nth_id (Suc n))" and ?wid = "workflowID ''b1''"
  obtain w r where w: "run_of \<sigma> ?wid = Some w" "wf_phase w = Serving" "wf_handlers w = []"
      "\<not> wf_settled w" "wf_reason w = CloseReasonNone" "wf_seen w = nth_id ` {..<n}"
      "bill_ID (wf_bill w) = ''b1''" "bill_AccountID (wf_bill w) = ''acct-alpha''"
      "bill_Currency (wf_bill w) = ''USD''" "bill_ItemCount (wf_bill w) = int n"
    and r: "find_bill ''b1'' (fst (sys_store \<sigma>)) = Some r" "br_total_amount r = 15 * int n"
      "lr_id ` set (line_items (fst (sys_store \<sigma>))) = nth_id ` {..<n}"
      "er_id ` set (bill_events (fst (sys_store \<sigma>))) = nth_id ` {..n}"
      "''USD'' \<in> cr_code ` set (currencies (fst (sys_store \<sigma>)))"
    using assms(1) by (auto simp: after_items_def)
  have post: "can_post sample_lib ?env (wf_bill w) ?inp (fst (sys_store \<sigma>))"
    using w r assms(2)
    by (auto simp: can_post_def good_env_def item_input_def sample_lib_def sample_numeric_def find_item_None)
  have val: "validateAddLineItem (wf_bill w) ?inp = None"
    using w by (simp add: validateAddLineItem_def item_input_def)
  have new: "in_ItemID ?inp \<notin> wf_seen w" using w(6) by (auto simp: item_input_def)
  obtain w1 w2 s2 where
    st: "wf_step sample_lib (UpdateArrives ?inp (at_time 1)) w (sys_store \<sigma>) = Some (w1, sys_store \<sigma>, [])"
      "wf_step sample_lib (AppendAttempt 0 ?env True) w1 (sys_store \<sigma>) = Some (w2, s2, [])"
      "wf_step sample_lib (AppendReturns 0) w2 s2 =
        Some (w\<lparr>wf_bill := applyItem ?inp (wf_bill w), wf_seen := insert (in_ItemID ?inp) (wf_seen w)\<rparr>, s2,
          [(?inp, Inr (addResult (applyItem ?inp (wf_bill w)) (in_ItemID ?inp)))])"
      "AppendLineItemActivity sample_lib ?env (appendInput (wf_bill w) ?inp (newItem (at_time 1) ?inp)) (sys_store \<sigma>) = (Inr (), s2)"
    using add_item_steps [OF _ val new post, of 0] w(2,3) by fastforce
  let ?w3 = "w\<lparr>wf_bill := applyItem ?inp (wf_bill w), wf_seen := insert (in_ItemID ?inp) (wf_seen w)\<rparr>"
  let ?reply = "(?inp, Inr (addResult (applyItem ?inp (wf_bill w)) (in_ItemID ?inp)))"
  let ?\<sigma>1 = "(set_run ?wid w1 \<sigma>)\<lparr>sys_store := sys_store \<sigma>, sys_replies := sys_replies \<sigma>\<rparr>"
  let ?\<sigma>2 = "(set_run ?wid w2 ?\<sigma>1)\<lparr>sys_store := s2, sys_replies := sys_replies \<sigma>\<rparr>"
  let ?\<sigma>3 = "(set_run ?wid ?w3 ?\<sigma>2)\<lparr>sys_store := s2, sys_replies := sys_replies \<sigma> @ [(?wid, ?reply)]\<rparr>"
  have ser: "\<not> closeOrThreshold w" using w assms(2) by (simp add: closeOrThreshold_def continueAsNewThreshold_def)
  note s1 = serving_ready(1) [OF w(2) ser st(1)]
  then have s2: "wf_phase w2 = Serving \<and> \<not> closeOrThreshold w2" using serving_ready(2) st(2) by blast
  have "sys_step sample_lib (RunEvent ?wid (UpdateArrives ?inp (at_time 1))) \<sigma> = Some ?\<sigma>1"
    "sys_step sample_lib (RunEvent ?wid (AppendAttempt 0 ?env True)) ?\<sigma>1 = Some ?\<sigma>2"
    "sys_step sample_lib (RunEvent ?wid (AppendReturns 0)) ?\<sigma>2 = Some ?\<sigma>3"
    using w(1) st(1-3) by (simp_all del: wf_step.simps)
  moreover have "cooperative \<sigma> (RunEvent ?wid (UpdateArrives ?inp (at_time 1)))"
    "cooperative ?\<sigma>1 (RunEvent ?wid (AppendAttempt 0 ?env True))"
    "cooperative ?\<sigma>2 (RunEvent ?wid (AppendReturns 0))"
    using w(1,2) ser s1 s2 by (intro cooperative_serving [where w = w] cooperative_serving [where w = w1]
        cooperative_serving [where w = w2]; simp)+
  ultimately have "leads sample_lib cooperative \<sigma> ?\<sigma>3"
    by (meson leads_refl leads_step)
  moreover obtain a t ev where eff: "pg_numeric sample_lib (br_total_amount r + 15) = Some t"
      "er_id ev = nth_id (Suc n)"
      "fst s2 = post_item (itemRow sample_lib (nth_id n) ''b1'' a (newItem (at_time 1) ?inp)) t ev
         (fst (sys_store \<sigma>))"
    using AppendLineItemActivity_posts [OF post, where now = "at_time 1"] st(4) r(1) w(7)
    by (auto simp: sample_lib_def item_input_def good_env_def)
  have "t = 15 * int (Suc n)"
    using eff(1) r(2) by (simp add: sample_lib_def sample_numeric_def split: if_splits)
  with eff(2,3) w r have "after_items (Suc n) ?\<sigma>3"
    by (simp add: after_items_def applyItem_def lessThan_Suc atMost_Suc post_item_frame item_input_def)
  ultimately show ?thesis by blast
qed

lemma after_many_items: "n \<le> 1000 \<Longrightarrow> \<exists>\<sigma>. reachable sample_lib cooperative \<sigma> \<and> after_items n \<sigma>"
proof (induction n)
  case 0
  show ?case by (rule after_no_items)
next
  case (Suc n)
  then obtain \<sigma> where "reachable sample_lib cooperative \<sigma>" "after_items n \<sigma>" by auto
  with Suc.prems after_next_item [of n \<sigma>] leads_reachable show ?case by fastforce
qed

lemma rolling_reachable:
  "\<exists>\<sigma> w. reachable sample_lib cooperative \<sigma> \<and> run_of \<sigma> (workflowID ''b1'') = Some w \<and> rolling 1000 w"
  using after_many_items [of 1000]
  by (fastforce simp: after_items_def rolling_def continueAsNewThreshold_def)

text \<open>The roll-over itself: the run hands off its bill and the ids of its items.\<close>

lemma rolled_over:
  assumes "after_items n \<sigma>" "1000 \<le> n"
  shows "\<exists>\<sigma>' w inp. sys_run sample_lib (map (RunEvent (workflowID ''b1''))
        [AwaitReturns, DrainReturns (at_time 2) (map nth_id [0..<n])]) \<sigma> = Some \<sigma>' \<and>
      run_of \<sigma>' (workflowID ''b1'') = Some w \<and> wf_phase w = Continued inp \<and>
      bill_ItemCount (wf_bill w) = int n \<and> wf_seen w = nth_id ` {..<n}"
proof -
  obtain w where w: "run_of \<sigma> (workflowID ''b1'') = Some w" "wf_phase w = Serving" "wf_handlers w = []"
      "wf_reason w = CloseReasonNone" "wf_seen w = nth_id ` {..<n}" "bill_ItemCount (wf_bill w) = int n"
    using assms(1) by (auto simp: after_items_def)
  have "closeOrThreshold w" using w assms(2) by (simp add: closeOrThreshold_def continueAsNewThreshold_def)
  moreover have "set (map nth_id [0..<n]) = wf_seen w" "distinct (map nth_id [0..<n])"
    using w(5) by (auto simp: distinct_map inj_on_def atLeast0LessThan)
  ultimately show ?thesis using w by (simp add: afterDrain_def del: set_map)
qed

lemma rolled_over_reachable:
  "\<exists>\<sigma> w inp. reachable sample_lib always \<sigma> \<and> run_of \<sigma> (workflowID ''b1'') = Some w \<and>
     wf_phase w = Continued inp \<and> bill_ItemCount (wf_bill w) = 1000 \<and> wf_seen w = nth_id ` {..<1000}"
proof -
  obtain \<sigma> where "reachable sample_lib cooperative \<sigma>" "after_items 1000 \<sigma>" using after_many_items by blast
  moreover from rolled_over [OF this(2)] obtain \<sigma>' w inp where
    "sys_run sample_lib (map (RunEvent (workflowID ''b1''))
        [AwaitReturns, DrainReturns (at_time 2) (map nth_id [0..<1000])]) \<sigma> = Some \<sigma>'"
    "run_of \<sigma>' (workflowID ''b1'') = Some w" "wf_phase w = Continued inp" "bill_ItemCount (wf_bill w) = int 1000"
    "wf_seen w = nth_id ` {..<1000}" by blast
  ultimately show ?thesis
    using reachable_run [OF reachable_mono [of sample_lib cooperative \<sigma> always]] by fastforce
qed

subsection \<open>An item that can be posted\<close>

definition opened_sys :: "rat Sys" where
  "opened_sys = the (sys_run column_lib (open_events bill_uuid ''acct-alpha'' ''e1'') sample_sys)"

definition opened_run :: "rat WF" where
  "opened_run = the (run_of opened_sys (workflowID bill_uuid))"

definition opened_item :: "rat AddLineItemInput" where
  "opened_item = item_input ''acct-alpha'' item_uuid (1599 / 100)"

lemma opened_ready:
  "serving (wf_phase opened_run)" "validateAddLineItem (wf_bill opened_run) opened_item = None"
  "in_ItemID opened_item \<notin> wf_seen opened_run" "wf_handlers opened_run = []"
  by code_simp+

lemma opened_reachable: "reachable column_lib always opened_sys"
proof -
  have "sys_run column_lib (open_events bill_uuid ''acct-alpha'' ''e1'') sample_sys \<noteq> None" by code_simp
  then have "sys_run column_lib (open_events bill_uuid ''acct-alpha'' ''e1'') sample_sys = Some opened_sys"
    by (simp add: opened_sys_def)
  then show ?thesis by (rule sample_reachable)
qed

lemma opened_run_of: "run_of opened_sys (workflowID bill_uuid) = Some opened_run"
proof -
  have "run_of opened_sys (workflowID bill_uuid) \<noteq> None" by code_simp
  then show ?thesis by (simp add: opened_run_def)
qed

lemma opened_can_post:
  "can_post column_lib (good_env ''e2'') (wf_bill opened_run) opened_item (fst (sys_store opened_sys))"
  by code_simp

end
