(* ===== verification/Closing.thy ===== *)
theory Closing
  imports Rollover
begin

section \<open>Closing a bill\<close>

text \<open>
  When nothing fails, a close signal closes the bill: the events that follow it are carried out
  one after the other up to the result. And what the activity's retries leave behind: a close
  that commits without being reported is carried out again.
\<close>

fun wf_run :: "'d lib \<Rightarrow> 'd::{zero,ord,plus} Event list \<Rightarrow> 'd WF \<Rightarrow> 'd Store \<Rightarrow> ('d WF \<times> 'd Store) option" where
  "wf_run lib [] w s = Some (w, s)"
| "wf_run lib (e # es) w s =
     (case wf_step lib e w s of None \<Rightarrow> None | Some (w', s', _) \<Rightarrow> wf_run lib es w' s')"

definition can_close :: "'d lib \<Rightarrow> tx_env \<Rightarrow> 'd Bill \<Rightarrow> 'd DB \<Rightarrow> bool" where
  "can_close lib env b db \<longleftrightarrow>
     \<not> begin_fails env \<and> stmt_fails env = None \<and> commit env = CommitOk \<and>
     tx_fresh env \<notin> er_id ` set (bill_events db) \<and> pg_numeric lib (bill_TotalAmount b) \<noteq> None \<and>
     (case pg_uuid lib (bill_ID b) of None \<Rightarrow> False | Some u \<Rightarrow> find_bill u db \<noteq> None)"

lemma CloseBillActivity_closes:
  fixes s :: "'d::{zero,ord} Store"
  assumes "can_close lib env b (fst s)" and inp: "inp = closeInput now reason b"
  shows "\<exists>u r t s'. CloseBillActivity lib env inp s = (Inr (), s') \<and>
    pg_uuid lib (bill_ID b) = Some u \<and> find_bill u (fst s) = Some r \<and>
    pg_numeric lib (bill_TotalAmount b) = Some t \<and>
    find_bill u (fst s') = Some (close_row t (pg_time lib now) (nullableCloseReason reason) r)"
proof -
  from assms obtain u r t where
    u: "pg_uuid lib (bill_ID b) = Some u" "find_bill u (fst s) = Some r"
      "pg_numeric lib (bill_TotalAmount b) = Some t"
    by (auto simp: can_close_def split: option.splits)
  let ?db = "(fst s)\<lparr>bills := upd_where br_id u
      (close_row t (pg_time lib now) (nullableCloseReason reason)) (bills (fst s))\<rparr>"
  have env: "\<not> begin_fails env" "stmt_fails env = None" "commit env = CommitOk"
    "tx_fresh env \<notin> er_id ` set (bill_events ?db)"
    using assms by (simp_all add: can_close_def)
  have row: "find_bill u ?db = Some (close_row t (pg_time lib now) (nullableCloseReason reason) r)"
    using u by simp
  have upd: "update_bill_close lib (cb_BillID inp) (cb_TotalAmount inp) (cb_ClosedAt inp)
      (nullableCloseReason (cb_CloseReason inp)) (fst s) = Inr ?db"
    using u by (simp add: inp closeInput_def update_bill_close_def)
  note ev = insert_event_succeeds [OF u(1) env(4) row]
  have "\<exists>s'. CloseBillTx lib env inp s = (Inr (), s') \<and> bills (fst s') = bills ?db"
    unfolding CloseBillTx_def upd
    by (simp add: sql_def env appendEvent_def ev inp closeInput_def)
  then obtain s' where s': "CloseBillTx lib env inp s = (Inr (), s')" "bills (fst s') = bills ?db" by blast
  have "CloseBillActivity lib env inp s = (Inr (), s')"
    unfolding CloseBillActivity_def using env(1) s'(1) env(3) by (rule inTx_ok)
  with s'(2) u row show ?thesis unfolding find_bill_def by metis
qed

lemma close_steps:
  fixes w :: "'d::{zero,ord,plus} WF"
  assumes w: "wf_phase w = Serving" "wf_handlers w = []" "wf_sel w = SelWaiting"
    and ids: "distinct ids" "set ids = wf_seen w"
    and close: "can_close lib env (wf_bill w) (fst s)"
  shows "\<exists>u r t w' s'. wf_run lib [SignalArrives, SelectorSignal, AwaitReturns, DrainReturns now ids,
        CloseAttempt env True, CloseReturns] w s = Some (w', s') \<and>
      wf_phase w' = Completed (billResult CloseReasonSignal (wf_bill w)) \<and>
      pg_uuid lib (bill_ID (wf_bill w)) = Some u \<and> find_bill u (fst s) = Some r \<and>
      pg_numeric lib (bill_TotalAmount (wf_bill w)) = Some t \<and>
      find_bill u (fst s') = Some (close_row t (pg_time lib now) (Some CloseReasonSignal) r)"
proof -
  let ?b = "closedBill now CloseReasonSignal (wf_bill w)"
  let ?inp = "closeInput now CloseReasonSignal ?b"
  have "can_close lib env ?b (fst s)"
    using close by (simp add: can_close_def closedBill_def)
  from CloseBillActivity_closes [OF this refl] obtain u r t s' where
    act: "CloseBillActivity lib env ?inp s = (Inr (), s')"
    and eff: "pg_uuid lib (bill_ID ?b) = Some u" "find_bill u (fst s) = Some r"
      "pg_numeric lib (bill_TotalAmount ?b) = Some t"
      "find_bill u (fst s') = Some (close_row t (pg_time lib now) (nullableCloseReason CloseReasonSignal) r)"
    by blast
  have "\<exists>w'. wf_run lib [SignalArrives, SelectorSignal, AwaitReturns, DrainReturns now ids,
        CloseAttempt env True, CloseReturns] w s = Some (w', s') \<and>
      wf_phase w' = Completed (billResult CloseReasonSignal (wf_bill w))"
    using w ids act
    by (simp add: selectorSignal_def closeOrThreshold_def afterDrain_def can_attempt_def act_new_def
        shortActivityOpts_def after_attempt_def Let_def closeInput_def closedBill_def billResult_def)
  then obtain w' where "wf_run lib [SignalArrives, SelectorSignal, AwaitReturns, DrainReturns now ids,
        CloseAttempt env True, CloseReturns] w s = Some (w', s')"
      "wf_phase w' = Completed (billResult CloseReasonSignal (wf_bill w))" by blast
  moreover have "bill_ID ?b = bill_ID (wf_bill w)" "bill_TotalAmount ?b = bill_TotalAmount (wf_bill w)"
    "nullableCloseReason CloseReasonSignal = Some CloseReasonSignal"
    by (simp_all add: closedBill_def nullableCloseReason_def)
  ultimately show ?thesis using eff by (metis (no_types))
qed

subsection \<open>Examples\<close>

text \<open>The sample run with its selector waiting.\<close>

definition waiting_run :: "rat WF" where
  "waiting_run = selectorStart (at_time 0) opened_run"

lemma waiting_ready:
  "wf_phase waiting_run = Serving" "wf_handlers waiting_run = []" "wf_sel waiting_run = SelWaiting"
  "wf_seen waiting_run = {}" "bill_ID (wf_bill waiting_run) = bill_uuid"
proof -
  have "wf_phase opened_run = Serving \<and> wf_handlers opened_run = [] \<and> wi_PeriodEnd (wf_input opened_run) = None \<and>
    wf_seen opened_run = {} \<and> bill_ID (wf_bill opened_run) = bill_uuid"
    by code_simp
  then show "wf_phase waiting_run = Serving" "wf_handlers waiting_run = []" "wf_sel waiting_run = SelWaiting"
    "wf_seen waiting_run = {}" "bill_ID (wf_bill waiting_run) = bill_uuid"
    by (simp_all add: waiting_run_def selectorStart_def)
qed

lemma waiting_can_close: "can_close column_lib (good_env ''e2'') (wf_bill waiting_run) (fst (sys_store opened_sys))"
  by code_simp

text \<open>A close that commits, is not reported, and is attempted again.\<close>

definition close_twice :: "int SysEvent list" where
  "close_twice =
     open_events ''b1'' ''acct-alpha'' ''e1'' @ closing_events ''b1'' @
     map (RunEvent (workflowID ''b1''))
       [CloseAttempt (lost_env ''e2'') False, CloseAttempt (good_env ''e3'') True, CloseReturns]"

definition closed_count :: "int SysEvent list \<Rightarrow> (BillStatus \<times> nat) option" where
  "closed_count es =
     (case sys_run sample_lib es sample_sys of
        None \<Rightarrow> None
      | Some \<sigma> \<Rightarrow> map_option (\<lambda>r. (br_status r, count_events ''b1'' BillEventClosed (fst (sys_store \<sigma>))))
          (find_bill ''b1'' (fst (sys_store \<sigma>))))"

lemma close_twice_count: "closed_count close_twice = Some (BillStatusClosed, 2)"
  by code_simp

text \<open>The sample run on its way to the close, its updates drained.\<close>

definition draining_sys :: "rat Sys" where
  "draining_sys = the (sys_run column_lib (open_events bill_uuid ''acct-alpha'' ''e1'' @
     map (RunEvent (workflowID bill_uuid)) [SignalArrives, SelectorStart (at_time 9), SelectorSignal, AwaitReturns])
     sample_sys)"

definition draining_run :: "rat WF" where
  "draining_run = the (run_of draining_sys (workflowID bill_uuid))"

lemma draining_reachable: "reachable column_lib always draining_sys"
proof -
  have "sys_run column_lib (open_events bill_uuid ''acct-alpha'' ''e1'' @
     map (RunEvent (workflowID bill_uuid)) [SignalArrives, SelectorStart (at_time 9), SelectorSignal, AwaitReturns])
     sample_sys \<noteq> None" by code_simp
  then have "sys_run column_lib (open_events bill_uuid ''acct-alpha'' ''e1'' @
     map (RunEvent (workflowID bill_uuid)) [SignalArrives, SelectorStart (at_time 9), SelectorSignal, AwaitReturns])
     sample_sys = Some draining_sys" by (simp add: draining_sys_def)
  then show ?thesis by (rule sample_reachable)
qed

lemma draining_run_of: "run_of draining_sys (workflowID bill_uuid) = Some draining_run"
proof -
  have "run_of draining_sys (workflowID bill_uuid) \<noteq> None" by code_simp
  then show ?thesis by (simp add: draining_run_def)
qed

lemma draining_ready:
  "wf_phase draining_run = Draining CloseReasonSignal" "wf_handlers draining_run = []" "wf_seen draining_run = {}"
  "validateAddLineItem (wf_bill draining_run) opened_item = None"
  "bill_AccountID (wf_bill draining_run) = ''acct-alpha''"
  "pg_numeric column_lib (bill_TotalAmount (wf_bill draining_run)) = Some 0"
proof -
  have "case wf_phase draining_run of Draining CloseReasonSignal \<Rightarrow> True | _ \<Rightarrow> False" by code_simp
  then show "wf_phase draining_run = Draining CloseReasonSignal"
    by (simp split: Phase.splits CloseReason.splits)
  show "wf_handlers draining_run = []" "wf_seen draining_run = {}"
    "validateAddLineItem (wf_bill draining_run) opened_item = None"
    "bill_AccountID (wf_bill draining_run) = ''acct-alpha''"
    "pg_numeric column_lib (bill_TotalAmount (wf_bill draining_run)) = Some 0"
    by code_simp+
qed

lemma draining_can_post:
  "can_post column_lib (good_env ''e2'') (wf_bill draining_run) opened_item (fst (sys_store draining_sys))"
  by code_simp

lemma draining_row:
  "map er_id (bill_events (fst (sys_store draining_sys))) = [''e1'']"
  "case find_bill bill_uuid (fst (sys_store draining_sys)) of
     None \<Rightarrow> False | Some r \<Rightarrow> br_status r = BillStatusOpen \<and> br_account_id r = ''acct-alpha''"
  "pg_uuid column_lib bill_uuid = Some bill_uuid"
  by code_simp+

end
