(* ===== verification/Divergence.thy ===== *)
theory Divergence
  imports Samples
begin

section \<open>Executions in which workflow and database part\<close>

text \<open>
  An execution within \<open>undisturbed\<close>, and two outside it that close a bill with a total that is not
  the sum of its line items: an activity given up after its commit, and amounts the column rounds. The
  runs are evaluated on the seeded database (theory \<open>Samples\<close>). The other ways in which workflow and
  tables part are general theorems, from theory \<open>Partings\<close>.
\<close>

subsection \<open>A run in which they agree\<close>

lemma billed_undisturbed:
  "guarded_run column_lib (undisturbed column_lib) billed_events sample_sys"
  by code_simp
lemma billed_undisturbed_reachable:
  "reachable column_lib (undisturbed column_lib) billed_sys"
  using reachable_guarded_run [OF reach_init [OF sample_init] billed_undisturbed billed_run] .

lemma billed_completed:
  "(case run_of billed_sys (workflowID bill_uuid) of
      Some w \<Rightarrow> (case wf_phase w of
         Completed res \<Rightarrow> br_BillID res = bill_uuid \<and> br_ItemCount res = 2 | _ \<Rightarrow> False)
    | None \<Rightarrow> False)"
  by code_simp
lemma billed_replies:
  "list_ex (\<lambda>(wid, inp, r). wid = workflowID bill_uuid \<and> inp = item_input ''acct-alpha'' item_uuid (1599 / 100) \<and> \<not> isl r)
    (sys_replies billed_sys)"
  by code_simp

subsection \<open>Runs in which they part\<close>

text \<open>
  What the database says of a closed bill: the total of its row, the sum of its line items and
  their number.
\<close>

definition closed_books :: "'d lib \<Rightarrow> 'd::comm_monoid_add Sys \<Rightarrow> string \<Rightarrow> ('d \<times> 'd \<times> nat) option" where
  "closed_books lib \<sigma> billID =
     (let db = fst (sys_store \<sigma>) in
      case pg_uuid lib billID of
        None \<Rightarrow> None
      | Some u \<Rightarrow>
          (case find_bill u db of
             None \<Rightarrow> None
           | Some r \<Rightarrow>
               if br_status r = BillStatusClosed
               then Some (br_total_amount r, items_total u db, length (items_of u db)) else None))"

definition run_books ::
  "'d lib \<Rightarrow> 'd::linordered_ab_group_add SysEvent list \<Rightarrow> string \<Rightarrow> ('d \<times> 'd \<times> nat) option" where
  "run_books lib es billID =
     (case sys_run lib es sample_sys of None \<Rightarrow> None | Some \<sigma> \<Rightarrow> closed_books lib \<sigma> billID)"

text \<open>An activity that commits, is not reported, and is given up.\<close>

definition unreported_item :: "int SysEvent list" where
  "unreported_item =
     open_events ''b1'' ''acct-alpha'' ''e1'' @
     map (RunEvent (workflowID ''b1''))
       [UpdateArrives (item_input ''acct-alpha'' ''i1'' 15) (at_time 1),
        AppendAttempt 0 (lost_env ''e2'') False, AppendGivesUp 0 (2 * minute)] @
     close_run ''b1'' [] ''e3''"

lemma unreported_item_books: "run_books sample_lib unreported_item ''b1'' = Some (0, 15, 1)"
  by code_simp

text \<open>An amount with more decimals than the column keeps, on the declared columns.\<close>

definition rounded_amounts :: "rat SysEvent list" where
  "rounded_amounts =
     open_events bill_uuid ''acct-alpha'' ''e1'' @
     add_run bill_uuid (item_input ''acct-alpha'' item_uuid (15 / 10 ^ 11)) ''e2'' @
     add_run bill_uuid (item_input ''acct-alpha'' item_uuid2 (15 / 10 ^ 11)) ''e3'' @
     close_run bill_uuid [item_uuid, item_uuid2] ''e4''"

lemma rounded_amounts_books:
  "run_books column_lib rounded_amounts bill_uuid = Some (3 / 10 ^ 10, 4 / 10 ^ 10, 2)"
  by code_simp

end
