(* ===== verification/Gateway.thy ===== *)
theory Gateway
  imports Service Closing Divergence
begin

section \<open>Requests from end to end\<close>

text \<open>
  The components composed: a request's identity through the auth handler and the middleware, an
  update's answer through the workflow and back to the endpoint, a bill read from the workflow or
  from the tables, and the endpoints' answers to identifiers and cursors the columns do not take.
\<close>

declare sys_step.simps [simp del] wf_step.simps [simp del] run_events.simps [simp del]

subsection \<open>Identity\<close>

context client_lookup
begin

text \<open>A mutating request that is carried out comes from a client that was active minutes ago.\<close>

lemma mutation_recent:
  assumes "reflects held hist now c" "query_failure failure"
    and "\<And>c. reflects held hist now c \<Longrightarrow> reflects held hist now (others c)"
    and auth: "AuthHandler ops others now failure header (hist now) c = (Returns (Inr (uid, d)), c')"
    and run: "RequireActiveCaller (Some d) endpoint w = (Inr r, w')"
  shows "endpoint w = (Inr r, w') \<and> callerAccountID (Some d) = TrimSpace header \<and>
    (\<exists>cl. recently hist now (TrimSpace header) (Some cl) \<and> client_Status cl = ClientStatusActive)"
proof -
  note id = auth_recent [OF assms(1-3) auth]
  from RequireActiveCaller_Inr [OF run] have "endpoint w = (Inr r, w')" "ad_Status d = ClientStatusActive"
    by auto
  with id show ?thesis by (auto simp: callerAccountID_def)
qed

lemma get_removed:
  "cache_Get ops now i (cache_Remove ops i c) = (g, c1) \<Longrightarrow> g = None \<and> fst (cache_Get ops now' i c1) = None"
proof
  assume get: "cache_Get ops now i (cache_Remove ops i c) = (g, c1)"
  then show "g = None" using removed_not_returned by (metis fst_conv)
  have empty: "held c1 i = None"
    using held_get [OF get] held_remove by (metis not_None_eq)
  show "fst (cache_Get ops now' i c1) = None"
  proof (rule ccontr)
    assume "fst (cache_Get ops now' i c1) \<noteq> None"
    then obtain v c2 where "cache_Get ops now' i c1 = (Some v, c2)" by (metis not_None_eq prod.collapse)
    from get_held [OF this] empty show False by simp
  qed
qed

text \<open>After an invalidation the table is read.\<close>

lemma lookup_invalidated:
  "fst (lookupClient ops (\<lambda>c. c) now None i db (invalidateClient ops i c)) =
     (case client_at i db of None \<Rightarrow> Inl ErrClientNotFound | Some cl \<Rightarrow> Inr (Some cl))"
proof -
  obtain g c1 where g: "cache_Get ops now i (cache_Remove ops i c) = (g, c1)" by (rule prod.exhaust)
  obtain g' c2 where g': "cache_Get ops now i c1 = (g', c2)" by (rule prod.exhaust)
  from get_removed [OF g, of now] g' have "g = None" "g' = None" by simp_all
  with g g' show ?thesis
    by (auto simp: lookupClient_def clientLoad_def invalidateClient_def loadClientFromDB_def client_at_def
        split: option.splits)
qed

end

text \<open>
  Two requests for an unknown account at the same time: the other one caches the miss after this
  one has looked, and before it enters \<open>singleflight\<close>.
\<close>

lemma unknown_twice:
  assumes "TrimSpace header \<noteq> ''''" "find_client (TrimSpace header) db = None"
  shows "fst (AuthHandler clientCache (\<lambda>c. snd (lookupClient clientCache (\<lambda>c. c) now None (TrimSpace header) db c))
      now None header db []) = Panics"
proof -
  have "now < now + clientCacheTTL" by (simp add: clientCacheTTL_def minute_def second_def)
  then show ?thesis
    using assms
    by (simp add: AuthHandler_def lookupClient_def clientLoad_def loadClientFromDB_def lru_def lru_Get_def
        lru_Add_def clientCache_def clientCacheSize_def Let_def)
qed

subsection \<open>Answers of an update\<close>

lemma sys_step_replies: "sys_step lib e \<sigma> = Some \<sigma>' \<Longrightarrow> \<exists>rs. sys_replies \<sigma>' = sys_replies \<sigma> @ rs"
  by (erule sys_step_cases) auto

lemma run_events_replies: "\<exists>rs. sys_replies (run_events lib es \<sigma>) = sys_replies \<sigma> @ rs"
proof (induction es arbitrary: \<sigma>)
  case (Cons e es)
  show ?case
  proof (cases "sys_step lib e \<sigma>")
    case None
    with Cons [of \<sigma>] show ?thesis by (simp add: run_events.simps)
  next
    case (Some \<sigma>')
    from Cons [of \<sigma>'] sys_step_replies [OF Some] show ?thesis
      unfolding run_events.simps Some option.case by (metis append.assoc)
  qed
qed (simp add: run_events.simps)

text \<open>An update the run answers at once: by its validator, or because it has the item already.\<close>

definition answered :: "string \<Rightarrow> 'd AddLineItemInput \<Rightarrow> (go_error + 'd AddLineItemResult) \<Rightarrow> 'd Sys \<Rightarrow> 'd Sys" where
  "answered wid inp r \<sigma> =
     (set_run wid (the (run_of \<sigma> wid)) \<sigma>)\<lparr>sys_store := sys_store \<sigma>, sys_replies := sys_replies \<sigma> @ [(wid, inp, r)]\<rparr>"

lemma update_answered:
  fixes w :: "('d::{zero,ord,plus}, 'd Sys) World"
  assumes run: "run_of (sys_of w) wid = Some ru" "serving (wf_phase ru)"
    and at_once: "receiveUpdate now inp ru = (ru, [(inp, r)])"
  shows "tc_UpdateWorkflow (sys_client lib now plan retained) wid inp w =
    (case r of Inl e \<Rightarrow> Inr (Inl (wire_error lib e)) | Inr res \<Rightarrow> Inr (Inr res),
     put_sys (run_events lib (plan wid (sys_of w)) (answered wid inp r (sys_of w))))"
proof -
  let ?\<sigma> = "sys_of w" and ?\<sigma>1 = "answered wid inp r (sys_of w)"
  have step: "sys_step lib (RunEvent wid (UpdateArrives inp now)) ?\<sigma> = Some ?\<sigma>1"
    using run at_once by (simp add: sys_step.simps wf_step.simps answered_def)
  obtain rs where rs: "sys_replies (run_events lib (plan wid ?\<sigma>) ?\<sigma>1) = sys_replies ?\<sigma>1 @ rs"
    using run_events_replies by blast
  then have "new_reply wid inp ?\<sigma> (run_events lib (plan wid ?\<sigma>) ?\<sigma>1) = Some r"
    by (simp add: new_reply_def answered_def)
  moreover have "open_run (run_of ?\<sigma> wid)"
    using run by (cases "wf_phase ru") (simp_all add: open_run_def)
  ultimately show ?thesis
    by (simp add: sys_client_defs run_events.simps(2) step Let_def split: sum.splits)
qed

text \<open>
  Temporal carries an \<open>ApplicationError\<close> with its type and message, and every other error of a
  validator as an \<open>ApplicationError\<close> of the type of its Go value.
\<close>

definition carries_errors :: "'d lib \<Rightarrow> bool" where
  "carries_errors lib \<longleftrightarrow>
     (\<forall>t m. errors_find is_ApplicationError (wire_error lib (ApplicationError t m)) = Some (ApplicationError t m)) \<and>
     (\<forall>m. \<exists>t. t \<noteq> billNotFoundErrType \<and> t \<noteq> currencyMismatchErrType \<and>
        errors_find is_ApplicationError (wire_error lib (ErrorString m)) = Some (ApplicationError t m))"

lemma rejected_code:
  assumes "carries_errors lib" "validateAddLineItem b inp = Some e"
  shows "err_code (fst (classifyUpdateError (wire_error lib e))) = Some
    (if in_CallerAccountID inp \<noteq> bill_AccountID b then NotFound
     else if in_Currency inp \<noteq> bill_Currency b then FailedPrecondition else InvalidArgument)"
proof -
  have app: "errors_find is_ApplicationError (wire_error lib (ApplicationError t m)) = Some (ApplicationError t m)" for t m
    using assms(1) by (simp add: carries_errors_def)
  obtain ty where other: "ty m \<noteq> billNotFoundErrType" "ty m \<noteq> currencyMismatchErrType"
    "errors_find is_ApplicationError (wire_error lib (ErrorString m)) = Some (ApplicationError (ty m) m)" for m
    using assms(1) unfolding carries_errors_def by metis
  show ?thesis
    using assms(2)
    by (auto simp: classifyUpdateError_code validateAddLineItem_def app other billNotFoundErrType_def
        currencyMismatchErrType_def split: if_splits)
      (use other in \<open>auto simp: billNotFoundErrType_def currencyMismatchErrType_def\<close>)
qed

lemma AddLineItem_rejected:
  fixes w :: "('d::{zero,ord,plus}, 'd Sys) World"
  assumes req: "valid_item_request lib reg req amount"
    and run: "run_of (sys_of w) (workflowID i) = Some ru" "serving (wf_phase ru)"
    and inp: "inp = itemInput (if aq_IdempotencyKey req = '''' then fresh else aq_IdempotencyKey req) amount data req"
    and val: "validateAddLineItem (wf_bill ru) inp = Some e"
  shows "AddLineItem lib (sys_client lib now plan retained) reg data fresh i req w =
    (Inl (fst (classifyUpdateError (wire_error lib e))),
     count_metrics (snd (classifyUpdateError (wire_error lib e)))
       (put_sys (run_events lib (plan (workflowID i) (sys_of w)) (answered (workflowID i) inp (Inl e) (sys_of w)))))"
  unfolding AddLineItem_valid [OF req] inp [symmetric]
  using update_answered [OF run, of now inp "Inl e" lib plan retained] val by (simp add: receiveUpdate_def)

lemma AddLineItem_retry:
  fixes w :: "('d::{zero,ord,plus}, 'd Sys) World"
  assumes req: "valid_item_request lib reg req amount"
    and run: "run_of (sys_of w) (workflowID i) = Some ru" "serving (wf_phase ru)"
    and val: "validateAddLineItem (wf_bill ru) (itemInput (aq_IdempotencyKey req) amount data req) = None"
    and seen: "aq_IdempotencyKey req \<in> wf_seen ru" "aq_IdempotencyKey req \<noteq> ''''"
  shows "AddLineItem lib (sys_client lib now (\<lambda>_ _. []) retained) reg data fresh i req w =
    (Inr \<lparr>ar_ItemID = aq_IdempotencyKey req, ar_BillTotal = dec_String lib (bill_TotalAmount (wf_bill ru)),
       ar_ItemCount = bill_ItemCount (wf_bill ru)\<rparr>,
     put_sys (answered (workflowID i) (itemInput (aq_IdempotencyKey req) amount data req)
       (Inr (addResult (wf_bill ru) (aq_IdempotencyKey req))) (sys_of w)))"
proof -
  let ?inp = "itemInput (aq_IdempotencyKey req) amount data req"
  have "receiveUpdate now ?inp ru = (ru, [(?inp, Inr (addResult (wf_bill ru) (aq_IdempotencyKey req)))])"
    using val seen by (simp add: receiveUpdate_def itemInput_def)
  from update_answered [OF run this, of lib "\<lambda>_ _. []" retained] seen(2) show ?thesis
    unfolding AddLineItem_valid [OF req] by (simp add: run_events.simps addResult_def)
qed

lemma answered_frame [simp]:
  "world_db (put_sys (answered wid inp r (sys_of w))) = world_db w"
  "w_store (put_sys (answered wid inp r (sys_of w))) = w_store w"
  "run_of \<sigma> wid = Some ru \<Longrightarrow> run_of (answered wid inp r \<sigma>) wid = Some ru"
  by (simp_all add: answered_def world_db_sys put_sys_def sys_of_def)

subsection \<open>Bills read from the tables\<close>

lemma queried_gone:
  "tc_QueryWorkflow tc (workflowID i) w = Inl ServiceNotFound \<Longrightarrow>
   loadBillSummary lib tc rd i w =
     (case getBillRowFromDB lib (rd_row rd) i (world_db w) of
        Inr b \<Rightarrow> Inr b
      | Inl e \<Rightarrow> if errors_Is e ErrNoRows then Inl (bill_not_found i)
          else Inl (ErrsError Internal ''failed to load bill''))"
  by (simp add: loadBillSummary_def queryBillState_def errors_Is_def)

lemma GetBill_from_db:
  assumes gone: "tc_QueryWorkflow tc (workflowID i) w = Inl ServiceNotFound"
    and rd: "rd_row rd = None" "rd_items rd = None"
    and row: "pg_uuid lib i = Some u" "find_bill u (world_db w) = Some r" "br_account_id r = callerAccountID data"
  shows "GetBill lib tc rd data i w = Inr \<lparr>gr_Bill = toBillView lib ((scanBillRow r)\<lparr>bill_LineItems :=
      Some (map scan_item (sort_key item_key (items_of u (world_db w))))\<rparr>)\<rparr>"
  using rd row
  by (simp add: GetBill_def queried_gone [OF gone] getBillRowFromDB_def fetchLineItems_def rows_of_def)
    (simp add: scanBillRow_def)

lemma malformed_id:
  assumes gone: "tc_QueryWorkflow tc (workflowID i) w = Inl ServiceNotFound"
    and rd: "rd_row rd = None" and uuid: "pg_uuid lib i = None"
  shows "GetBill lib tc rd data i w = Inl (ErrsError Internal ''failed to load bill'')"
    "CloseBill lib tc rd data i w = (Inl (ErrsError Internal ''failed to load bill''), w)"
  using rd uuid
  by (simp_all add: GetBill_def CloseBill_def assertOwnsBill_def queried_gone [OF gone] getBillRowFromDB_def
      invalid_uuid_def)

lemma CloseBill_waits:
  assumes "assertOwnsBill lib tc rd data i w = None"
    and "\<not> isl (fst (tc_SignalWorkflow tc (workflowID i) w))"
    and "\<not> isl (fst (tc_GetWorkflow tc (workflowID i) (snd (tc_SignalWorkflow tc (workflowID i) w))))"
    and "w2 = snd (tc_GetWorkflow tc (workflowID i) (snd (tc_SignalWorkflow tc (workflowID i) w)))"
  shows "CloseBill lib tc rd data i w = (closeBillFromDB lib rd i w2, w2)"
  using assms by (auto simp: CloseBill_def split: prod.splits sum.splits)

subsection \<open>Cursors\<close>

text \<open>A request whose cursor is refused, and one whose position the column does not take.\<close>

lemma refused_cursor:
  assumes own: "assertOwnsBill lib tc rd data i w = None" and lim: "0 \<le> n"
    and status: "status \<in> {'''', ''OPEN'', ''CLOSED''}"
    and cur: "c \<noteq> ''''" "decodeKeysetCursor slow c = Inl e"
  shows "ListLineItems lib tc rd slow data i (Some \<lparr>lq_Cursor = c, lq_Limit = n\<rparr>) w = Inl e"
    "ListBillEvents lib tc rd slow data i (Some \<lparr>eq_Cursor = c, eq_Limit = n\<rparr>) w = Inl e"
    "ListBills lib rd slow data (Some \<lparr>bq_Status = status, bq_Cursor = c, bq_Limit = n\<rparr>) w = Inl e"
proof -
  obtain limit where "pageLimit (Some n) = Inr limit" using pageLimit_valid [OF lim] by blast
  moreover have "normalizeListStatus lib (Some \<lparr>bq_Status = status, bq_Cursor = c, bq_Limit = n\<rparr>) = Inr status"
    using status by (auto simp: normalizeListStatus_def)
  ultimately show "ListLineItems lib tc rd slow data i (Some \<lparr>lq_Cursor = c, lq_Limit = n\<rparr>) w = Inl e"
    "ListBillEvents lib tc rd slow data i (Some \<lparr>eq_Cursor = c, eq_Limit = n\<rparr>) w = Inl e"
    "ListBills lib rd slow data (Some \<lparr>bq_Status = status, bq_Cursor = c, bq_Limit = n\<rparr>) w = Inl e"
    using own cur by (simp_all add: ListLineItems_def ListBillEvents_def ListBills_def decodeCursor_def)
qed

lemma unusable_position:
  assumes own: "assertOwnsBill lib tc rd data i w = None" and lim: "0 \<le> n"
    and status: "status \<in> {'''', ''OPEN'', ''CLOSED''}"
    and cur: "c \<noteq> ''''" "decodeKeysetCursor slow c = Inr (ts, cid)"
    and cid: "cid \<noteq> ''''" "pg_uuid lib cid = None" and rd: "rd_page rd = None"
  shows "ListLineItems lib tc rd slow data i (Some \<lparr>lq_Cursor = c, lq_Limit = n\<rparr>) w =
      Inl (ErrsError Internal ''failed to list line items'')"
    "ListBillEvents lib tc rd slow data i (Some \<lparr>eq_Cursor = c, eq_Limit = n\<rparr>) w =
      Inl (ErrsError Internal ''failed to list bill events'')"
    "ListBills lib rd slow data (Some \<lparr>bq_Status = status, bq_Cursor = c, bq_Limit = n\<rparr>) w =
      Inl (ErrsError Internal ''failed to list bills'')"
proof -
  obtain limit where limit: "pageLimit (Some n) = Inr limit" using pageLimit_valid [OF lim] by blast
  have st: "normalizeListStatus lib (Some \<lparr>bq_Status = status, bq_Cursor = c, bq_Limit = n\<rparr>) = Inr status"
    using status by (auto simp: normalizeListStatus_def)
  have pos: "cursor_pos lib ts cid = Inl invalid_uuid" using cid by (simp add: cursor_pos_def)
  show "ListLineItems lib tc rd slow data i (Some \<lparr>lq_Cursor = c, lq_Limit = n\<rparr>) w =
      Inl (ErrsError Internal ''failed to list line items'')"
    "ListBillEvents lib tc rd slow data i (Some \<lparr>eq_Cursor = c, eq_Limit = n\<rparr>) w =
      Inl (ErrsError Internal ''failed to list bill events'')"
    "ListBills lib rd slow data (Some \<lparr>bq_Status = status, bq_Cursor = c, bq_Limit = n\<rparr>) w =
      Inl (ErrsError Internal ''failed to list bills'')"
    using own cur rd limit st pos
    by (auto simp: ListLineItems_def ListBillEvents_def ListBills_def decodeCursor_def queryItemsPage_def
        queryEventsPage_def queryBillsPage_def rows_of_def split: option.splits)
qed

subsection \<open>Sizes of pages\<close>

lemma cut_page_limit:
  "pageLimit req = Inr limit \<Longrightarrow> cut_page limit c rs = (xs, n) \<Longrightarrow>
   1 \<le> limit \<and> limit \<le> 500 \<and> int (length xs) \<le> limit"
  using pageLimit_Inr [of req limit] length_cut_page [of limit c rs xs n] by (auto simp: maxListLimit_def)

lemma page_sizes:
  "ListLineItems lib tc rd slow data i req w = Inr a \<Longrightarrow>
     1 \<le> lp_Limit a \<and> lp_Limit a \<le> 500 \<and> int (length (lp_Items a)) \<le> lp_Limit a"
  "ListBillEvents lib tc rd slow data i req' w = Inr b \<Longrightarrow>
     1 \<le> ep_Limit b \<and> ep_Limit b \<le> 500 \<and> int (length (ep_Events b)) \<le> ep_Limit b"
  "ListBills lib rd slow data req'' w = Inr c \<Longrightarrow>
     1 \<le> bp_Limit c \<and> bp_Limit c \<le> 500 \<and> int (length (bp_Bills c)) \<le> bp_Limit c"
  by (auto simp: ListLineItems_def ListBillEvents_def ListBills_def split: option.splits sum.splits prod.splits
      rows_failure.splits dest: cut_page_limit)

text \<open>
  With a key the id of a bill is a function of the account and the key, but only of the two joined
  by a colon.
\<close>

lemma newBillID_key:
  "key \<noteq> '''' \<Longrightarrow> newBillID lib fresh acct key = newBillID lib fresh' acct key"
  "c \<noteq> '''' \<Longrightarrow> newBillID lib fresh (a @ '':'' @ b) c = newBillID lib fresh' a (b @ '':'' @ c)"
  by (simp_all add: newBillID_def)

end
