(* ===== verification/Partings.thy ===== *)
theory Partings
  imports Gateway
begin

section \<open>What makes the books part\<close>

text \<open>
  For each circumstance in which workflow and tables part, the events that bring it about, from any
  state in which it can arise: an update that repeats an item id under way, or uses the id of an item
  of another bill; an update during the close; a closed bill created again; a close that is given up.
  \<open>run_trace\<close> carries the events of one run out one after the other, with the replies it gives.
\<close>

declare sys_step.simps [simp del] wf_step.simps [simp del] run_events.simps [simp del]

subsection \<open>Events of one run\<close>

fun run_trace ::
  "'d lib \<Rightarrow> 'd::{zero,ord,plus} Event list \<Rightarrow> 'd WF \<Rightarrow> 'd Store \<Rightarrow> 'd Outcome" where
  "run_trace lib [] w s = Some (w, s, [])"
| "run_trace lib (e # es) w s =
     (case wf_step lib e w s of
        None \<Rightarrow> None
      | Some (w1, s1, rs) \<Rightarrow>
          (case run_trace lib es w1 s1 of
             None \<Rightarrow> None
           | Some (w2, s2, rs') \<Rightarrow> Some (w2, s2, rs @ rs')))"

lemma run_trace_step:
  "wf_step lib e w s = Some (w1, s1, rs) \<Longrightarrow> run_trace lib es w1 s1 = Some (w2, s2, rs') \<Longrightarrow>
   run_trace lib (e # es) w s = Some (w2, s2, rs @ rs')"
  by simp

lemma run_trace_append:
  "run_trace lib es w s = Some (w1, s1, rs) \<Longrightarrow> run_trace lib es' w1 s1 = Some (w2, s2, rs') \<Longrightarrow>
   run_trace lib (es @ es') w s = Some (w2, s2, rs @ rs')"
proof (induction es arbitrary: w s rs)
  case (Cons e es)
  from Cons.prems(1) obtain v t qs qs' where
    "wf_step lib e w s = Some (v, t, qs)" "run_trace lib es v t = Some (w1, s1, qs')" "rs = qs @ qs'"
    by (auto split: option.splits)
  with Cons.IH [OF this(2) Cons.prems(2)] show ?case by simp
qed simp

text \<open>The service carries out what the run does, and leaves the other runs alone.\<close>

lemma sys_run_trace:
  "run_of \<sigma> wid = Some w \<Longrightarrow> run_trace lib es w (sys_store \<sigma>) = Some (w', s', rs) \<Longrightarrow>
   \<exists>\<sigma>'. sys_run lib (map (RunEvent wid) es) \<sigma> = Some \<sigma>' \<and> run_of \<sigma>' = (run_of \<sigma>)(wid \<mapsto> w') \<and>
     sys_store \<sigma>' = s' \<and> sys_replies \<sigma>' = sys_replies \<sigma> @ map (Pair wid) rs"
proof (induction es arbitrary: \<sigma> w rs)
  case Nil
  then show ?case by (auto simp: fun_eq_iff)
next
  case (Cons e es)
  obtain w1 s1 qs qs' where step: "wf_step lib e w (sys_store \<sigma>) = Some (w1, s1, qs)"
    and rest: "run_trace lib es w1 s1 = Some (w', s', qs')" "rs = qs @ qs'"
    using Cons.prems(2) by (auto split: option.splits)
  let ?\<sigma>1 = "(set_run wid w1 \<sigma>)\<lparr>sys_store := s1, sys_replies := sys_replies \<sigma> @ map (Pair wid) qs\<rparr>"
  have "sys_step lib (RunEvent wid e) \<sigma> = Some ?\<sigma>1" using Cons.prems(1) step by (simp add: sys_step.simps)
  moreover have "run_of ?\<sigma>1 wid = Some w1" "run_trace lib es w1 (sys_store ?\<sigma>1) = Some (w', s', qs')"
    using rest(1) by simp_all
  from Cons.IH [OF this] obtain \<sigma>' where "sys_run lib (map (RunEvent wid) es) ?\<sigma>1 = Some \<sigma>'"
    "run_of \<sigma>' = (run_of ?\<sigma>1)(wid \<mapsto> w')" "sys_store \<sigma>' = s'"
    "sys_replies \<sigma>' = sys_replies ?\<sigma>1 @ map (Pair wid) qs'"
    by blast
  moreover have "(run_of ?\<sigma>1)(wid \<mapsto> w') = (run_of \<sigma>)(wid \<mapsto> w')" by (simp add: fun_eq_iff)
  ultimately show ?case using rest(2) by (simp add: fun_eq_iff)
qed

subsection \<open>One stretch at a time\<close>

definition smooth :: "tx_env \<Rightarrow> bool" where
  "smooth env \<longleftrightarrow> \<not> begin_fails env \<and> stmt_fails env = None \<and> commit env = CommitOk"

definition new_handler :: "gotime \<Rightarrow> 'd AddLineItemInput \<Rightarrow> 'd Handler" where
  "new_handler now inp = \<lparr>h_in = inp, h_item = newItem now inp, h_act = act_new\<rparr>"

definition done_handler :: "gotime \<Rightarrow> 'd AddLineItemInput \<Rightarrow> 'd Handler" where
  "done_handler now inp = (new_handler now inp)\<lparr>h_act := \<lparr>act_attempts = 1, act_done = True\<rparr>\<rparr>"

definition posted_reply :: "'d AddLineItemInput \<Rightarrow> 'd::plus Bill \<Rightarrow> 'd Reply" where
  "posted_reply inp b = (inp, Inr \<lparr>res_ItemID = in_ItemID inp,
     res_BillTotal = bill_TotalAmount b + in_Amount inp, res_ItemCount = bill_ItemCount b + 1\<rparr>)"

lemma update_accepted:
  "serving (wf_phase w) \<Longrightarrow> validateAddLineItem (wf_bill w) inp = None \<Longrightarrow> in_ItemID inp \<notin> wf_seen w \<Longrightarrow>
   wf_step lib (UpdateArrives inp now) w s =
     Some (w\<lparr>wf_handlers := wf_handlers w @ [new_handler now inp]\<rparr>, s, [])"
  by (simp add: wf_step.simps receiveUpdate_def new_handler_def)

lemma append_succeeds:
  "serving (wf_phase w) \<Longrightarrow> k < length (wf_handlers w) \<Longrightarrow> wf_handlers w ! k = new_handler now inp \<Longrightarrow>
   AppendLineItemActivity lib env (appendInput (wf_bill w) inp (newItem now inp)) s = (Inr (), s') \<Longrightarrow>
   wf_step lib (AppendAttempt k env True) w s =
     Some (w\<lparr>wf_handlers := (wf_handlers w)[k := done_handler now inp]\<rparr>, s', [])"
  by (simp add: wf_step.simps new_handler_def done_handler_def can_attempt_def act_new_def shortActivityOpts_def
      set_handler_act_def after_attempt_def)

lemma append_finishes:
  "serving (wf_phase w) \<Longrightarrow> k < length (wf_handlers w) \<Longrightarrow> wf_handlers w ! k = done_handler now inp \<Longrightarrow>
   wf_step lib (AppendReturns k) w s =
     Some (w\<lparr>wf_bill := applyItem inp (wf_bill w), wf_seen := insert (in_ItemID inp) (wf_seen w),
         wf_handlers := take k (wf_handlers w) @ drop (Suc k) (wf_handlers w)\<rparr>, s,
       [posted_reply inp (wf_bill w)])"
  by (simp add: wf_step.simps new_handler_def done_handler_def finishUpdate_def Let_def posted_reply_def addResult_def)

text \<open>An update on its own, whatever its activity does to the tables.\<close>

lemma update_carried_out:
  assumes "serving (wf_phase w)" "validateAddLineItem (wf_bill w) inp = None" "in_ItemID inp \<notin> wf_seen w"
    and "AppendLineItemActivity lib env (appendInput (wf_bill w) inp (newItem now inp)) s = (Inr (), s')"
    and "k = length (wf_handlers w)"
  shows "run_trace lib [UpdateArrives inp now, AppendAttempt k env True, AppendReturns k] w s =
    Some (w\<lparr>wf_bill := applyItem inp (wf_bill w), wf_seen := insert (in_ItemID inp) (wf_seen w)\<rparr>, s',
      [posted_reply inp (wf_bill w)])"
  using assms
  by (simp add: update_accepted append_succeeds [where now = now and inp = inp]
      append_finishes [where now = now and inp = inp])

subsection \<open>An item id that is taken\<close>

text \<open>
  The amount and the ids are values of their columns, so the statement gets as far as the conflict,
  and \<open>ON CONFLICT DO NOTHING\<close> does not ask whose row it is.
\<close>

definition id_taken :: "'d lib \<Rightarrow> 'd Bill \<Rightarrow> 'd::{zero,ord} AddLineItemInput \<Rightarrow> 'd DB \<Rightarrow> bool" where
  "id_taken lib b inp db \<longleftrightarrow>
     (\<exists>i u a row. pg_uuid lib (in_ItemID inp) = Some i \<and> pg_uuid lib (bill_ID b) = Some u \<and>
        pg_numeric lib (in_Amount inp) = Some a \<and> 0 < a \<and> find_item i db = Some row)"

lemma append_taken:
  assumes "smooth env" "id_taken lib b inp (fst s)"
  shows "AppendLineItemActivity lib env (appendInput b inp (newItem now inp)) s =
    (Inr (), (fst s, LineItemsAdded ''duplicate'' # snd s))"
proof -
  have "insert_line_item lib (bill_ID b) (newItem now inp) (fst s) = Inl ErrNoRows"
    using assms(2) by (auto simp: id_taken_def insert_line_item_def newItem_def)
  then have "AppendLineItemTx lib env (appendInput b inp (newItem now inp)) s =
      (Inr (), (fst s, LineItemsAdded ''duplicate'' # snd s))"
    using assms(1) by (simp add: AppendLineItemTx_def appendInput_def sql_def smooth_def Let_def errors_Is_def)
  then show ?thesis
    using assms(1) unfolding AppendLineItemActivity_def smooth_def by (intro inTx_ok) simp_all
qed

text \<open>Two updates with one id under way at the same time.\<close>

lemma overlapping_trace:
  fixes w :: "'d::linordered_ab_group_add WF"
  assumes ser: "serving (wf_phase w)" and k: "k = length (wf_handlers w)"
    and val: "validateAddLineItem (wf_bill w) inp = None" "validateAddLineItem (wf_bill w) inp' = None"
    and new: "in_ItemID inp \<notin> wf_seen w" and same: "in_ItemID inp' = in_ItemID inp"
    and post: "can_post lib env (wf_bill w) inp (fst s)" and env': "smooth env'"
    and amount': "pg_numeric lib (in_Amount inp') = Some a'" "0 < a'"
  shows "\<exists>u a s'. run_trace lib [UpdateArrives inp now, UpdateArrives inp' now', AppendAttempt k env True,
        AppendAttempt (Suc k) env' True, AppendReturns k, AppendReturns k] w s =
      Some (w\<lparr>wf_bill := applyItem inp' (applyItem inp (wf_bill w)), wf_seen := insert (in_ItemID inp) (wf_seen w)\<rparr>,
        s', [posted_reply inp (wf_bill w), posted_reply inp' (applyItem inp (wf_bill w))]) \<and>
    pg_uuid lib (bill_ID (wf_bill w)) = Some u \<and> pg_numeric lib (in_Amount inp) = Some a \<and>
    length (items_of u (fst s')) = length (items_of u (fst s)) + 1 \<and>
    items_total u (fst s') = items_total u (fst s) + a"
proof -
  from AppendLineItemActivity_posts [OF post] obtain i u a t r ev s1 where
    first: "AppendLineItemActivity lib env (appendInput (wf_bill w) inp (newItem now inp)) s = (Inr (), s1)"
    and u: "pg_uuid lib (in_ItemID inp) = Some i" "pg_uuid lib (bill_ID (wf_bill w)) = Some u"
      "pg_numeric lib (in_Amount inp) = Some a"
    and s1: "s1 = (post_item (itemRow lib i u a (newItem now inp)) t ev (fst s), LineItemsAdded ''accepted'' # snd s)"
    by blast
  have "item_durable lib (fst s1) (in_ItemID inp)"
    using AppendLineItemActivity_durable [OF first] by (simp add: appendInput_def newItem_def)
  then have "id_taken lib (wf_bill w) inp' (fst s1)"
    using u amount' same by (auto simp: item_durable_def id_taken_def)
  note second = append_taken [OF env' this, of now']
  have "run_trace lib [UpdateArrives inp now, UpdateArrives inp' now', AppendAttempt k env True,
        AppendAttempt (Suc k) env' True, AppendReturns k, AppendReturns k] w s =
      Some (w\<lparr>wf_bill := applyItem inp' (applyItem inp (wf_bill w)), wf_seen := insert (in_ItemID inp) (wf_seen w)\<rparr>,
        (fst s1, LineItemsAdded ''duplicate'' # snd s1),
        [posted_reply inp (wf_bill w), posted_reply inp' (applyItem inp (wf_bill w))])"
    using ser k val new same first second
    by (simp add: update_accepted append_succeeds [where now = now and inp = inp]
        append_succeeds [where now = now' and inp = inp'] append_finishes [where now = now and inp = inp]
        append_finishes [where now = now' and inp = inp'] nth_append list_update_append)
  with u s1 show ?thesis by simp
qed

subsection \<open>What the tables keep\<close>

fun appends :: "'d Event \<Rightarrow> bool" where
  "appends (AppendAttempt k env reported) = True"
| "appends _ = False"

lemma wf_step_items:
  assumes "wf_step lib e w s = Some (w', s', rs)" "\<not> appends e"
  shows "line_items (fst s') = line_items (fst s)"
  using assms
  by (cases e) (auto simp: wf_step.simps Let_def split: Phase.splits prod.splits
      dest: CreateBillActivity_items CloseBillActivity_items)

lemma run_trace_items:
  "run_trace lib es w s = Some (w', s', rs) \<Longrightarrow> list_all (\<lambda>e. \<not> appends e) es \<Longrightarrow>
   line_items (fst s') = line_items (fst s)"
  by (induction es arbitrary: w s rs) (auto split: option.splits dest!: wf_step_items)

lemma wf_run_trace: "wf_run lib es w s = Some (w', s') \<Longrightarrow> \<exists>rs. run_trace lib es w s = Some (w', s', rs)"
proof (induction es arbitrary: w s)
  case (Cons e es)
  then obtain w1 s1 rs where step: "wf_step lib e w s = Some (w1, s1, rs)" "wf_run lib es w1 s1 = Some (w', s')"
    by (auto split: option.splits)
  from Cons.IH [OF step(2)] obtain rs' where "run_trace lib es w1 s1 = Some (w', s', rs')" by blast
  with step(1) show ?case by simp
qed simp

subsection \<open>An update during the close\<close>

lemma closing_update_trace:
  fixes w :: "'d::linordered_ab_group_add WF"
  assumes w: "wf_phase w = Draining reason" "reason \<noteq> CloseReasonNone" "wf_handlers w = []"
    and ids: "distinct ids" "set ids = wf_seen w"
    and inp: "validateAddLineItem (wf_bill w) inp = None" "in_ItemID inp \<notin> wf_seen w"
    and post: "can_post lib env (wf_bill w) inp (fst s)"
    and env': "smooth env'" "tx_fresh env' \<notin> insert (tx_fresh env) (er_id ` set (bill_events (fst s)))"
    and total: "pg_numeric lib (bill_TotalAmount (wf_bill w)) = Some t"
  shows "\<exists>w' s' i u a row r. run_trace lib [DrainReturns now ids, UpdateArrives inp now', AppendAttempt 0 env True,
        AppendReturns 0, CloseAttempt env' True, CloseReturns] w s =
      Some (w', s', [posted_reply inp (wf_bill w)]) \<and>
    pg_uuid lib (in_ItemID inp) = Some i \<and> pg_uuid lib (bill_ID (wf_bill w)) = Some u \<and>
    pg_numeric lib (in_Amount inp) = Some a \<and> 0 < a \<and>
    find_item i (fst s') = Some row \<and> lr_bill_id row = u \<and> lr_amount row = a \<and>
    items_total u (fst s') = items_total u (fst s) + a \<and>
    find_bill u (fst s') = Some r \<and> br_status r = BillStatusClosed \<and> br_total_amount r = t"
proof -
  let ?b = "closedBill now reason (wf_bill w)"
  let ?cin = "closeInput now reason ?b"
  let ?w1 = "w\<lparr>wf_bill := ?b, wf_phase := Closing ?cin act_new\<rparr>"
  have drain: "wf_step lib (DrainReturns now ids) w s = Some (?w1, s, [])"
    using w ids by (simp add: wf_step.simps afterDrain_def Let_def)
  have val: "validateAddLineItem (wf_bill ?w1) inp = None"
    using inp(1) by (simp add: validate_None closedBill_def)
  have "can_post lib env ?b inp (fst s)" using post by (simp add: can_post_def closedBill_def)
  from AppendLineItemActivity_posts [OF this, of now'] obtain i u a t' r ev s1 where
    run: "AppendLineItemActivity lib env (appendInput ?b inp (newItem now' inp)) s = (Inr (), s1)"
    and u: "pg_uuid lib (in_ItemID inp) = Some i" "pg_uuid lib (bill_ID ?b) = Some u"
      "pg_numeric lib (in_Amount inp) = Some a" "find_bill u (fst s) = Some r" "er_id ev = tx_fresh env"
    and s1: "fst s1 = post_item (itemRow lib i u a (newItem now' inp)) t' ev (fst s)"
    by (metis fst_conv)
  have a: "0 < a" "find_item i (fst s) = None" using post u by (auto simp: can_post_def split: option.splits)
  let ?w2 = "?w1\<lparr>wf_bill := applyItem inp ?b, wf_seen := insert (in_ItemID inp) (wf_seen w)\<rparr>"
  have upd: "run_trace lib [UpdateArrives inp now', AppendAttempt 0 env True, AppendReturns 0] ?w1 s =
      Some (?w2, s1, [posted_reply inp ?b])"
    using update_carried_out [OF _ val _ _, of lib env now' s s1 0] w(3) inp(2) run by simp
  have "can_close lib env' ?b (fst s1)"
    using env' total u s1 by (auto simp: can_close_def smooth_def closedBill_def post_item_frame)
  from CloseBillActivity_closes [OF this refl, of now reason] obtain v r' t'' s2 where
    close: "CloseBillActivity lib env' ?cin s1 = (Inr (), s2)" "pg_uuid lib (bill_ID ?b) = Some v"
      "pg_numeric lib (bill_TotalAmount ?b) = Some t''"
      "find_bill v (fst s2) = Some (close_row t'' (pg_time lib now) (nullableCloseReason reason) r')"
    by blast
  have fin: "run_trace lib [CloseAttempt env' True, CloseReturns] ?w2 s1 =
      Some (?w2\<lparr>wf_phase := Completed (billResult reason (applyItem inp ?b))\<rparr>, s2, [])"
    using close(1) by (simp add: wf_step.simps can_attempt_def act_new_def shortActivityOpts_def after_attempt_def closeInput_def)
  note items = CloseBillActivity_items [OF close(1)]
  have "find_item i (fst s2) = Some (itemRow lib i u a (newItem now' inp))"
    using items s1 a(2) by (simp add: find_item_def find_append)
  moreover have "items_total u (fst s2) = items_total u (fst s) + a"
    using same_items(2) [OF items] s1 by simp
  moreover have "posted_reply inp ?b = posted_reply inp (wf_bill w)"
    by (simp add: posted_reply_def closedBill_def)
  moreover have "pg_uuid lib (bill_ID (wf_bill w)) = Some u" "t'' = t" "v = u"
    using u(2) close(2,3) total by (simp_all add: closedBill_def)
  ultimately show ?thesis
    using run_trace_step [OF drain run_trace_append [OF upd fin]] u(1,3) a(1) close(4)
    by (simp add: close_row_def)
qed

subsection \<open>A closed bill created again\<close>

lemma CreateBillActivity_exists:
  assumes "smooth env" "pg_uuid lib (bill_ID b) = Some u" "find_bill u (fst s) = Some r"
  shows "CreateBillActivity lib env b s = (Inr (), s)"
proof -
  have "insert_bill lib b (fst s) = Inl ErrNoRows" using assms(2,3) by (simp add: insert_bill_def)
  then have "CreateBillTx lib env b s = (Inr (), s)"
    using assms(1) by (simp add: CreateBillTx_def sql_def smooth_def errors_Is_def)
  then show ?thesis
    using assms(1) unfolding CreateBillActivity_def smooth_def by (intro inTx_ok) simp_all
qed

lemma reopened_trace:
  fixes s :: "'d::{zero,ord,plus} Store"
  assumes inp: "fresh_input inp" "\<And>pe. wi_PeriodEnd inp = Some pe \<Longrightarrow> 0 < time_Sub pe now"
    and row: "pg_uuid lib (wi_BillID inp) = Some u" "find_bill u (fst s) = Some r"
    and env: "smooth env" "smooth env'" "tx_fresh env' \<notin> er_id ` set (bill_events (fst s))"
    and zero: "pg_numeric lib 0 = Some z"
  shows "\<exists>w' s' rs. run_trace lib [CreateAttempt env True, CreateReturns, SelectorStart now, SignalArrives, SelectorSignal,
        AwaitReturns, DrainReturns now' [], CloseAttempt env' True, CloseReturns] (startRun started 0 inp) s =
      Some (w', s', rs) \<and> line_items (fst s') = line_items (fst s) \<and>
    find_bill u (fst s') = Some (close_row z (pg_time lib now') (Some CloseReasonSignal) r)"
proof -
  let ?w = "startRun started 0 inp"
  let ?w1 = "?w\<lparr>wf_phase := Serving, wf_sel := SelWaiting\<rparr>"
  have bill: "bill_ID (wf_bill ?w) = wi_BillID inp" "bill_TotalAmount (wf_bill ?w) = 0"
    "wf_phase ?w = Creating act_new" "wf_handlers ?w = []" "wf_seen ?w = {}" "wf_input ?w = inp" "wf_sel ?w = SelInit"
    using inp(1) by (simp_all add: startRun_def initialBill_def initialSeen_def fresh_input_def)
  have "CreateBillActivity lib env (wf_bill ?w) s = (Inr (), s)"
    using CreateBillActivity_exists [OF env(1) _ row(2)] row(1) bill(1) by simp
  then have started_up: "run_trace lib [CreateAttempt env True, CreateReturns, SelectorStart now] ?w s = Some (?w1, s, [])"
    using bill inp(2)
    by (cases "wi_PeriodEnd inp") (fastforce simp: wf_step.simps can_attempt_def act_new_def shortActivityOpts_def
        after_attempt_def selectorStart_def)+
  have "can_close lib env' (wf_bill ?w1) (fst s)"
    using env(2,3) row zero bill by (simp add: can_close_def smooth_def)
  from close_steps [OF _ _ _ _ _ this, of "[]" now'] bill obtain w' s' where
    close: "wf_run lib [SignalArrives, SelectorSignal, AwaitReturns, DrainReturns now' [], CloseAttempt env' True,
        CloseReturns] ?w1 s = Some (w', s')"
      "find_bill u (fst s') = Some (close_row z (pg_time lib now') (Some CloseReasonSignal) r)"
    using row zero by auto
  obtain rs where fin: "run_trace lib [SignalArrives, SelectorSignal, AwaitReturns, DrainReturns now' [],
      CloseAttempt env' True, CloseReturns] ?w1 s = Some (w', s', rs)" using wf_run_trace [OF close(1)] by blast
  have "run_trace lib [CreateAttempt env True, CreateReturns, SelectorStart now, SignalArrives, SelectorSignal,
        AwaitReturns, DrainReturns now' [], CloseAttempt env' True, CloseReturns] ?w s = Some (w', s', rs)"
    using run_trace_append [OF started_up fin] by simp
  with run_trace_items [OF fin] close(2) show ?thesis by auto
qed

lemma CreateBill_starts:
  assumes "valid_bill_request reg req"
    and "bid = newBillID lib fresh (callerAccountID data) (cq_IdempotencyKey req)"
    and "\<not> open_run (run_of (sys_of w) (workflowID bid))"
  shows "CreateBill lib (sys_client lib now plan retained) rd reg data fresh req w =
    (Inr \<lparr>cp_BillID = bid, cp_Status = ''OPEN'', cp_Currency = cq_Currency req, cp_PeriodStart = cq_PeriodStart req,
       cp_PeriodEnd = cq_PeriodEnd req\<rparr>,
     put_sys (set_run (workflowID bid) (startRun now 0 (createInput bid (callerAccountID data) req)) (sys_of w)))"
  using assms
  by (simp add: valid_bill_request_def CreateBill_def Let_def sys_client_defs createInput_def
      sys_step.simps enabled_def fresh_input_def)

subsection \<open>A close that is given up\<close>

lemma failing_attempts:
  "wf_phase w = Closing cin \<lparr>act_attempts = n, act_done = False\<rparr> \<Longrightarrow>
   n + length envs \<le> MaximumAttempts shortActivityOpts \<Longrightarrow> \<forall>env\<in>set envs. begin_fails env \<Longrightarrow>
   run_trace lib (map (\<lambda>env. CloseAttempt env True) envs) w s =
     Some (w\<lparr>wf_phase := Closing cin \<lparr>act_attempts = n + length envs, act_done = False\<rparr>\<rparr>, s, [])"
proof (induction envs arbitrary: n w)
  case Nil
  then show ?case by (cases w) simp
next
  case (Cons env envs)
  have "CloseBillActivity lib env cin s = (Inl (Wrap ''close bill: begin tx'' conn_error), s)"
    using Cons.prems(3) by (simp add: CloseBillActivity_def inTx_def)
  with Cons.prems(1,2) have step: "wf_step lib (CloseAttempt env True) w s =
      Some (w\<lparr>wf_phase := Closing cin \<lparr>act_attempts = Suc n, act_done = False\<rparr>\<rparr>, s, [])"
    by (simp add: wf_step.simps can_attempt_def after_attempt_def)
  with Cons.IH [of "w\<lparr>wf_phase := Closing cin \<lparr>act_attempts = Suc n, act_done = False\<rparr>\<rparr>" "Suc n"] Cons.prems(2,3)
  show ?case by simp
qed

lemma given_up_trace:
  assumes w: "wf_phase w = Draining reason" "reason \<noteq> CloseReasonNone" "wf_handlers w = []"
    and ids: "distinct ids" "set ids = wf_seen w"
    and envs: "length envs = 5" "\<forall>env\<in>set envs. begin_fails env"
  shows "run_trace lib (DrainReturns now ids # map (\<lambda>env. CloseAttempt env True) envs @ [CloseGivesUp elapsed]) w s =
    Some (w\<lparr>wf_bill := closedBill now reason (wf_bill w), wf_phase := Failed ActivityError\<rparr>, s, [])"
proof -
  let ?b = "closedBill now reason (wf_bill w)"
  let ?w1 = "w\<lparr>wf_bill := ?b, wf_phase := Closing (closeInput now reason ?b) act_new\<rparr>"
  have drain: "wf_step lib (DrainReturns now ids) w s = Some (?w1, s, [])"
    using w ids by (simp add: wf_step.simps afterDrain_def Let_def)
  have tries: "run_trace lib (map (\<lambda>env. CloseAttempt env True) envs) ?w1 s =
      Some (?w1\<lparr>wf_phase := Closing (closeInput now reason ?b) \<lparr>act_attempts = 0 + length envs, act_done = False\<rparr>\<rparr>, s, [])"
    by (rule failing_attempts) (use envs in \<open>simp_all add: act_new_def shortActivityOpts_def\<close>)
  have over: "run_trace lib [CloseGivesUp elapsed]
      (?w1\<lparr>wf_phase := Closing (closeInput now reason ?b) \<lparr>act_attempts = 0 + length envs, act_done = False\<rparr>\<rparr>) s =
      Some (w\<lparr>wf_bill := ?b, wf_phase := Failed ActivityError\<rparr>, s, [])"
    using envs(1) by (simp add: wf_step.simps gave_up_def shortActivityOpts_def)
  show ?thesis using run_trace_step [OF drain run_trace_append [OF tries over]] by simp
qed

text \<open>What CloseBill says of a bill whose workflow failed at the close and whose row is OPEN.\<close>

lemma failed_close_answer:
  assumes run: "run_of (sys_of w) (workflowID i) = Some ru" "wf_phase ru = Failed ActivityError"
    and own: "bill_AccountID (wf_bill ru) = callerAccountID data" "br_account_id r = callerAccountID data"
    and row: "pg_uuid lib i = Some u" "find_bill u (world_db w) = Some r" "br_status r = BillStatusOpen"
    and rd: "rd_row rd = None" "rd_closed rd = None" "rd_items rd = None"
  shows "\<exists>resp. CloseBill lib (sys_client lib now plan retained) rd data i w = (Inr resp, w) \<and>
    cr_BillID resp = u \<and> cr_Status resp = ''OPEN'' \<and> cr_ClosedAt resp = map_option FormatRFC3339Nano (br_closed_at r)"
proof -
  have closed: "\<not> open_run (run_of (sys_of w) (workflowID i))" using run by (simp add: open_run_def)
  have q: "sys_QueryWorkflow retained (workflowID i) w = (if retained then Inr (Inr (wf_bill ru)) else Inl ServiceNotFound)"
    using run closed by (simp add: sys_QueryWorkflow_def createFailure_def)
  have "assertOwnsBill lib (sys_client lib now plan retained) rd data i w = None"
    using q own row rd
    by (simp add: assertOwnsBill_def loadBillSummary_def queryBillState_def sys_client_def errors_Is_def
        getBillRowFromDB_def scanBillRow_def)
  then show ?thesis
    unfolding CloseBill_again [OF closed] using row rd find_bill_Some [OF row(2)]
    by (simp add: closeBillFromDB_def getBillRowFromDB_def fetchLineItems_def rows_of_def scanBillRow_def)
qed

lemma item_elsewhere:
  "db_ok db \<Longrightarrow> find_item j db = Some row \<Longrightarrow> lr_bill_id row \<noteq> u \<Longrightarrow> j \<notin> lr_id ` set (items_of u db)"
  by (auto simp: db_ok_def items_of_def dest!: find_item_Some) (metis distinct_map inj_on_contraD)

subsection \<open>Examples\<close>

text \<open>A bill with an item, and another account's bill, still without items.\<close>

definition bill_uuid2 :: string where
  "bill_uuid2 = ''1f7d8c4b-3a91-4f1b-9a6f-1a0c7d2e8f51''"

definition two_bills :: "rat Sys" where
  "two_bills = the (sys_run column_lib (open_events bill_uuid ''acct-alpha'' ''e1'' @
     add_run bill_uuid (item_input ''acct-alpha'' item_uuid (1599 / 100)) ''e2'' @
     open_events bill_uuid2 ''acct-beta'' ''e3'') sample_sys)"

definition second_run :: "rat WF" where
  "second_run = the (run_of two_bills (workflowID bill_uuid2))"

definition beta_item :: "rat AddLineItemInput" where
  "beta_item = item_input ''acct-beta'' item_uuid (1599 / 100)"

lemma two_bills_reachable: "reachable column_lib always two_bills"
proof -
  let ?es = "open_events bill_uuid ''acct-alpha'' ''e1'' @
     add_run bill_uuid (item_input ''acct-alpha'' item_uuid (1599 / 100)) ''e2'' @
     open_events bill_uuid2 ''acct-beta'' ''e3''"
  have "sys_run column_lib ?es sample_sys \<noteq> None" by code_simp
  then have "sys_run column_lib ?es sample_sys = Some two_bills" by (simp add: two_bills_def)
  then show ?thesis by (rule sample_reachable)
qed

lemma two_bills_run: "run_of two_bills (workflowID bill_uuid2) = Some second_run"
proof -
  have "run_of two_bills (workflowID bill_uuid2) \<noteq> None" by code_simp
  then show ?thesis by (simp add: second_run_def)
qed

lemma two_bills_item:
  "case find_item item_uuid (fst (sys_store two_bills)) of None \<Rightarrow> False | Some row \<Rightarrow> lr_bill_id row \<noteq> bill_uuid2"
  by code_simp

lemma second_ready:
  "serving (wf_phase second_run)" "validateAddLineItem (wf_bill second_run) beta_item = None"
  "in_ItemID beta_item \<notin> wf_seen second_run" "pg_uuid column_lib (in_ItemID beta_item) = Some item_uuid"
  "pg_uuid column_lib (bill_ID (wf_bill second_run)) = Some bill_uuid2"
  "pg_numeric column_lib (in_Amount beta_item) = Some (1599 / 100)" "wf_handlers second_run = []"
  "smooth (good_env ''e4'')" "bill_ItemCount (wf_bill second_run) = 0"
  "items_of bill_uuid2 (fst (sys_store two_bills)) = []"
  by code_simp+

end
