(* ===== verification/Startup.thy ===== *)
theory Startup
  imports Registry
begin

section \<open>Start and shutdown of the service (bill/service.go)\<close>

text \<open>
  \<open>initService\<close> acquires a Temporal client and a worker, primes the currency registry and hands
  both to the service; each failure on the way releases what was acquired. The Temporal SDK is code
  outside the repository: its calls are the parameter \<open>sdk\<close>, over a state of the process, and what
  the service relies on is the locale \<open>temporal_sdk\<close>. \<open>process_sdk\<close> is an SDK of this kind.
\<close>

definition TaskQueue :: string where
  "TaskQueue = ''bill-task-queue''"

definition defaultTemporalHost :: string where
  "defaultTemporalHost = ''localhost:7233''"

definition temporalHostEnvVar :: string where
  "temporalHostEnvVar = ''TEMPORAL_HOSTPORT''"

text \<open>\<open>os.Getenv\<close> is the argument \<open>getenv\<close>: the empty string for a variable that is not set.\<close>

definition temporalHostPort :: "(string \<Rightarrow> string) \<Rightarrow> string" where
  "temporalHostPort getenv =
     (let h = getenv temporalHostEnvVar in if h \<noteq> '''' then h else defaultTemporalHost)"

text \<open>The calls of the SDK. A client and a worker are handles.\<close>

record 'p sdk =
  sdk_Dial :: "string \<Rightarrow> 'p \<Rightarrow> (go_error + nat) \<times> 'p"
  sdk_New :: "nat \<Rightarrow> string \<Rightarrow> 'p \<Rightarrow> nat \<times> 'p"
  sdk_RegisterWorkflow :: "nat \<Rightarrow> string \<Rightarrow> 'p \<Rightarrow> 'p"
  sdk_RegisterActivity :: "nat \<Rightarrow> string \<Rightarrow> 'p \<Rightarrow> 'p"
  sdk_Start :: "nat \<Rightarrow> 'p \<Rightarrow> go_error option \<times> 'p"
  sdk_Stop :: "nat \<Rightarrow> 'p \<Rightarrow> 'p"
  sdk_Close :: "nat \<Rightarrow> 'p \<Rightarrow> 'p"

record Service =
  temporalClient :: nat
  temporalWorker :: nat

definition newWorker :: "'p sdk \<Rightarrow> nat \<Rightarrow> 'p \<Rightarrow> nat \<times> 'p" where
  "newWorker sdk c p =
     (case sdk_New sdk c TaskQueue p of
        (w, p1) \<Rightarrow>
          (w, sdk_RegisterActivity sdk w ''CloseBillActivity''
                (sdk_RegisterActivity sdk w ''AppendLineItemActivity''
                  (sdk_RegisterActivity sdk w ''CreateBillActivity''
                    (sdk_RegisterWorkflow sdk w ''BillingWorkflow'' p1)))))"

definition initService ::
  "'p sdk \<Rightarrow> 'c currency_cache \<Rightarrow> (string \<Rightarrow> string) \<Rightarrow> int \<Rightarrow> rows_failure option \<Rightarrow> 'd DB \<Rightarrow> 'p \<times> 'c
     \<Rightarrow> (go_error + Service) \<times> 'p \<times> 'c" where
  "initService sdk ops getenv now failure db s =
     (case sdk_Dial sdk (temporalHostPort getenv) (fst s) of
        (Inl e, p1) \<Rightarrow> (Inl e, p1, snd s)
      | (Inr c, p1) \<Rightarrow>
          (case newWorker sdk c p1 of
             (w, p2) \<Rightarrow>
               (case sdk_Start sdk w p2 of
                  (Some e, p3) \<Rightarrow> (Inl e, sdk_Close sdk c p3, snd s)
                | (None, p3) \<Rightarrow>
                    (case loadCurrenciesFromDB failure db of
                       Inl e \<Rightarrow>
                         (Inl (Wrap ''load currency registry'' e), sdk_Close sdk c (sdk_Stop sdk w p3), snd s)
                     | Inr loaded \<Rightarrow>
                         (Inr \<lparr>temporalClient = c, temporalWorker = w\<rparr>, p3,
                          setCurrencies ops now loaded (snd s))))))"

definition Shutdown :: "'p sdk \<Rightarrow> Service \<Rightarrow> 'p \<Rightarrow> go_error option \<times> 'p" where
  "Shutdown sdk svc p = (None, sdk_Close sdk (temporalClient svc) (sdk_Stop sdk (temporalWorker svc) p))"

subsection \<open>What the service relies on\<close>

record WorkerConf =
  wk_client :: nat
  wk_queue :: string
  wk_workflows :: "string list"
  wk_activities :: "string list"
  wk_polling :: bool

definition polling :: "(nat \<rightharpoonup> WorkerConf) \<Rightarrow> nat set" where
  "polling ws = {w. \<exists>k. ws w = Some k \<and> wk_polling k}"

text \<open>The worker of the service.\<close>

definition billWorker :: "nat \<Rightarrow> bool \<Rightarrow> WorkerConf" where
  "billWorker c running = \<lparr>wk_client = c, wk_queue = TaskQueue, wk_workflows = [''BillingWorkflow''],
     wk_activities = [''CreateBillActivity'', ''AppendLineItemActivity'', ''CloseBillActivity''],
     wk_polling = running\<rparr>"

text \<open>
  \<open>conns p\<close> are the open clients with the hosts they are connected to, \<open>workers p\<close> the workers. Dial
  and New hand out new handles; a worker that did not start polls nothing; a client may only be
  closed when no worker polls through it.
\<close>

locale temporal_sdk =
  fixes sdk :: "'p sdk"
    and conns :: "'p \<Rightarrow> nat \<rightharpoonup> string"
    and workers :: "'p \<Rightarrow> nat \<rightharpoonup> WorkerConf"
  assumes dial_Inl: "sdk_Dial sdk h p = (Inl e, p') \<Longrightarrow> conns p' = conns p \<and> workers p' = workers p"
    and dial_Inr: "sdk_Dial sdk h p = (Inr c, p') \<Longrightarrow>
      conns p c = None \<and> (\<forall>w k. workers p w = Some k \<longrightarrow> wk_client k \<noteq> c) \<and>
      conns p' = (conns p)(c \<mapsto> h) \<and> workers p' = workers p"
    and new: "sdk_New sdk c q p = (w, p') \<Longrightarrow>
      workers p w = None \<and> conns p' = conns p \<and>
      workers p' = (workers p)(w \<mapsto> \<lparr>wk_client = c, wk_queue = q, wk_workflows = [],
        wk_activities = [], wk_polling = False\<rparr>)"
    and register_workflow: "workers p w = Some k \<Longrightarrow>
      conns (sdk_RegisterWorkflow sdk w f p) = conns p \<and>
      workers (sdk_RegisterWorkflow sdk w f p) = (workers p)(w \<mapsto> k\<lparr>wk_workflows := wk_workflows k @ [f]\<rparr>)"
    and register_activity: "workers p w = Some k \<Longrightarrow>
      conns (sdk_RegisterActivity sdk w f p) = conns p \<and>
      workers (sdk_RegisterActivity sdk w f p) = (workers p)(w \<mapsto> k\<lparr>wk_activities := wk_activities k @ [f]\<rparr>)"
    and start_failed: "sdk_Start sdk w p = (Some e, p') \<Longrightarrow> conns p' = conns p \<and> workers p' = workers p"
    and start_ok: "sdk_Start sdk w p = (None, p') \<Longrightarrow> workers p w = Some k \<Longrightarrow>
      conns p' = conns p \<and> workers p' = (workers p)(w \<mapsto> k\<lparr>wk_polling := True\<rparr>)"
    and stop: "workers p w = Some k \<Longrightarrow>
      conns (sdk_Stop sdk w p) = conns p \<and>
      workers (sdk_Stop sdk w p) = (workers p)(w \<mapsto> k\<lparr>wk_polling := False\<rparr>)"
    and close: "(\<And>w k. workers p w = Some k \<Longrightarrow> wk_polling k \<Longrightarrow> wk_client k \<noteq> c) \<Longrightarrow>
      conns (sdk_Close sdk c p) = (conns p)(c := None) \<and> workers (sdk_Close sdk c p) = workers p"
begin

text \<open>The state in which client and worker of the service exist beside what was there before.\<close>

definition acquired :: "string \<Rightarrow> nat \<Rightarrow> nat \<Rightarrow> bool \<Rightarrow> 'p \<Rightarrow> 'p \<Rightarrow> bool" where
  "acquired h c w running p p' \<longleftrightarrow>
     conns p c = None \<and> workers p w = None \<and> (\<forall>w k. workers p w = Some k \<longrightarrow> wk_client k \<noteq> c) \<and>
     conns p' = (conns p)(c \<mapsto> h) \<and> workers p' = (workers p)(w \<mapsto> billWorker c running)"

definition released :: "'p \<Rightarrow> 'p \<Rightarrow> bool" where
  "released p p' \<longleftrightarrow> conns p' = conns p \<and> polling (workers p') = polling (workers p)"

lemma newWorker_acquired:
  assumes "sdk_Dial sdk h p = (Inr c, p1)" "newWorker sdk c p1 = (w, p2)"
  shows "acquired h c w False p p2"
proof -
  obtain q where n: "sdk_New sdk c TaskQueue p1 = (w, q)"
    and p2: "p2 = sdk_RegisterActivity sdk w ''CloseBillActivity''
                (sdk_RegisterActivity sdk w ''AppendLineItemActivity''
                  (sdk_RegisterActivity sdk w ''CreateBillActivity''
                    (sdk_RegisterWorkflow sdk w ''BillingWorkflow'' q)))"
    using assms(2) by (auto simp: newWorker_def split: prod.splits)
  note d = dial_Inr [OF assms(1)] and n = new [OF n]
  show ?thesis unfolding acquired_def p2
    using d n by (simp add: register_activity register_workflow billWorker_def)
qed

lemma started: "acquired h c w False p p2 \<Longrightarrow> sdk_Start sdk w p2 = (None, p3) \<Longrightarrow> acquired h c w True p p3"
  using start_ok [of w p2 p3] by (simp add: acquired_def billWorker_def)

lemma closed: "acquired h c w False p p2 \<Longrightarrow> released p (sdk_Close sdk c p2)"
proof -
  assume a: "acquired h c w False p p2"
  then have "wk_client k \<noteq> c" if "workers p2 v = Some k" "wk_polling k" for v k
    using that by (auto simp: acquired_def billWorker_def split: if_splits)
  from close [of p2 c, OF this] a show ?thesis
    by (auto simp: acquired_def released_def billWorker_def polling_def fun_eq_iff)
qed

lemma stopped: "acquired h c w r p p3 \<Longrightarrow> acquired h c w False p (sdk_Stop sdk w p3)"
  using stop [of p3 w] by (simp add: acquired_def billWorker_def)

lemma start_kept: "acquired h c w False p p2 \<Longrightarrow> sdk_Start sdk w p2 = (Some e, p3) \<Longrightarrow> acquired h c w False p p3"
  using start_failed [of w p2 e p3] by (simp add: acquired_def)

text \<open>The three ways \<open>initService\<close> fails release everything; success has acquired both.\<close>

lemma initService_cases:
  assumes "initService sdk ops getenv now failure db (p, c0) = (r, p', c')"
  obtains (failed) e where "r = Inl e" "released p p'" "c' = c0"
  | (running) c w m where "r = Inr \<lparr>temporalClient = c, temporalWorker = w\<rparr>"
      "acquired (temporalHostPort getenv) c w True p p'"
      "loadCurrenciesFromDB failure db = Inr m" "c' = setCurrencies ops now m c0"
proof -
  obtain d p1 where d: "sdk_Dial sdk (temporalHostPort getenv) p = (d, p1)" by (rule prod.exhaust)
  show thesis
  proof (cases d)
    case (Inl e)
    with assms d dial_Inl [OF d [unfolded Inl]] show thesis by (intro failed) (auto simp: initService_def released_def)
  next
    case (Inr c)
    obtain w p2 where n: "newWorker sdk c p1 = (w, p2)" by (rule prod.exhaust)
    obtain st p3 where st: "sdk_Start sdk w p2 = (st, p3)" by (rule prod.exhaust)
    note a = newWorker_acquired [OF d [unfolded Inr] n]
    note init = assms [unfolded initService_def, simplified, unfolded d Inr, simplified, unfolded n, simplified, unfolded st, simplified]
    show thesis
    proof (cases st)
      case (Some e)
      with init closed [OF start_kept [OF a st [unfolded Some]]] show thesis by (intro failed) auto
    next
      case None
      note b = started [OF a st [unfolded None]]
      show thesis
      proof (cases "loadCurrenciesFromDB failure db")
        case (Inl e)
        with init None closed [OF stopped [OF b]] show thesis by (intro failed) auto
      next
        case (Inr m)
        with init None b show thesis by (intro running) auto
      qed
    qed
  qed
qed

lemma Shutdown_released:
  assumes "acquired h c w True p p'"
  shows "released p (snd (Shutdown sdk \<lparr>temporalClient = c, temporalWorker = w\<rparr> p'))"
  using closed [OF stopped [OF assms]] by (simp add: Shutdown_def)

end

text \<open>The registry is primed: the first requests read no table.\<close>

lemma primed_registry:
  "t < now + currenciesCacheTTL \<Longrightarrow>
   fst (getCurrencies currencyCache others t failure db
     (setCurrencies currencyCache now m c)) = m"
  by (simp add: getCurrencies_def setCurrencies_def currencyCache_def lru_def lru_Get_def lru_Add_def)

subsection \<open>An SDK of this kind\<close>

text \<open>
  The clients and workers of one process as lists, with the outcome of the next Dial and Start; a
  new handle is greater than every handle in use.
\<close>

record Process =
  ps_conns :: "(nat \<times> string) list"
  ps_workers :: "(nat \<times> WorkerConf) list"
  ps_dial_fails :: "go_error option"
  ps_start_fails :: "go_error option"

definition fresh_handle :: "Process \<Rightarrow> nat" where
  "fresh_handle p = Suc (foldr max (map fst (ps_conns p) @ map fst (ps_workers p) @
     map (\<lambda>(w, k). wk_client k) (ps_workers p)) 0)"

definition map_worker :: "nat \<Rightarrow> (WorkerConf \<Rightarrow> WorkerConf) \<Rightarrow> Process \<Rightarrow> Process" where
  "map_worker w f p =
     (case map_of (ps_workers p) w of
        None \<Rightarrow> p
      | Some k \<Rightarrow> p\<lparr>ps_workers := AList.update w (f k) (ps_workers p)\<rparr>)"

definition process_sdk :: "Process sdk" where
  "process_sdk =
     \<lparr>sdk_Dial = (\<lambda>h p. case ps_dial_fails p of
        Some e \<Rightarrow> (Inl e, p)
      | None \<Rightarrow> (Inr (fresh_handle p), p\<lparr>ps_conns := (fresh_handle p, h) # ps_conns p\<rparr>)),
      sdk_New = (\<lambda>c q p. (fresh_handle p, p\<lparr>ps_workers := (fresh_handle p, \<lparr>wk_client = c, wk_queue = q,
        wk_workflows = [], wk_activities = [], wk_polling = False\<rparr>) # ps_workers p\<rparr>)),
      sdk_RegisterWorkflow = (\<lambda>w f. map_worker w (wk_workflows_update (\<lambda>fs. fs @ [f]))),
      sdk_RegisterActivity = (\<lambda>w f. map_worker w (wk_activities_update (\<lambda>fs. fs @ [f]))),
      sdk_Start = (\<lambda>w p. case ps_start_fails p of
        Some e \<Rightarrow> (Some e, p) | None \<Rightarrow> (None, map_worker w (wk_polling_update (\<lambda>_. True)) p)),
      sdk_Stop = (\<lambda>w. map_worker w (wk_polling_update (\<lambda>_. False))),
      sdk_Close = (\<lambda>c p. p\<lparr>ps_conns := AList.delete c (ps_conns p)\<rparr>)\<rparr>"

lemma fresh_above: "x \<in> set xs \<Longrightarrow> x < Suc (foldr max xs 0)" for x :: nat
  by (induction xs) auto

lemma fresh_conn: "map_of (ps_conns p) (fresh_handle p) = None"
  using fresh_above [of _ "map fst (ps_conns p) @ map fst (ps_workers p) @ map (\<lambda>(w, k). wk_client k) (ps_workers p)"]
  by (force simp: fresh_handle_def map_of_eq_None_iff)

lemma fresh_worker: "map_of (ps_workers p) (fresh_handle p) = None"
  using fresh_above [of _ "map fst (ps_conns p) @ map fst (ps_workers p) @ map (\<lambda>(w, k). wk_client k) (ps_workers p)"]
  by (force simp: fresh_handle_def map_of_eq_None_iff)

lemma fresh_client: "map_of (ps_workers p) w = Some k \<Longrightarrow> wk_client k \<noteq> fresh_handle p"
  using fresh_above [of _ "map fst (ps_conns p) @ map fst (ps_workers p) @ map (\<lambda>(w, k). wk_client k) (ps_workers p)"]
  by (force simp: fresh_handle_def dest!: map_of_SomeD)

lemma map_worker_frame [simp]:
  "ps_conns (map_worker w f p) = ps_conns p"
  "map_of (ps_workers p) w = Some k \<Longrightarrow>
   map_of (ps_workers (map_worker w f p)) = (map_of (ps_workers p))(w \<mapsto> f k)"
  by (auto simp: map_worker_def update_conv' split: option.splits)

interpretation process: temporal_sdk process_sdk "map_of \<circ> ps_conns" "map_of \<circ> ps_workers"
  by unfold_locales
    (auto simp: process_sdk_def fresh_conn fresh_worker fresh_client delete_conv' fun_eq_iff split: option.splits)

end
