(* ===== verification/Columns.thy ===== *)
theory Columns
  imports Ledger
begin

section \<open>The types of the stored rows\<close>

text \<open>
  What the code may rely on when it scans a row: ids are values of a UUID column, amounts of a
  \<open>NUMERIC(30,10)\<close> column and times of a \<open>TIMESTAMPTZ\<close> column; the nullable columns of a bill are
  NULL exactly while it is OPEN; the payload of an event is the one of its kind, and an event has an
  actor. \<open>typed\<close> is an interpretation of \<open>store_invariant\<close>.
\<close>

definition uuid_value :: "'d lib \<Rightarrow> string \<Rightarrow> bool" where
  "uuid_value lib i \<longleftrightarrow> (\<exists>s. pg_uuid lib s = Some i)"

definition numeric_value :: "'d::zero lib \<Rightarrow> 'd \<Rightarrow> bool" where
  "numeric_value lib a \<longleftrightarrow> a = 0 \<or> (\<exists>x. pg_numeric lib x = Some a)"

definition time_value :: "'d lib \<Rightarrow> gotime \<Rightarrow> bool" where
  "time_value lib t \<longleftrightarrow> t \<in> range (pg_time lib)"

definition bill_row_typed :: "'d::zero lib \<Rightarrow> 'd BillRow \<Rightarrow> bool" where
  "bill_row_typed lib r \<longleftrightarrow>
     uuid_value lib (br_id r) \<and> numeric_value lib (br_total_amount r) \<and>
     time_value lib (br_created_at r) \<and>
     pred_option (time_value lib) (br_period_start r) \<and> pred_option (time_value lib) (br_period_end r) \<and>
     (case br_status r of
        BillStatusOpen \<Rightarrow> br_closed_at r = None \<and> br_close_reason r = None
      | BillStatusClosed \<Rightarrow>
          (\<exists>t reason. br_closed_at r = Some t \<and> time_value lib t \<and>
             br_close_reason r = Some reason \<and> reason \<noteq> CloseReasonNone))"

definition item_row_typed :: "'d::zero lib \<Rightarrow> 'd ItemRow \<Rightarrow> bool" where
  "item_row_typed lib r \<longleftrightarrow>
     uuid_value lib (lr_id r) \<and> uuid_value lib (lr_bill_id r) \<and> numeric_value lib (lr_amount r) \<and>
     time_value lib (lr_created_at r)"

fun payload_of_kind :: "BillEventKind \<Rightarrow> Payload \<Rightarrow> bool" where
  "payload_of_kind BillEventOpened (OpenedPayload c ps pe) = True"
| "payload_of_kind BillEventItemAdded (ItemAddedPayload i d a c) = True"
| "payload_of_kind BillEventClosed (ClosedPayload t r) = (r \<noteq> CloseReasonNone)"
| "payload_of_kind _ _ = False"

definition event_row_typed :: "'d lib \<Rightarrow> EventRow \<Rightarrow> bool" where
  "event_row_typed lib e \<longleftrightarrow>
     uuid_value lib (er_bill_id e) \<and> payload_of_kind (er_kind e) (er_payload e) \<and> er_actor e \<noteq> ''''"

definition typed :: "'d::zero lib \<Rightarrow> 'd DB \<Rightarrow> bool" where
  "typed lib db \<longleftrightarrow>
     (\<forall>r\<in>set (bills db). bill_row_typed lib r) \<and>
     (\<forall>r\<in>set (line_items db). item_row_typed lib r) \<and>
     (\<forall>e\<in>set (bill_events db). event_row_typed lib e)"

subsection \<open>Each statement keeps the types\<close>

lemma column_values:
  "pg_uuid lib s = Some i \<Longrightarrow> uuid_value lib i"
  "pg_numeric lib x = Some a \<Longrightarrow> numeric_value lib a"
  "time_value lib (pg_time lib t)"
  by (auto simp: uuid_value_def numeric_value_def time_value_def)

lemma zero_numeric [simp]: "numeric_value lib 0"
  by (simp add: numeric_value_def)

lemma typed_insert_bill:
  "typed lib db \<Longrightarrow> insert_bill lib b db = Inr (u, db') \<Longrightarrow> bill_Status b = BillStatusOpen \<Longrightarrow> typed lib db'"
  by (auto simp: column_values(3) typed_def insert_bill_def bill_row_typed_def option.pred_map o_def pred_option_def
      dest!: column_values(1,2) split: option.splits if_splits)

lemma typed_insert_line_item:
  "typed lib db \<Longrightarrow> insert_line_item lib bid it db = Inr (i, db') \<Longrightarrow> typed lib db'"
  by (auto simp: column_values(3) typed_def insert_line_item_def item_row_typed_def dest!: column_values(1,2) split: option.splits if_splits)

lemma typed_upd_where:
  assumes "typed lib db" "\<And>r. r \<in> set (bills db) \<Longrightarrow> bill_row_typed lib r \<Longrightarrow> bill_row_typed lib (f r)"
  shows "typed lib (db\<lparr>bills := upd_where br_id u f (bills db)\<rparr>)"
  using assms by (auto simp: typed_def set_upd_where)

lemma bill_row_typed_total:
  "bill_row_typed lib r \<Longrightarrow> numeric_value lib t \<Longrightarrow> bill_row_typed lib (r\<lparr>br_total_amount := t\<rparr>)"
  by (simp add: bill_row_typed_def split: BillStatus.splits)

lemma typed_update_bill_total:
  "typed lib db \<Longrightarrow> update_bill_total lib bid a db = Inr db' \<Longrightarrow> typed lib db'"
  by (auto simp: update_bill_total_def intro!: typed_upd_where bill_row_typed_total column_values(2)
      split: option.splits)

lemma typed_update_bill_close:
  "typed lib db \<Longrightarrow> update_bill_close lib bid a at (Some reason) db = Inr db' \<Longrightarrow>
   reason \<noteq> CloseReasonNone \<Longrightarrow> typed lib db'"
  by (auto simp: column_values(3) update_bill_close_def bill_row_typed_def close_row_def intro!: typed_upd_where
      dest!: column_values(1,2) split: option.splits if_splits)

lemma typed_insert_event:
  "typed lib db \<Longrightarrow> insert_event lib fresh now bid kind actor p db = Inr db' \<Longrightarrow>
   payload_of_kind kind p \<Longrightarrow> actor \<noteq> '''' \<Longrightarrow> typed lib db'"
  by (auto simp: column_values(3) typed_def insert_event_def event_row_typed_def dest!: column_values(1,2) split: option.splits if_splits)

lemma SystemActor_nonempty [simp]: "SystemActor \<noteq> ''''"
  by (simp add: SystemActor_def)

interpretation columns_typed: store_invariant lib "typed lib" for lib :: "'d::linordered_ab_group_add lib"
proof
  show "typed lib db" if "bills db = []" "line_items db = []" "bill_events db = []" for db
    using that by (simp add: typed_def)
  fix s s' :: "'d Store" and env b inp cin
  assume t: "typed lib (fst s)"
  show "typed lib (fst s')" if st: "bill_Status b = BillStatusOpen" and run: "CreateBillTx lib env b s = (Inr (), s')"
    using CreateBillTx_Inr [OF run]
  proof (elim disjE conjE exE)
    fix u db1 db2
    assume ins: "insert_bill lib b (fst s) = Inr (u, db1)"
      and ev: "insert_event lib (tx_fresh env) (tx_now env) (bill_ID b) BillEventOpened
        (if bill_AccountID b = '''' then SystemActor else bill_AccountID b)
        (OpenedPayload (bill_Currency b) (bill_PeriodStart b) (bill_PeriodEnd b)) db1 = Inr db2"
      and s': "s' = (db2, BillsOpened (bill_Currency b) # snd s)"
    from typed_insert_event [OF typed_insert_bill [OF t ins st] ev] s' show ?thesis by simp
  qed (use t in simp)
  show "typed lib (fst s')" if "AppendLineItemTx lib env inp s = (Inr (), s')"
    using AppendLineItemTx_Inr [OF that]
  proof (elim disjE conjE exE)
    fix i db1 db2 db3
    assume ins: "insert_line_item lib (ap_BillID inp) (ap_Item inp) (fst s) = Inr (i, db1)"
      and upd: "update_bill_total lib (ap_BillID inp) (li_Amount (ap_Item inp)) db1 = Inr db2"
      and ev: "insert_event lib (tx_fresh env) (tx_now env) (ap_BillID inp) BillEventItemAdded
        (if ap_Actor inp = '''' then SystemActor else ap_Actor inp)
        (ItemAddedPayload (li_ID (ap_Item inp)) (li_Description (ap_Item inp))
           (dec_String lib (li_Amount (ap_Item inp))) (li_Currency (ap_Item inp))) db2 = Inr db3"
      and s': "s' = (db3, LineItemsAdded ''accepted'' # snd s)"
    from typed_insert_event [OF typed_update_bill_total [OF typed_insert_line_item [OF t ins] upd] ev] s'
    show ?thesis by simp
  qed (use t in simp)
  show "typed lib (fst s')" if reason: "cb_CloseReason cin \<noteq> CloseReasonNone"
    and run: "CloseBillTx lib env cin s = (Inr (), s')"
  proof -
    from CloseBillTx_Inr [OF run] obtain db1 db2 where
      upd: "update_bill_close lib (cb_BillID cin) (cb_TotalAmount cin) (cb_ClosedAt cin)
        (Some (cb_CloseReason cin)) (fst s) = Inr db1"
      and ev: "insert_event lib (tx_fresh env) (tx_now env) (cb_BillID cin) BillEventClosed
        (if cb_Actor cin = '''' then SystemActor else cb_Actor cin)
        (ClosedPayload (dec_String lib (cb_TotalAmount cin)) (cb_CloseReason cin)) db1 = Inr db2"
      and s': "s' = (db2, BillsClosed (reason_string (cb_CloseReason cin)) # snd s)"
      using reason by (auto simp: nullableCloseReason_def)
    from typed_insert_event [OF typed_update_bill_close [OF t upd reason] ev] s' reason
    show ?thesis by simp
  qed
qed

end
