(* ===== verification/Book.thy ===== *)
theory Book
  imports Columns
begin

section \<open>The book of bills\<close>

text \<open>
  What the service promises about its tables, as an abstract machine: a book maps bill ids to
  bills, and it is changed by opening a bill, by posting an item that is nowhere in the book, and by
  closing a bill for a reason. \<open>book_of\<close> reads the book off the tables. Every event of every
  execution either leaves the book alone or is one step of the machine: retries, failed and
  unreported transactions, duplicates and roll-overs do not show.
\<close>

record 'd BookBill =
  bk_account :: string
  bk_currency :: Currency
  bk_items :: "(string \<times> 'd) list"
  bk_total :: 'd
  bk_closed :: "CloseReason option"

type_synonym 'd book = "string \<rightharpoonup> 'd BookBill"

definition posted_ids :: "'d book \<Rightarrow> string set" where
  "posted_ids B = {i. \<exists>u b. B u = Some b \<and> i \<in> fst ` set (bk_items b)}"

inductive book_step :: "'d::linordered_ab_group_add book \<Rightarrow> 'd book \<Rightarrow> bool" where
  book_open: "B u = None \<Longrightarrow>
    book_step B (B(u \<mapsto> \<lparr>bk_account = acct, bk_currency = cur, bk_items = [], bk_total = 0, bk_closed = None\<rparr>))"
| book_post: "B u = Some b \<Longrightarrow> i \<notin> posted_ids B \<Longrightarrow> 0 < a \<Longrightarrow>
    (bk_closed b = None \<Longrightarrow> t = bk_total b + a) \<Longrightarrow>
    book_step B (B(u \<mapsto> b\<lparr>bk_items := bk_items b @ [(i, a)], bk_total := t\<rparr>))"
| book_close: "B u = Some b \<Longrightarrow> reason \<noteq> CloseReasonNone \<Longrightarrow>
    book_step B (B(u \<mapsto> b\<lparr>bk_total := t, bk_closed := Some reason\<rparr>))"

inductive book_reachable :: "'d::linordered_ab_group_add book \<Rightarrow> bool" where
  book_empty: "book_reachable Map.empty"
| book_next: "book_reachable B \<Longrightarrow> book_step B B' \<Longrightarrow> book_reachable B'"

subsection \<open>What holds of every book\<close>

definition book_ok :: "'d::linordered_ab_group_add book \<Rightarrow> bool" where
  "book_ok B \<longleftrightarrow>
     (\<forall>u b. B u = Some b \<longrightarrow>
        distinct (map fst (bk_items b)) \<and> (\<forall>x\<in>set (bk_items b). 0 < snd x) \<and>
        (bk_closed b = None \<longrightarrow> bk_total b = sum_list (map snd (bk_items b)))) \<and>
     (\<forall>u v b c. B u = Some b \<longrightarrow> B v = Some c \<longrightarrow> u \<noteq> v \<longrightarrow>
        fst ` set (bk_items b) \<inter> fst ` set (bk_items c) = {})"

lemma book_ok_step: "book_step B B' \<Longrightarrow> book_ok B \<Longrightarrow> book_ok B'"
proof (induction rule: book_step.induct)
  case (book_open B u acct cur)
  then show ?case unfolding book_ok_def by (auto split: if_splits)
next
  case (book_post B u b i a t)
  from book_post(2) have fresh: "\<And>v c. B v = Some c \<Longrightarrow> i \<notin> fst ` set (bk_items c)"
    by (auto simp: posted_ids_def)
  let ?b = "b\<lparr>bk_items := bk_items b @ [(i, a)], bk_total := t\<rparr>"
  have one: "distinct (map fst (bk_items ?b)) \<and> (\<forall>x\<in>set (bk_items ?b). 0 < snd x) \<and>
      (bk_closed ?b = None \<longrightarrow> bk_total ?b = sum_list (map snd (bk_items ?b)))"
    using book_post fresh [OF book_post(1)] unfolding book_ok_def by auto
  have "fst ` set (bk_items ?b) \<inter> fst ` set (bk_items c) = {}" if "B v = Some c" "v \<noteq> u" for v c
    using book_post(1,5) that fresh [OF that(1)] unfolding book_ok_def by auto
  with one book_post(5) show ?case
    unfolding book_ok_def by (simp add: Int_commute)
next
  case (book_close B u b reason t)
  then show ?case unfolding book_ok_def by (auto split: if_splits)
qed

lemma book_reachable_ok: "book_reachable B \<Longrightarrow> book_ok B"
  by (induction rule: book_reachable.induct) (simp add: book_ok_def, blast intro: book_ok_step)

subsection \<open>The book in the tables\<close>

definition book_bill :: "'d DB \<Rightarrow> 'd BillRow \<Rightarrow> 'd BookBill" where
  "book_bill db r = \<lparr>bk_account = br_account_id r, bk_currency = br_currency r,
     bk_items = map (\<lambda>i. (lr_id i, lr_amount i)) (items_of (br_id r) db), bk_total = br_total_amount r,
     bk_closed = (case br_status r of BillStatusOpen \<Rightarrow> None | BillStatusClosed \<Rightarrow> br_close_reason r)\<rparr>"

definition book_of :: "'d DB \<Rightarrow> 'd book" where
  "book_of db u = map_option (book_bill db) (find_bill u db)"

definition book_moves :: "'d::linordered_ab_group_add book \<Rightarrow> 'd book \<Rightarrow> bool" where
  "book_moves B B' \<longleftrightarrow> B' = B \<or> book_step B B'"

lemma book_of_upd:
  assumes "\<And>v. v \<noteq> u \<Longrightarrow> find_bill v db' = find_bill v db \<and> items_of v db' = items_of v db"
    and "find_bill u db' = Some r"
  shows "book_of db' = (book_of db)(u \<mapsto> book_bill db' r)"
proof
  fix v show "book_of db' v = ((book_of db)(u \<mapsto> book_bill db' r)) v"
  proof (cases "v = u")
    case False
    with assms(1) [OF False] show ?thesis
      by (cases "find_bill v db") (auto simp: book_of_def book_bill_def dest: find_bill_Some)
  qed (simp add: book_of_def assms(2))
qed

lemma posted_items: "posted_ids (book_of db) \<subseteq> lr_id ` set (line_items db)"
  by (auto simp: posted_ids_def book_of_def book_bill_def items_of_def)

lemma book_CreateBillTx:
  assumes ok: "db_ok (fst s)" and st: "bill_Status b = BillStatusOpen"
    and run: "CreateBillTx lib env b s = (Inr (), s')"
  shows "book_moves (book_of (fst s)) (book_of (fst s'))"
  using run
proof (cases rule: CreateBillTx_effect)
  case (opened u ev)
  have items: "items_of v (fst s') = items_of v (fst s)" for v using opened(3) by (simp add: items_of_def)
  define r where "r = the (find_bill u (fst s'))"
  have r: "find_bill u (fst s') = Some r" by (simp add: r_def opened(7))
  have "book_of (fst s') = (book_of (fst s))(u \<mapsto> book_bill (fst s') r)"
    by (rule book_of_upd [OF _ r]) (simp add: opened(7) items)
  moreover have "book_bill (fst s') r = \<lparr>bk_account = bill_AccountID b, bk_currency = bill_Currency b,
      bk_items = [], bk_total = 0, bk_closed = None\<rparr>"
    using no_bill_no_items [OF ok opened(2)] by (simp add: r_def book_bill_def opened(7) items st)
  moreover have "book_of (fst s) u = None" by (simp add: book_of_def opened(2))
  ultimately show ?thesis by (simp add: book_moves_def book_open)
qed (simp add: book_moves_def)

lemma book_CloseBillTx:
  assumes run: "CloseBillTx lib env inp s = (Inr (), s')" and reason: "cb_CloseReason inp \<noteq> CloseReasonNone"
  shows "book_moves (book_of (fst s)) (book_of (fst s'))"
  using run
proof (cases rule: CloseBillTx_effect)
  case (1 u t b ev)
  have items: "items_of v (fst s') = items_of v (fst s)" for v by (simp add: 1(7) items_of_def)
  have row: "find_bill v (fst s') = (if v = u then map_option (close_row t (pg_time lib (cb_ClosedAt inp))
      (Some (cb_CloseReason inp))) (find_bill v (fst s)) else find_bill v (fst s))" for v
    using reason by (simp add: 1(7) find_bill_def find_upd_where nullableCloseReason_def)
  let ?r = "close_row t (pg_time lib (cb_ClosedAt inp)) (Some (cb_CloseReason inp)) b"
  have "find_bill u (fst s') = Some ?r" by (simp add: row 1(2))
  then have "book_of (fst s') = (book_of (fst s))(u \<mapsto> book_bill (fst s') ?r)"
    by (rule book_of_upd [rotated]) (simp add: row items)
  moreover have "book_bill (fst s') ?r = (book_bill (fst s) b)\<lparr>bk_total := t, bk_closed := Some (cb_CloseReason inp)\<rparr>"
    by (simp add: book_bill_def items) (simp add: close_row_def)
  moreover have "book_of (fst s) u = Some (book_bill (fst s) b)" by (simp add: book_of_def 1(2))
  ultimately show ?thesis using reason by (simp add: book_moves_def book_close)
qed

context ledger_lib
begin

lemma book_AppendLineItemTx:
  assumes bal: "balanced lib (fst s)" and types: "typed lib (fst s)"
    and run: "AppendLineItemTx lib env inp s = (Inr (), s')"
  shows "book_moves (book_of (fst s)) (book_of (fst s'))"
  using run
proof (cases rule: AppendLineItemTx_effect)
  case (posted i u a b t ev)
  let ?it = "itemRow lib i u a (ap_Item inp)"
  have id: "br_id b = u" using find_bill_Some [OF posted(6)] by simp
  have "find_bill u (fst s') = Some (b\<lparr>br_total_amount := t\<rparr>)" by (simp add: posted(6,10))
  then have "book_of (fst s') = (book_of (fst s))(u \<mapsto> book_bill (fst s') (b\<lparr>br_total_amount := t\<rparr>))"
    by (rule book_of_upd [rotated]) (simp add: posted(10))
  moreover have "book_bill (fst s') (b\<lparr>br_total_amount := t\<rparr>) =
      (book_bill (fst s) b)\<lparr>bk_items := bk_items (book_bill (fst s) b) @ [(i, a)], bk_total := t\<rparr>"
    using id by (simp add: book_bill_def posted(10) split: BillStatus.splits)
  moreover have "t = bk_total (book_bill (fst s) b) + a" if "bk_closed (book_bill (fst s) b) = None"
  proof -
    have "bill_row_typed lib b" using types find_bill_Some [OF posted(6)] by (simp add: typed_def)
    with that have "br_status b = BillStatusOpen"
      by (auto simp: book_bill_def bill_row_typed_def split: BillStatus.splits)
    with bal posted(6) have "row_balanced lib (fst s) u b" by (simp add: balanced_def)
    then show ?thesis
      using num_sum [OF _ _ num_pos [OF posted(3,4)] posted(3,7)] by (simp add: row_balanced_def book_bill_def)
  qed
  moreover have "i \<notin> posted_ids (book_of (fst s))"
    using posted(5) posted_items [of "fst s"] by (auto simp: find_item_None)
  moreover have "book_of (fst s) u = Some (book_bill (fst s) b)" by (simp add: book_of_def posted(6))
  ultimately show ?thesis using posted(4) by (auto simp: book_moves_def intro: book_post)
qed (simp add: book_moves_def)

lemma book_attempt:
  assumes "inTx env op fn s = (r, s')" "fn s = (Inr (), s') \<Longrightarrow> book_moves (book_of (fst s)) (book_of (fst s'))"
  shows "book_moves (book_of (fst s)) (book_of (fst s'))"
  using assms(1) by (cases rule: inTx_cases) (use assms(2) in \<open>auto simp: book_moves_def\<close>)

lemma book_wf_step:
  assumes "balanced lib (fst s)" "typed lib (fst s)" "db_ok (fst s)" "run_phase w"
    and "wf_step lib ev w s = Some (w', s', rs)"
  shows "book_moves (book_of (fst s)) (book_of (fst s'))"
  using assms(5)
proof (cases rule: wf_step_store)
  case (create env r a)
  then have "bill_Status (wf_bill w) = BillStatusOpen" using assms(4) by (simp add: run_phase_def)
  from book_attempt [OF create(2) [unfolded CreateBillActivity_def] book_CreateBillTx [OF assms(3) this]]
  show ?thesis .
next
  case (append env r inp)
  from book_attempt [OF append [unfolded AppendLineItemActivity_def] book_AppendLineItemTx [OF assms(1,2)]]
  show ?thesis .
next
  case (close env r inp a)
  then have "cb_CloseReason inp \<noteq> CloseReasonNone" using assms(4) by (simp add: run_phase_def)
  from book_attempt [OF close(2) [unfolded CloseBillActivity_def] book_CloseBillTx [OF _ this]]
  show ?thesis .
qed (simp add: book_moves_def)

lemma book_sys_step:
  assumes r: "reachable lib G \<sigma>" and "sys_step lib e \<sigma> = Some \<sigma>'"
  shows "book_moves (book_of (fst (sys_store \<sigma>))) (book_of (fst (sys_store \<sigma>')))"
  using assms(2)
proof (cases rule: sys_step_cases)
  case (ran wid ev w w' s' rs)
  have "run_phase w" using run.holds [OF r ran(2)] by (simp add: run_ok_def)
  from book_wf_step [OF books.holds [OF r] columns_typed.holds [OF r] reachable_db_ok [OF r] this ran(3)] ran(4)
  show ?thesis by simp
qed (simp_all add: book_moves_def)

lemma book_holds: "reachable lib G \<sigma> \<Longrightarrow> book_reachable (book_of (fst (sys_store \<sigma>)))"
proof (induction rule: reachable.induct)
  case (reach_init \<sigma>)
  then have "book_of (fst (sys_store \<sigma>)) = Map.empty" by (simp add: fun_eq_iff book_of_def find_bill_def sys_init_def)
  then show ?case by (simp add: book_empty)
next
  case (reach_step \<sigma> e \<sigma>')
  from book_sys_step [OF reach_step.hyps(1,3)] reach_step.IH show ?case
    by (auto simp: book_moves_def intro: book_next)
qed

end

end
