(* ===== verification/Onward.thy ===== *)
theory Onward
  imports Service
begin

section \<open>What every request and every event keeps\<close>

text \<open>
  \<open>later lib w w'\<close>: the service goes from \<open>w\<close> to \<open>w'\<close> by requests of its mutating endpoints and by
  events of its workflows. A property of the store that every event keeps, and that new increments
  of counters do not disturb, is kept by all of them: \<open>store_property\<close>, whose \<open>temporal_service\<close> is
  the one of \<open>sys_client\<close> with the property added to what is sound.
\<close>

inductive later :: "'d::linordered_ab_group_add lib \<Rightarrow> ('d, 'd Sys) World \<Rightarrow> ('d, 'd Sys) World \<Rightarrow> bool"
  for lib w0 where
  later_refl: "later lib w0 w0"
| later_create: "later lib w0 w \<Longrightarrow>
    RequireActiveCaller data (CreateBill lib (sys_client lib now plan retained) rd reg data fresh creq) w = (cr, w') \<Longrightarrow>
    later lib w0 w'"
| later_add: "later lib w0 w \<Longrightarrow>
    RequireActiveCaller data (AddLineItem lib (sys_client lib now plan retained) reg data fresh i areq) w = (ar, w') \<Longrightarrow>
    later lib w0 w'"
| later_close: "later lib w0 w \<Longrightarrow>
    RequireActiveCaller data (CloseBill lib (sys_client lib now plan retained) rd data i) w = (lr, w') \<Longrightarrow>
    later lib w0 w'"
| later_event: "later lib w0 w \<Longrightarrow> sys_step lib e (sys_of w) = Some \<sigma> \<Longrightarrow> later lib w0 (put_sys \<sigma>)"

lemma later_served: "later lib w0 w \<Longrightarrow> served lib w0 \<Longrightarrow> served lib w"
  by (induction rule: later.induct)
    (blast intro: served_create served_add served_close served_event)+

lemma served_later: "served lib w \<Longrightarrow> \<exists>\<sigma>. sys_init \<sigma> \<and> later lib (put_sys \<sigma>) w"
  by (induction rule: served.induct)
    (blast intro: later_refl later_create later_add later_close later_event)+

lemma later_run:
  "sys_run lib es \<sigma> = Some \<sigma>' \<Longrightarrow> later lib w0 (put_sys \<sigma>) \<Longrightarrow> later lib w0 (put_sys \<sigma>')"
proof (induction es arbitrary: \<sigma>)
  case (Cons e es)
  then obtain \<sigma>1 where s: "sys_step lib e \<sigma> = Some \<sigma>1" "sys_run lib es \<sigma>1 = Some \<sigma>'"
    by (auto split: option.splits)
  with later_event [OF Cons.prems(2)] Cons.IH show ?case by simp
qed simp

lemma sys_store_of: "sys_store (sys_of w) = w_store w" "w_store (put_sys \<sigma>) = sys_store \<sigma>"
  by (simp_all add: sys_of_def put_sys_def)

locale store_property =
  fixes lib :: "'d::linordered_ab_group_add lib"
    and K :: "'d Store \<Rightarrow> bool"
  assumes step: "K (sys_store \<sigma>) \<Longrightarrow> sys_step lib e \<sigma> = Some \<sigma>' \<Longrightarrow> K (sys_store \<sigma>')"
    and counted: "K (db, ms) \<Longrightarrow> K (db, ms' @ ms)"
begin

lemma events: "K (sys_store \<sigma>) \<Longrightarrow> K (sys_store (run_events lib es \<sigma>))"
  by (induction es arbitrary: \<sigma>) (auto simp: run_events.simps split: option.splits intro: step)

lemma step_world: "K (w_store w) \<Longrightarrow> sys_step lib e (sys_of w) = Some \<sigma> \<Longrightarrow> K (w_store (put_sys \<sigma>))"
  using step [of "sys_of w" e \<sigma>] by (simp add: sys_store_of)

lemma events_world: "K (w_store w) \<Longrightarrow> K (w_store (put_sys (run_events lib es (sys_of w))))"
  using events [of "sys_of w" es] by (simp add: sys_store_of)

end

declare sys_step.simps [simp del] wf_step.simps [simp del] run_events.simps [simp del]

sublocale store_property \<subseteq> kept: temporal_service lib "sys_client lib now plan retained"
  "\<lambda>w. sound_world lib w \<and> K (w_store w)" for now plan retained
proof
  fix w w' :: "('d, 'd Sys) World" and inp winp wid i r u g res result b ms
  let ?tc = "sys_client lib now plan retained"
  let ?S = "\<lambda>w. sound_world lib w \<and> K (w_store w)"
  assume w: "?S w"
  show "?S w'" if "fresh_input winp" "tc_ExecuteWorkflow ?tc wid winp w = (r, w')"
    using w that temporal.sound_execute [OF _ that] step_world
    by (auto simp: sys_client_defs split: if_splits option.splits)
  show "?S w'" if "tc_UpdateWorkflow ?tc wid inp w = (u, w')"
    using w that temporal.sound_update [OF _ that] events_world
    by (auto simp: sys_client_defs Let_def split: if_splits)
  show "?S w'" if "tc_SignalWorkflow ?tc wid w = (r, w')"
    using w that temporal.sound_signal [OF _ that] step_world
    by (auto simp: sys_client_defs split: if_splits option.splits)
  show "?S w'" if "tc_GetWorkflow ?tc wid w = (g, w')"
    using w that temporal.sound_get [OF _ that] events_world
    by (auto simp: sys_client_defs Let_def)
  show "?S (count_metrics ms w)"
    using w sound_count [of lib w ms] counted by (simp add: count_metrics_def)
  show "item_durable lib (world_db w') (in_ItemID inp)" if "tc_UpdateWorkflow ?tc wid inp w = (Inr (Inr res), w')"
    using w temporal.update_stores [OF _ that] by blast
  show "bill_closed lib (world_db w') i" if "tc_GetWorkflow ?tc (workflowID i) w = (Inr result, w')"
    using w temporal.get_closes [OF _ that] by blast
  show "bill_ID b = i" if "tc_QueryWorkflow ?tc (workflowID i) w = Inr (Inr b)" for b
    using w temporal.query_bill [OF _ that] by blast
qed

context store_property
begin

lemma keeps: "later lib w0 w \<Longrightarrow> served lib w0 \<Longrightarrow> K (w_store w0) \<Longrightarrow> K (w_store w)"
proof (induction rule: later.induct)
  case (later_create w data now plan retained rd reg fresh creq cr w')
  from RequireActiveCaller_world [OF later_create.hyps(2)] show ?case
    using later_create.IH [OF later_create.prems] served_sound [OF later_served [OF later_create.hyps(1) later_create.prems(1)]]
      kept.CreateBill_sound by blast
next
  case (later_add w data now plan retained reg fresh i areq ar w')
  from RequireActiveCaller_world [OF later_add.hyps(2)] show ?case
    using later_add.IH [OF later_add.prems] served_sound [OF later_served [OF later_add.hyps(1) later_add.prems(1)]]
      kept.AddLineItem_sound by blast
next
  case (later_close w data now plan retained rd i lr w')
  from RequireActiveCaller_world [OF later_close.hyps(2)] show ?case
    using later_close.IH [OF later_close.prems] served_sound [OF later_served [OF later_close.hyps(1) later_close.prems(1)]]
      kept.CloseBill_sound by blast
next
  case (later_event w e \<sigma>)
  then show ?case using step_world by blast
qed

lemma holds: "served lib w \<Longrightarrow> (\<And>\<sigma>. sys_init \<sigma> \<Longrightarrow> K (sys_store \<sigma>)) \<Longrightarrow> K (w_store w)"
  using served_later [of lib w] keeps served_init by (metis sys_store_of(2))

end

text \<open>Whatever is requested, the tables only grow.\<close>

interpretation tables_grow: store_property lib "\<lambda>s. db_extends db0 (fst s)"
  for lib :: "'d::linordered_ab_group_add lib" and db0
  by unfold_locales (auto dest: sys_step_extends intro: db_extends_trans)

lemma later_extends: "later lib w0 w \<Longrightarrow> served lib w0 \<Longrightarrow> db_extends (world_db w0) (world_db w)"
  unfolding world_db_def using tables_grow.keeps [of lib w0 w "fst (w_store w0)"] by simp

end
