(* ===== verification/Metrics.thy ===== *)
theory Metrics
  imports Onward
begin

section \<open>The counters and the tables (bill/metrics.go)\<close>

text \<open>
  A counter is the number of its increments in the log. \<open>tally\<close> is what the tables say it should
  be: bills by currency, CLOSED events by reason, line items for the accepted ones. The increments
  are made inside the transactions, before the commit (locale \<open>metered_activity\<close>): a counter never
  falls behind its tables, and runs ahead of them exactly by the commits that were lost.
\<close>

definition counter :: "Metric \<Rightarrow> 'd Store \<Rightarrow> nat" where
  "counter m s = count_list (snd s) m"

fun closes_with :: "string \<Rightarrow> EventRow \<Rightarrow> bool" where
  "closes_with reason e = (case er_payload e of ClosedPayload t r \<Rightarrow> reason_string r = reason | _ \<Rightarrow> False)"

fun tally :: "'d DB \<Rightarrow> Metric \<Rightarrow> nat" where
  "tally db (BillsOpened c) = length (filter (\<lambda>r. br_currency r = c) (bills db))"
| "tally db (BillsClosed reason) = length (filter (closes_with reason) (bill_events db))"
| "tally db (LineItemsAdded result) = (if result = ''accepted'' then length (line_items db) else 0)"
| "tally db (ValidatorRejection reason) = 0"

fun tallied :: "Metric \<Rightarrow> bool" where
  "tallied (BillsOpened c) = True"
| "tallied (BillsClosed reason) = True"
| "tallied (LineItemsAdded result) = (result = ''accepted'')"
| "tallied (ValidatorRejection reason) = False"

definition lag :: "Metric \<Rightarrow> 'd Store \<Rightarrow> int" where
  "lag m s = int (counter m s) - int (tally (fst s) m)"

subsection \<open>Each statement adds at most one row\<close>

definition hit :: "bool \<Rightarrow> nat" where
  "hit b = (if b then 1 else 0)"

lemma hit_simps [simp]: "hit True = 1" "hit False = 0"
  by (simp_all add: hit_def)

lemma counter_Cons: "counter m (db, m' # ms) = counter m (db', ms) + hit (m = m')"
  by (simp add: counter_def hit_def)

lemma tally_insert_bill:
  "insert_bill lib b db = Inr (u, db') \<Longrightarrow> tally db' m = tally db m + hit (m = BillsOpened (bill_Currency b))"
  by (cases m) (auto simp: insert_bill_def hit_def split: option.splits if_splits)

lemma tally_insert_line_item:
  "insert_line_item lib bid it db = Inr (i, db') \<Longrightarrow>
   tally db' m = tally db m + hit (m = LineItemsAdded ''accepted'')"
  by (cases m) (auto simp: insert_line_item_def hit_def split: option.splits if_splits)

lemma filter_upd_where:
  "(\<And>r. P (f r) = P r) \<Longrightarrow> length (filter P (upd_where key k f rs)) = length (filter P rs)"
  by (induction rs) auto

lemma tally_update_bill_total:
  "update_bill_total lib bid a db = Inr db' \<Longrightarrow> tally db' m = tally db m"
  by (cases m) (auto simp: update_bill_total_def filter_upd_where split: option.splits)

lemma tally_update_bill_close:
  "update_bill_close lib bid a at reason db = Inr db' \<Longrightarrow> tally db' m = tally db m"
  by (cases m) (auto simp: update_bill_close_def close_row_def filter_upd_where
      split: option.splits if_splits)

lemma tally_insert_event:
  "insert_event lib fresh now bid kind actor p db = Inr db' \<Longrightarrow>
   tally db' m = tally db m + hit (\<exists>t r. p = ClosedPayload t r \<and> m = BillsClosed (reason_string r))"
  by (cases m) (auto simp: insert_event_def hit_def split: option.splits if_splits Payload.splits)

lemmas tally_statements = tally_insert_bill tally_insert_line_item tally_update_bill_total
  tally_update_bill_close tally_insert_event

subsection \<open>The activities\<close>

locale metered_activity =
  fixes body :: "tx_env \<Rightarrow> 'd Store \<Rightarrow> (go_error + unit) \<times> 'd Store"
    and op :: string
  assumes body_ok: "tallied m \<Longrightarrow> body env s = (Inr (), s') \<Longrightarrow>
      lag m s' = lag m s \<and> tally (fst s) m \<le> tally (fst s') m"
    and body_fails: "body env s = (Inl e, s') \<Longrightarrow> snd s' = snd s"
begin

lemma attempt:
  assumes m: "tallied m" and run: "inTx env op (body env) s = (r, s')"
  shows "lag m s \<le> lag m s' \<and> (commit env \<noteq> CommitFailed \<longrightarrow> lag m s' = lag m s)"
proof -
  obtain r1 db1 ms1 where b: "body env s = (r1, (db1, ms1))" by (metis prod.exhaust)
  show ?thesis
  proof (cases r1)
    case (Inl e)
    with run b body_fails [of env s e] show ?thesis
      by (auto simp: inTx_def lag_def counter_def split: if_splits)
  next
    case (Inr x)
    with b body_ok [OF m, of env s "(db1, ms1)"] run show ?thesis
      by (auto simp: inTx_def lag_def counter_def split: if_splits CommitOutcome.splits)
  qed
qed

end

interpretation create_meter: metered_activity "\<lambda>env. CreateBillTx lib env b" "''create bill''"
  for lib :: "'d::{zero,ord} lib" and b
proof
  fix m env and s s' :: "'d Store" and e
  show "lag m s' = lag m s \<and> tally (fst s) m \<le> tally (fst s') m"
    if "tallied m" "CreateBillTx lib env b s = (Inr (), s')"
    using CreateBillTx_Inr [OF that(2)]
    by (auto simp: lag_def counter_def hit_def dest!: tally_statements [where m = m])
  show "snd s' = snd s" if "CreateBillTx lib env b s = (Inl e, s')"
    using that by (auto simp: CreateBillTx_def split: sum.splits if_splits)
qed

interpretation append_meter: metered_activity "\<lambda>env. AppendLineItemTx lib env inp" "''append line item''"
  for lib :: "'d::{zero,ord,plus} lib" and inp
proof
  fix m env and s s' :: "'d Store" and e
  show "lag m s' = lag m s \<and> tally (fst s) m \<le> tally (fst s') m"
    if "tallied m" "AppendLineItemTx lib env inp s = (Inr (), s')"
    using AppendLineItemTx_Inr [OF that(2)] that(1)
    by (auto simp: lag_def counter_def hit_def dest!: tally_statements [where m = m])
  show "snd s' = snd s" if "AppendLineItemTx lib env inp s = (Inl e, s')"
    using that by (auto simp: AppendLineItemTx_def Let_def split: sum.splits if_splits)
qed

interpretation close_meter: metered_activity "\<lambda>env. CloseBillTx lib env inp" "''close bill''"
  for lib :: "'d::{zero,ord} lib" and inp
proof
  fix m env and s s' :: "'d Store" and e
  show "lag m s' = lag m s \<and> tally (fst s) m \<le> tally (fst s') m"
    if "tallied m" "CloseBillTx lib env inp s = (Inr (), s')"
    using CloseBillTx_Inr [OF that(2)]
    by (auto simp: lag_def counter_def hit_def dest!: tally_statements [where m = m])
  show "snd s' = snd s" if "CloseBillTx lib env inp s = (Inl e, s')"
    using that by (auto simp: CloseBillTx_def split: sum.splits if_splits)
qed

subsection \<open>Every execution\<close>

text \<open>The attempts whose transaction was complete and whose commit was refused.\<close>

fun lost_commit :: "'d Event \<Rightarrow> bool" where
  "lost_commit (CreateAttempt env rep) = (commit env = CommitFailed)"
| "lost_commit (AppendAttempt k env rep) = (commit env = CommitFailed)"
| "lost_commit (CloseAttempt env rep) = (commit env = CommitFailed)"
| "lost_commit _ = False"

fun loses :: "'d SysEvent \<Rightarrow> bool" where
  "loses (RunEvent wid ev) = lost_commit ev"
| "loses _ = False"

lemma wf_step_attempts:
  assumes "wf_step lib ev w s = Some (w', s', rs)"
  obtains (same) "s' = s"
  | (create) env r where "lost_commit ev = (commit env = CommitFailed)"
      "CreateBillActivity lib env (wf_bill w) s = (r, s')"
  | (append) env r inp where "lost_commit ev = (commit env = CommitFailed)"
      "AppendLineItemActivity lib env inp s = (r, s')"
  | (close) env r inp where "lost_commit ev = (commit env = CommitFailed)"
      "CloseBillActivity lib env inp s = (r, s')"
  using assms
  by (cases ev) (auto simp: wf_step.simps Let_def split: Phase.splits prod.splits)

lemma wf_step_lag:
  fixes w :: "'d::{zero,ord,plus} WF"
  assumes "tallied m" "wf_step lib ev w s = Some (w', s', rs)"
  shows "lag m s \<le> lag m s' \<and> (\<not> lost_commit ev \<longrightarrow> lag m s' = lag m s)"
  using assms(2)
proof (cases rule: wf_step_attempts)
  case (create env r)
  with create_meter.attempt [OF assms(1)] show ?thesis unfolding CreateBillActivity_def by metis
next
  case (append env r inp)
  with append_meter.attempt [OF assms(1)] show ?thesis unfolding AppendLineItemActivity_def by metis
next
  case (close env r inp)
  with close_meter.attempt [OF assms(1)] show ?thesis unfolding CloseBillActivity_def by metis
qed simp

lemma sys_step_lag:
  assumes "tallied m" "sys_step lib e \<sigma> = Some \<sigma>'"
  shows "lag m (sys_store \<sigma>) \<le> lag m (sys_store \<sigma>') \<and>
    (\<not> loses e \<longrightarrow> lag m (sys_store \<sigma>') = lag m (sys_store \<sigma>))"
  using assms(2)
proof (cases rule: sys_step_cases)
  case (ran wid ev w w' s' rs)
  with wf_step_lag [OF assms(1) ran(3)] show ?thesis by simp
qed auto

lemma sys_run_lag:
  "tallied m \<Longrightarrow> sys_run lib es \<sigma> = Some \<sigma>' \<Longrightarrow> lag m (sys_store \<sigma>) \<le> lag m (sys_store \<sigma>') \<and>
   (list_all (\<lambda>e. \<not> loses e) es \<longrightarrow> lag m (sys_store \<sigma>') = lag m (sys_store \<sigma>))"
proof (induction es arbitrary: \<sigma>)
  case (Cons e es)
  then obtain \<sigma>1 where s: "sys_step lib e \<sigma> = Some \<sigma>1" "sys_run lib es \<sigma>1 = Some \<sigma>'"
    by (auto split: option.splits)
  from sys_step_lag [OF Cons.prems(1) s(1)] Cons.IH [OF Cons.prems(1) s(2)] show ?case by auto
qed simp

definition metered :: "'d Store \<Rightarrow> bool" where
  "metered s \<longleftrightarrow> (\<forall>m. tallied m \<longrightarrow> tally (fst s) m \<le> counter m s)"

lemma metered_lag: "metered s \<longleftrightarrow> (\<forall>m. tallied m \<longrightarrow> 0 \<le> lag m s)"
  by (simp add: metered_def lag_def)

lemma metered_step: "metered (sys_store \<sigma>) \<Longrightarrow> sys_step lib e \<sigma> = Some \<sigma>' \<Longrightarrow> metered (sys_store \<sigma>')"
  unfolding metered_lag by (meson order_trans sys_step_lag)

lemma metered_init: "sys_init \<sigma> \<Longrightarrow> metered (sys_store \<sigma>)"
  unfolding metered_def
proof (intro allI impI)
  fix m assume "sys_init \<sigma>" then show "tally (fst (sys_store \<sigma>)) m \<le> counter m (sys_store \<sigma>)"
    by (cases m) (auto simp: sys_init_def)
qed

interpretation meter: store_property lib metered for lib :: "'d::linordered_ab_group_add lib"
proof
  show "metered (sys_store \<sigma>')" if "metered (sys_store \<sigma>)" "sys_step lib e \<sigma> = Some \<sigma>'" for \<sigma> \<sigma>' :: "'d Sys" and e
    using that by (rule metered_step)
  show "metered (db, ms' @ ms)" if "metered (db, ms)" for db :: "'d DB" and ms ms'
    using that by (auto simp: metered_def counter_def intro: trans_le_add2)
qed

lemma served_metered: "served lib w \<Longrightarrow> metered (w_store w)"
  by (rule meter.holds) (simp_all add: metered_init)

end
