(* ===== verification/Growing.thy ===== *)
theory Growing
  imports Onward
begin

section \<open>Following a listing while the service goes on\<close>

text \<open>
  Between two requests of a client that follows the cursors of a listing other requests may add rows,
  open bills and close them. Every server of the sequence meets the contract of theory \<open>Pages\<close>, so
  the client reads in order and misses no row that all the states have. Items and events are never
  changed, so it misses none that was there when it began; a bill keeps its id, its owner and its
  creation time, so it keeps its place in the listing while its status and total change.
\<close>

text \<open>The databases the requests of one client meet, each an extension of the one before.\<close>

definition growing :: "('d, 't) World list \<Rightarrow> bool" where
  "growing ws \<longleftrightarrow> successively (\<lambda>a b. db_extends (world_db a) (world_db b)) ws"

lemma growing_Cons:
  "growing (v # w # ws) \<longleftrightarrow> db_extends (world_db v) (world_db w) \<and> growing (w # ws)"
  by (simp add: growing_def)

lemma growing_last: "growing ws \<Longrightarrow> w \<in> set ws \<Longrightarrow> db_extends (world_db w) (world_db (last ws))"
proof (induction ws arbitrary: w rule: induct_list012)
  case (3 u v ws)
  then have "db_extends (world_db u) (world_db v)" and last: "db_extends (world_db v) (world_db (last (v # ws)))"
    by (simp_all add: growing_Cons)
  then have "db_extends (world_db u) (world_db (last (v # ws)))" by (rule db_extends_trans)
  with 3 show ?case by (auto simp: growing_Cons)
qed simp_all

lemma growing_hd: "growing ws \<Longrightarrow> w \<in> set ws \<Longrightarrow> db_extends (world_db (hd ws)) (world_db w)"
proof (induction ws arbitrary: w rule: induct_list012)
  case (3 u v ws)
  show ?case
  proof (cases "w = u")
    case False
    with 3 have "db_extends (world_db v) (world_db w)" by (auto simp: growing_Cons)
    with 3 show ?thesis by (auto simp: growing_Cons intro: db_extends_trans)
  qed simp
qed simp_all

lemma later_growing:
  "successively (later lib) ws \<Longrightarrow> ws \<noteq> [] \<Longrightarrow> served lib (hd ws) \<Longrightarrow> growing ws \<and> (\<forall>w\<in>set ws. served lib w)"
proof (induction ws rule: induct_list012)
  case (3 u v ws)
  have l: "later lib u v" "served lib u" using "3.prems" by simp_all
  have "growing (v # ws) \<and> (\<forall>w\<in>set (v # ws). served lib w)"
    by (rule "3.IH"(2)) (use "3.prems" later_served [OF l] in simp_all)
  with l(2) later_extends [OF l] show ?case by (simp add: growing_Cons)
qed (simp_all add: growing_def)

context listing_order
begin

lemma strict_distinct:
  "sorted_wrt (\<lambda>x y. before (key x) (key y)) xs \<Longrightarrow>
   \<forall>x\<in>set xs. \<forall>y\<in>set xs. g x = g y \<longrightarrow> key x = key y \<Longrightarrow> distinct (map g xs)"
proof (induction xs)
  case (Cons x xs)
  have "g x \<noteq> g y" if y: "y \<in> set xs" for y
  proof
    assume "g x = g y"
    then have "key x = key y" using Cons.prems(2) y by (meson list.set_intros)
    moreover have "before (key x) (key y)" using Cons.prems(1) y by simp
    ultimately show False using irrefl by simp
  qed
  moreover have "distinct (map g xs)"
    by (rule Cons.IH) (use Cons.prems(1) in simp, use Cons.prems(2) in \<open>meson list.set_intros(2)\<close>)
  ultimately show ?case by auto
qed simp

lemma follow_worlds:
  assumes "\<And>w. w \<in> set ws \<Longrightarrow> serves before key limit cur view ok (page w) (listed w)"
    and "0 < limit" "\<And>r. cur r \<noteq> ''''"
    and "\<And>w. w \<in> set ws \<Longrightarrow> sorted_wrt (\<lambda>x y. before (key x) (key y)) (listed w)"
    and "\<And>w r. w \<in> set ws \<Longrightarrow> r \<in> set (listed w) \<Longrightarrow> ok r \<and> key r \<in> key ` set all"
    and "length all < length ws"
  shows "\<exists>read. follow_moving (map page ws) '''' = Inr (map view read) \<and> reads before key (map listed ws) None read"
proof -
  have "\<exists>read. follow_moving (map page ws) (case None of None \<Rightarrow> '''' | Some r \<Rightarrow> cur r) = Inr (map view read) \<and>
    reads before key (map listed ws) (map_option key None) read"
    by (rule follow_from [where K = "key ` set all" and ok = ok and limit = limit])
      (use assms card_image_le [of "set all" key] card_length [of all] in
        \<open>auto simp: list_all2_conv_all_nth\<close>)
  then show ?thesis by simp
qed

end

subsection \<open>Line items and events\<close>

text \<open>Rows that are only appended, under distinct keys.\<close>

lemma follow_appended:
  fixes ws :: "('d, 't) World list"
  assumes serve: "\<And>w. w \<in> set ws \<Longrightarrow> serves (<) key limit cur view ok (page w) (sort_key key (rows (world_db w)))"
    and limit: "0 < limit" and cur: "\<And>r. cur r \<noteq> ''''"
    and grow: "growing ws" and last: "distinct (map key (rows (world_db (last ws))))"
    and ext: "\<And>a b. db_extends a b \<Longrightarrow> \<exists>rs. rows b = rows a @ (rs :: 'r list)"
    and ok: "\<And>r. r \<in> set (rows (world_db (last ws))) \<Longrightarrow> ok r"
    and enough: "length (rows (world_db (last ws))) < length ws"
  shows "\<exists>read. follow_moving (map page ws) '''' = Inr (map view read) \<and>
    sorted_wrt (\<lambda>x y. key x < (key y :: keypos)) read \<and>
    set (rows (world_db (hd ws))) \<subseteq> set read \<and> set read \<subseteq> set (rows (world_db (last ws)))"
proof -
  let ?rows = "\<lambda>w. rows (world_db w)"
  have upto: "\<exists>rs. ?rows (last ws) = ?rows w @ rs" if "w \<in> set ws" for w using ext [OF growing_last [OF grow that]] .
  then have sub: "set (?rows w) \<subseteq> set (?rows (last ws))" if "w \<in> set ws" for w using that by fastforce
  have "\<exists>read. follow_moving (map page ws) '''' = Inr (map view read) \<and>
    reads (<) key (map (\<lambda>w. sort_key key (?rows w)) ws) None read"
  proof (rule oldest_first.follow_worlds [OF serve limit cur])
    show "sorted_wrt (\<lambda>x y. key x < key y) (sort_key key (?rows w))" if "w \<in> set ws" for w
      using upto [OF that] last by (intro sort_key_strict(1)) auto
    show "ok r \<and> key r \<in> key ` set (?rows (last ws))" if "w \<in> set ws" "r \<in> set (sort_key key (?rows w))" for w r
      using sub [OF that(1)] that(2) ok by auto
  qed (use enough in simp_all)
  then obtain read where read: "follow_moving (map page ws) '''' = Inr (map view read)"
    "reads (<) key (map (\<lambda>w. sort_key key (?rows w)) ws) None read" by blast
  then have stored: "set read \<subseteq> set (?rows (last ws))" using sub by (fastforce simp: reads_def)
  have "r \<in> set read" if r: "r \<in> set (?rows (hd ws))" for r
  proof -
    have all: "r \<in> set (?rows w)" if "w \<in> set ws" for w using ext [OF growing_hd [OF grow that]] r by fastforce
    have "key r \<in> key ` set read" using read(2) all by (simp add: reads_def)
    then obtain r' where r': "r' \<in> set read" "key r' = key r" by auto
    have "r \<in> set (?rows (last ws))" using all enough by (cases ws) auto
    with r' stored last have "r' = r" by (meson inj_onD distinct_map subsetD)
    with r'(1) show ?thesis by simp
  qed
  with read stored show ?thesis by (auto simp: reads_def)
qed

lemma extends_items: "db_extends a b \<Longrightarrow> \<exists>is. items_of u b = items_of u a @ is"
  by (auto simp: db_extends_def items_of_def)

lemma extends_events: "db_extends a b \<Longrightarrow> \<exists>es. events_of u b = events_of u a @ es"
  by (auto simp: db_extends_def events_of_def)

lemma items_growing:
  assumes grow: "growing ws" and ok: "db_ok (world_db (last ws))"
    and own: "\<And>w. w \<in> set ws \<Longrightarrow> assertOwnsBill lib tc rd data i w = None" and rd: "rd_page rd = None"
    and u: "pg_uuid lib i = Some u" and lim: "pageLimit (Some n) = Inr limit"
    and rows: "\<And>r. r \<in> set (items_of u (world_db (last ws))) \<Longrightarrow> addressable lib (lr_created_at r) (lr_id r)"
    and enough: "length (items_of u (world_db (last ws))) < length ws"
  shows "\<exists>read. follow_moving (map (items_page lib tc rd slow data i n) ws) '''' =
      Inr (map (toLineItemView lib \<circ> scan_item) read) \<and>
    sorted_wrt (\<lambda>x y. item_key x < item_key y) read \<and>
    set (items_of u (world_db (hd ws))) \<subseteq> set read \<and> set read \<subseteq> set (items_of u (world_db (last ws)))"
  by (rule follow_appended [where rows = "items_of u", OF items_serve [OF own rd u lim] _ _ grow _ extends_items rows enough])
    (use pageLimit_Inr [OF lim] item_keys_distinct [OF ids_distinct(1) [OF ok]] in simp_all)

lemma events_growing:
  assumes grow: "growing ws" and ok: "db_ok (world_db (last ws))"
    and own: "\<And>w. w \<in> set ws \<Longrightarrow> assertOwnsBill lib tc rd data i w = None" and rd: "rd_page rd = None"
    and u: "pg_uuid lib i = Some u" and lim: "pageLimit (Some n) = Inr limit"
    and rows: "\<And>r. r \<in> set (events_of u (world_db (last ws))) \<Longrightarrow> addressable lib (er_created_at r) (er_id r)"
    and enough: "length (events_of u (world_db (last ws))) < length ws"
  shows "\<exists>read. follow_moving (map (events_page lib tc rd slow data i n) ws) '''' = Inr (map scan_event read) \<and>
    sorted_wrt (\<lambda>x y. event_key x < event_key y) read \<and>
    set (events_of u (world_db (hd ws))) \<subseteq> set read \<and> set read \<subseteq> set (events_of u (world_db (last ws)))"
  by (rule follow_appended [where rows = "events_of u", OF events_serve [OF own rd u lim] _ _ grow _ extends_events rows enough])
    (use pageLimit_Inr [OF lim] event_keys_distinct [OF ids_distinct(2) [OF ok]] in simp_all)

subsection \<open>Bills\<close>

lemma bills_of_iff:
  "db_ok db \<Longrightarrow> r \<in> set (bills_of account status db) \<longleftrightarrow>
     find_bill (br_id r) db = Some r \<and> br_account_id r = account \<and>
     (status = '''' \<or> status_string (br_status r) = status)"
  unfolding bills_of_def db_ok_def
  by (auto simp: find_bill_def find_key_distinct dest: find_key_Some)

text \<open>A bill keeps its place.\<close>

lemma bill_moves:
  assumes "db_ok a" "db_ok b" "db_extends a b" "r \<in> set (bills_of account status a)"
  obtains r' where "r' \<in> set (bills_of account '''' b)" "br_id r' = br_id r" "bill_key r' = bill_key r"
    "br_created_at r' = br_created_at r" "br_status r = BillStatusClosed \<Longrightarrow> br_status r' = BillStatusClosed"
proof -
  have "find_bill (br_id r) a = Some r" "br_account_id r = account" using assms(1,4) by (simp_all add: bills_of_iff)
  with assms(3) obtain r' where r': "find_bill (br_id r) b = Some r'" "br_account_id r' = account"
    "br_created_at r' = br_created_at r" "br_status r = BillStatusClosed \<Longrightarrow> br_status r' = BillStatusClosed"
    by (auto simp: db_extends_def)
  then have "br_id r' = br_id r" by (auto simp: find_bill_def find_Some_iff)
  with r' assms(2) that [of r'] show thesis by (simp add: bills_of_iff bill_key_def)
qed

text \<open>A bill that a filter lets through at first and at last, it lets through in between.\<close>

lemma bill_stays_listed:
  assumes ok: "db_ok a" "db_ok b" "db_ok c" and ext: "db_extends a b" "db_extends b c"
    and st: "status \<in> {'''', ''OPEN'', ''CLOSED''}"
    and r: "ra \<in> set (bills_of account status a)" "rc \<in> set (bills_of account status c)" "br_id rc = br_id ra"
  shows "\<exists>rb\<in>set (bills_of account status b). br_id rb = br_id ra \<and> bill_key rb = bill_key ra"
proof -
  obtain rb where rb: "rb \<in> set (bills_of account '''' b)" "br_id rb = br_id ra" "bill_key rb = bill_key ra"
    "br_status ra = BillStatusClosed \<Longrightarrow> br_status rb = BillStatusClosed"
    using bill_moves [OF ok(1,2) ext(1) r(1)] by metis
  obtain rc' where rc': "rc' \<in> set (bills_of account '''' c)" "br_id rc' = br_id rb"
    "br_status rb = BillStatusClosed \<Longrightarrow> br_status rc' = BillStatusClosed"
    using bill_moves [OF ok(2,3) ext(2) rb(1)] by metis
  then have "rc' = rc" using r rb(2) ok(3) by (simp add: bills_of_iff)
  with rc'(3) rb(4) r st have "status = '''' \<or> status_string (br_status rb) = status"
    by (cases "br_status ra"; cases "br_status rb"; cases "br_status rc") (auto simp: bills_of_def)
  with rb ok(2) show ?thesis by (auto simp: bills_of_iff)
qed

text \<open>Where the rows of a growing service end up, and why their ids are distinct.\<close>

lemma bill_at_last:
  assumes "growing ws" "\<And>w. w \<in> set ws \<Longrightarrow> db_ok (world_db w)" "w \<in> set ws"
    and "r \<in> set (bills_of account status (world_db w))"
  shows "\<exists>r'\<in>set (bills_of account '''' (world_db (last ws))).
    br_id r' = br_id r \<and> bill_key r' = bill_key r \<and> br_created_at r' = br_created_at r"
proof -
  have "last ws \<in> set ws" using assms(3) by (cases ws rule: rev_cases) auto
  from bill_moves [OF assms(2) [OF assms(3)] assms(2) [OF this] growing_last [OF assms(1,3)] assms(4)]
  show ?thesis by metis
qed

lemma listed_ids_distinct:
  assumes "growing ws" and ok: "\<And>w. w \<in> set ws \<Longrightarrow> db_ok (world_db w)" and last: "last ws \<in> set ws"
    and "\<forall>r\<in>set read. \<exists>w\<in>set ws. r \<in> set (bills_of account status (world_db w))"
    and strict: "sorted_wrt (\<lambda>x y. bill_key x > bill_key y) read"
  shows "distinct (map br_id read)"
proof -
  have "\<forall>r\<in>set read. \<forall>r'\<in>set read. br_id r = br_id r' \<longrightarrow> bill_key r = bill_key r'"
  proof (intro ballI impI)
    fix r r' assume r: "r \<in> set read" "r' \<in> set read" "br_id r = br_id r'"
    then obtain q q' where "q \<in> set (bills_of account '''' (world_db (last ws)))"
      "q' \<in> set (bills_of account '''' (world_db (last ws)))" "br_id q = br_id q'"
      "bill_key q = bill_key r" "bill_key q' = bill_key r'"
      using bill_at_last [OF assms(1) ok] assms(4) by metis
    with ids_distinct(3) [OF ok [OF last], of account "''''"] show "bill_key r = bill_key r'"
      by (metis distinct_map inj_onD)
  qed
  with strict show ?thesis by (rule newest_first.strict_distinct)
qed

lemma bills_growing:
  fixes ws :: "('d::{zero,ord}, 't) World list"
  assumes grow: "growing ws" and ok: "\<And>w. w \<in> set ws \<Longrightarrow> db_ok (world_db w)"
    and rd: "rd_page rd = None" and st: "status \<in> {'''', ''OPEN'', ''CLOSED''}"
    and lim: "pageLimit (Some n) = Inr limit" and account: "account = callerAccountID data"
    and rows: "\<And>r. r \<in> set (bills_of account '''' (world_db (last ws))) \<Longrightarrow>
      addressable lib (br_created_at r) (br_id r)"
    and enough: "length (bills_of account '''' (world_db (last ws))) < length ws"
  shows "\<exists>read. follow_moving (map (bills_page lib rd slow data status n) ws) '''' =
      Inr (map (toBillView lib \<circ> scanBillRow) read) \<and>
    sorted_wrt (\<lambda>x y. bill_key x > bill_key y) read \<and> distinct (map br_id read) \<and>
    (\<forall>r\<in>set read. \<exists>w\<in>set ws. r \<in> set (bills_of account status (world_db w))) \<and>
    br_id ` set (bills_of account status (world_db (hd ws))) \<inter>
      br_id ` set (bills_of account status (world_db (last ws))) \<subseteq> br_id ` set read"
proof -
  let ?rows = "\<lambda>w. bills_of account status (world_db w)" and ?all = "bills_of account '''' (world_db (last ws))"
  have mem: "hd ws \<in> set ws" "last ws \<in> set ws" using enough by (cases ws; force)+
  have "\<exists>read. follow_moving (map (bills_page lib rd slow data status n) ws) '''' =
      Inr (map (toBillView lib \<circ> scanBillRow) read) \<and>
    reads (>) bill_key (map (\<lambda>w. rev (sort_key bill_key (?rows w))) ws) None read"
  proof (rule newest_first.follow_worlds
      [where listed = "\<lambda>w. rev (sort_key bill_key (?rows w))", OF bills_serve [OF rd st lim, where data = data, folded account]])
    show "sorted_wrt (\<lambda>x y. bill_key x > bill_key y) (rev (sort_key bill_key (?rows w)))" if "w \<in> set ws" for w
      using sort_key_strict(2) [OF bill_keys_distinct [OF ids_distinct(3) [OF ok [OF that]]]] .
    show "addressable lib (br_created_at r) (br_id r) \<and> bill_key r \<in> bill_key ` set ?all"
      if "w \<in> set ws" "r \<in> set (rev (sort_key bill_key (?rows w)))" for w r
      using bill_at_last [OF grow ok that(1), of r] that(2) rows by (auto simp: image_iff) metis+
  qed (use enough pageLimit_Inr [OF lim] in simp_all)
  then obtain read where read: "follow_moving (map (bills_page lib rd slow data status n) ws) '''' =
      Inr (map (toBillView lib \<circ> scanBillRow) read)"
    "reads (>) bill_key (map (\<lambda>w. rev (sort_key bill_key (?rows w))) ws) None read" by blast
  have from_ws: "\<forall>r\<in>set read. \<exists>w\<in>set ws. r \<in> set (?rows w)" using read(2) by (auto simp: reads_def)
  have strict: "sorted_wrt (\<lambda>x y. bill_key x > bill_key y) read" using read(2) by (simp add: reads_def)
  have ids: "distinct (map br_id read)" by (rule listed_ids_distinct [OF grow ok mem(2) from_ws strict])
  have "u \<in> br_id ` set read"
    if "u \<in> br_id ` set (?rows (hd ws)) \<inter> br_id ` set (?rows (last ws))" for u
  proof -
    from that obtain ra rc where r: "ra \<in> set (?rows (hd ws))" "rc \<in> set (?rows (last ws))" "br_id rc = br_id ra"
      "u = br_id ra" by auto
    have "bill_key ra \<in> bill_key ` set (?rows w)" if w: "w \<in> set ws" for w
    proof -
      from bill_stays_listed [OF ok [OF mem(1)] ok [OF w] ok [OF mem(2)] growing_hd [OF grow w]
        growing_last [OF grow w] st r(1-3)]
      obtain rb where "rb \<in> set (?rows w)" "bill_key ra = bill_key rb" by auto
      then show ?thesis by simp
    qed
    then have "bill_key ra \<in> bill_key ` set read" using read(2) by (simp add: reads_def)
    with r(4) show ?thesis by (auto simp: bill_key_def)
  qed
  with read(1) strict ids from_ws show ?thesis by blast
qed

text \<open>At rest, with the exact listing.\<close>

lemma bills_listed_once:
  fixes w :: "('d::linordered_ab_group_add, 'd Sys) World"
  assumes "served lib w" and "rd_page rd = None" and "status \<in> {'''', ''OPEN'', ''CLOSED''}" and "0 \<le> n"
    and "\<And>r. r \<in> set (bills_of (callerAccountID data) status (world_db w)) \<Longrightarrow>
      addressable lib (br_created_at r) (br_id r)"
    and "length (bills_of (callerAccountID data) status (world_db w)) < requests"
  shows "follow requests (bills_page lib rd slow data status n w) '''' =
    Inr (map (toBillView lib \<circ> scanBillRow)
      (rev (sort_key bill_key (bills_of (callerAccountID data) status (world_db w)))))"
proof -
  obtain limit where limit: "pageLimit (Some n) = Inr limit" "0 < nat limit" using pageLimit_valid [OF assms(4)] by blast
  from sort_key_strict(2) [OF bill_keys_distinct [OF ids_distinct(3) [OF served_db_ok [OF assms(1)]]]] show ?thesis
    by (intro newest_first.follow_all [OF bills_serve [OF assms(2,3) limit(1)]]) (use limit(2) assms(5,6) in simp_all)
qed

end
