(* ===== verification/Scenarios.thy ===== *)
theory Scenarios
  imports Partings Startup Book Metrics Growing
begin

section \<open>Requests on example worlds\<close>

text \<open>
  The worlds, callers and requests the examples of the endpoints use: the bills of theory
  \<open>Samples\<close> seen through the endpoints. \<open>desk_lib\<close> reads the two amounts the requests ask for,
  on the declared columns.
\<close>

declare sys_step.simps [simp del] wf_step.simps [simp del] run_events.simps [simp del]

definition all_read :: reads where
  "all_read = \<lparr>rd_row = None, rd_closed = None, rd_items = None, rd_page = None\<rparr>"

definition caller :: "string \<Rightarrow> ClientStatus \<Rightarrow> AuthData option" where
  "caller acct st = Some \<lparr>ad_AccountID = acct, ad_Status = st, ad_Name = ''Demo''\<rparr>"

definition go_wire :: "go_error \<Rightarrow> go_error" where
  "go_wire e = (case e of ErrorString m \<Rightarrow> ApplicationError ''errorString'' m | _ \<Rightarrow> e)"

definition desk_lib :: "rat lib" where
  "desk_lib = with_columns (plain_lib\<lparr>wire_error := go_wire,
     uuid_NewSHA1 := (\<lambda>s. if s = ''acct-alpha:k1'' then bill_uuid else item_uuid),
     dec_NewFromString := (\<lambda>s. if s = ''15.99'' then Some (1599 / 100) else if s = ''0'' then Some 0 else None)\<rparr>)"

lemma desk_carries: "carries_errors desk_lib"
  by (auto simp: carries_errors_def desk_lib_def with_columns_def go_wire_def billNotFoundErrType_def
      currencyMismatchErrType_def)

definition seed_registry :: registry where
  "seed_registry = scan_currencies seed_currencies []"

text \<open>What happens while a call waits: the update's activity, or the close of the bill.\<close>

definition no_events :: "string \<Rightarrow> 'd Sys \<Rightarrow> 'd SysEvent list" where
  "no_events wid \<sigma> = []"

definition post_events :: "string \<Rightarrow> 'd Sys \<Rightarrow> 'd SysEvent list" where
  "post_events wid \<sigma> = map (RunEvent wid) [AppendAttempt 0 (good_env ''e2'') True, AppendReturns 0]"

definition settle_events :: "string \<Rightarrow> 'd Sys \<Rightarrow> 'd SysEvent list" where
  "settle_events wid \<sigma> = map (RunEvent wid)
     [SelectorStart (at_time 9), SelectorSignal, AwaitReturns, DrainReturns (at_time 9) [],
      CloseAttempt (good_env ''e3'') True, CloseReturns]"

definition desk_opened :: "rat Sys" where
  "desk_opened = the (sys_run desk_lib (open_events bill_uuid ''acct-alpha'' ''e1'') sample_sys)"

definition opened_world :: "(rat, rat Sys) World" where
  "opened_world = put_sys desk_opened"

definition billed_world :: "(rat, rat Sys) World" where
  "billed_world = put_sys billed_sys"

definition plain_sys :: "rat Sys" where
  "plain_sys = the (sys_run plain_lib billed_events sample_sys)"

definition plain_world :: "(rat, rat Sys) World" where
  "plain_world = put_sys plain_sys"

lemma opened_served: "served desk_lib opened_world"
proof -
  have "sys_run desk_lib (open_events bill_uuid ''acct-alpha'' ''e1'') sample_sys \<noteq> None" by code_simp
  then have "sys_run desk_lib (open_events bill_uuid ''acct-alpha'' ''e1'') sample_sys = Some desk_opened"
    by (simp add: desk_opened_def)
  from served_reachable [OF sample_reachable [OF this]] show ?thesis by (simp add: opened_world_def)
qed

lemma billed_served: "served column_lib billed_world"
  unfolding billed_world_def by (rule served_reachable [OF billed_reachable])

lemma plain_run: "sys_run plain_lib billed_events sample_sys = Some plain_sys"
proof -
  have "sys_run plain_lib billed_events sample_sys \<noteq> None" by code_simp
  then show ?thesis by (simp add: plain_sys_def)
qed

lemma plain_served: "served plain_lib plain_world"
  using served_reachable [OF sample_reachable [OF plain_run]] by (simp add: plain_world_def)

definition fee_request :: "string \<Rightarrow> string \<Rightarrow> AddLineItemRequest" where
  "fee_request amount cur = \<lparr>aq_IdempotencyKey = item_uuid, aq_Description = ''fee'', aq_Amount = amount,
     aq_Currency = cur\<rparr>"

lemma fee_valid: "valid_item_request desk_lib seed_registry (fee_request ''15.99'' ''USD'') (1599 / 100)"
  "valid_item_request desk_lib seed_registry (fee_request ''15.99'' ''EUR'') (1599 / 100)"
  by code_simp+

lemma item_columns:
  "pg_uuid desk_lib item_uuid = Some item_uuid" "aq_IdempotencyKey (fee_request amount cur) = item_uuid"
  "item_uuid \<noteq> ''''"
proof -
  show "pg_uuid desk_lib item_uuid = Some item_uuid" by code_simp
  show "aq_IdempotencyKey (fee_request amount cur) = item_uuid" "item_uuid \<noteq> ''''"
    by (simp_all add: fee_request_def item_uuid_def)
qed

text \<open>A bill is opened, an item added, the bill closed; the item is sent again in between.\<close>

definition added :: "(go_error + AddLineItemResponse) \<times> (rat, rat Sys) World" where
  "added = RequireActiveCaller (caller ''acct-alpha'' ClientStatusActive)
     (AddLineItem desk_lib (sys_client desk_lib (at_time 1) post_events False) seed_registry
        (caller ''acct-alpha'' ClientStatusActive) ''f1'' bill_uuid (fee_request ''15.99'' ''USD''))
     opened_world"

lemma added_ok: "\<not> isl (fst added)"
  by code_simp

definition signalled_world :: "(rat, rat Sys) World" where
  "signalled_world = snd (sys_SignalWorkflow desk_lib (workflowID bill_uuid) opened_world)"

definition settled_world :: "(rat, rat Sys) World" where
  "settled_world = snd (sys_GetWorkflow desk_lib settle_events (workflowID bill_uuid) signalled_world)"

definition closing_client :: "(rat, rat Sys) temporal" where
  "closing_client = sys_client desk_lib (at_time 1) settle_events False"

lemma closed_ok:
  "\<exists>resp. RequireActiveCaller (caller ''acct-alpha'' ClientStatusActive)
     (CloseBill desk_lib closing_client all_read (caller ''acct-alpha'' ClientStatusActive) bill_uuid)
     opened_world = (Inr resp, settled_world)"
proof -
  have own: "assertOwnsBill desk_lib closing_client all_read (caller ''acct-alpha'' ClientStatusActive) bill_uuid
      opened_world = None" by code_simp
  have sig: "\<not> isl (fst (sys_SignalWorkflow desk_lib (workflowID bill_uuid) opened_world))" by code_simp
  have get: "\<not> isl (fst (sys_GetWorkflow desk_lib settle_events (workflowID bill_uuid) signalled_world))" by code_simp
  have row: "\<not> isl (closeBillFromDB desk_lib all_read bill_uuid settled_world)" by code_simp
  have "CloseBill desk_lib closing_client all_read (caller ''acct-alpha'' ClientStatusActive) bill_uuid opened_world =
      (closeBillFromDB desk_lib all_read bill_uuid settled_world, settled_world)"
    using sig get by (intro CloseBill_waits [OF own])
      (simp_all add: closing_client_def sys_client_def signalled_world_def settled_world_def)
  with row show ?thesis
    by (cases "closeBillFromDB desk_lib all_read bill_uuid settled_world")
      (simp_all add: RequireActiveCaller_def assertActiveCaller_def caller_def)
qed

lemma opened_is_open: "open_run (run_of (sys_of opened_world) (workflowID bill_uuid))"
  by code_simp

lemma billed_closed: "\<not> open_run (run_of (sys_of billed_world) (workflowID bill_uuid))"
  by code_simp

text \<open>The bill as its owner and as another account see it, once its history is gone.\<close>

definition gone_client :: "(rat, rat Sys) temporal" where
  "gone_client = sys_client column_lib (at_time 20) no_events False"

lemma billed_hidden:
  "not_the_callers column_lib gone_client all_read (caller ''acct-beta'' ClientStatusActive) bill_uuid billed_world"
  by code_simp

lemma billed_owned:
  "assertOwnsBill column_lib gone_client all_read (caller ''acct-alpha'' ClientStatusActive) bill_uuid billed_world = None"
  by code_simp

lemma billed_row:
  "case find_bill bill_uuid (world_db billed_world) of
     None \<Rightarrow> False
   | Some r \<Rightarrow> pg_uuid column_lib bill_uuid = Some bill_uuid \<and>
       br_account_id r = callerAccountID (caller ''acct-alpha'' ClientStatusActive)"
  by code_simp

lemma billed_listed:
  "case ListBills column_lib all_read (\<lambda>_. None) (caller ''acct-alpha'' ClientStatusActive) None billed_world of
     Inl e \<Rightarrow> False | Inr resp \<Rightarrow> bp_Bills resp \<noteq> []"
  by code_simp

lemma billed_gone: "tc_QueryWorkflow gone_client (workflowID bill_uuid) billed_world = Inl ServiceNotFound"
proof -
  have "case tc_QueryWorkflow gone_client (workflowID bill_uuid) billed_world of
      Inl ServiceNotFound \<Rightarrow> True | _ \<Rightarrow> False" by code_simp
  then show ?thesis by (simp split: sum.splits go_error.splits)
qed

lemma billed_items: "length (items_of bill_uuid (world_db billed_world)) = 2"
  by code_simp

lemma billed_items_addressable:
  "\<forall>r\<in>set (items_of bill_uuid (world_db billed_world)). addressable column_lib (lr_created_at r) (lr_id r)"
  by code_simp

lemma billed_bills_addressable:
  "\<forall>r\<in>set (bills (world_db billed_world)). addressable column_lib (br_created_at r) (br_id r)"
  by code_simp

lemma billed_bills: "length (bills_of ''acct-alpha'' ''CLOSED'' (world_db billed_world)) = 1"
  by code_simp

lemma all_bills: "length (bills_of ''acct-alpha'' '''' (world_db billed_world)) = 1"
  "bill_uuid \<in> br_id ` set (bills_of ''acct-alpha'' '''' (world_db billed_world))"
  by code_simp+

lemma plain_items: "length (items_of bill_uuid (world_db plain_world)) = 2"
  by code_simp

lemma plain_items_addressable:
  "\<forall>r\<in>set (items_of bill_uuid (world_db plain_world)). addressable plain_lib (lr_created_at r) (lr_id r)"
  by code_simp

lemma plain_events_addressable:
  "\<forall>r\<in>set (events_of bill_uuid (world_db plain_world)). addressable plain_lib (er_created_at r) (er_id r)"
  by code_simp

lemma plain_events: "length (events_of bill_uuid (world_db plain_world)) = 4"
  by code_simp

definition plain_client :: "(rat, rat Sys) temporal" where
  "plain_client = sys_client plain_lib (at_time 20) no_events False"

lemma plain_owned:
  "assertOwnsBill plain_lib plain_client all_read (caller ''acct-alpha'' ClientStatusActive) bill_uuid plain_world = None"
  by code_simp

text \<open>CreateBill again with the key of an open bill in US dollars, for euros.\<close>

definition euro_request :: CreateBillRequest where
  "euro_request = \<lparr>cq_Currency = ''EUR'', cq_PeriodStart = None, cq_PeriodEnd = None, cq_IdempotencyKey = ''k1''\<rparr>"

lemma euro_again:
  "valid_bill_request seed_registry euro_request"
  "newBillID desk_lib ''f1'' (callerAccountID (caller ''acct-alpha'' ClientStatusActive)) ''k1'' = bill_uuid"
  "case run_of (sys_of opened_world) (workflowID bill_uuid) of
     None \<Rightarrow> False | Some ru \<Rightarrow> open_run (Some ru) \<and> bill_Currency (wf_bill ru) = ''USD''"
  by code_simp+

lemma euro_echoed:
  "\<exists>ru resp. run_of (sys_of opened_world) (workflowID bill_uuid) = Some ru \<and> bill_Currency (wf_bill ru) = ''USD'' \<and>
     CreateBill desk_lib (sys_client desk_lib (at_time 1) no_events False) all_read seed_registry
       (caller ''acct-alpha'' ClientStatusActive) ''f1'' euro_request opened_world = (Inr resp, opened_world) \<and>
     cp_BillID resp = bill_uuid \<and> cp_Currency resp = ''EUR''"
proof -
  obtain ru where ru: "run_of (sys_of opened_world) (workflowID bill_uuid) = Some ru" "open_run (Some ru)"
    "bill_Currency (wf_bill ru) = ''USD''"
    using euro_again(3) by (auto split: option.splits)
  have key: "newBillID desk_lib ''f1'' (callerAccountID (caller ''acct-alpha'' ClientStatusActive))
      (cq_IdempotencyKey euro_request) = bill_uuid"
    using euro_again(2) by (simp add: euro_request_def)
  have "open_run (run_of (sys_of opened_world) (workflowID bill_uuid))" using ru by simp
  with CreateBill_again [OF euro_again(1), where w = opened_world] key ru show ?thesis
    by (simp add: euro_request_def)
qed

text \<open>CreateBill again with the key of a bill that is closed.\<close>

definition settled_bill :: "(rat, rat Sys) World" where
  "settled_bill = put_sys (the (sys_run desk_lib billed_events sample_sys))"

definition again_request :: CreateBillRequest where
  "again_request = \<lparr>cq_Currency = ''USD'', cq_PeriodStart = None, cq_PeriodEnd = None, cq_IdempotencyKey = ''k1''\<rparr>"

lemma settled_again:
  "valid_bill_request seed_registry again_request"
  "\<not> open_run (run_of (sys_of settled_bill) (workflowID bill_uuid))"
  by code_simp+

lemma settled_row:
  "case find_bill bill_uuid (world_db settled_bill) of
     None \<Rightarrow> False | Some r \<Rightarrow> br_status r = BillStatusClosed \<and> 0 < br_total_amount r"
  by code_simp

lemma settled_items: "length (items_of bill_uuid (world_db settled_bill)) = 2"
  by code_simp

text \<open>An item of another currency than the bill's.\<close>

lemma euro_item:
  "case run_of (sys_of opened_world) (workflowID bill_uuid) of
     None \<Rightarrow> False
   | Some ru \<Rightarrow> serving (wf_phase ru) \<and>
       (let inp = itemInput item_uuid (1599 / 100) (caller ''acct-alpha'' ClientStatusActive) (fee_request ''15.99'' ''EUR'')
        in validateAddLineItem (wf_bill ru) inp \<noteq> None \<and> in_CallerAccountID inp = bill_AccountID (wf_bill ru) \<and>
          in_Currency inp \<noteq> bill_Currency (wf_bill ru))"
  by code_simp

text \<open>The bill after its first item, which is sent again.\<close>

definition added_sys :: "rat Sys" where
  "added_sys = the (sys_run desk_lib (open_events bill_uuid ''acct-alpha'' ''e1'' @
     add_run bill_uuid (item_input ''acct-alpha'' item_uuid (1599 / 100)) ''e2'') sample_sys)"

lemma item_again:
  "case run_of (sys_of (put_sys added_sys)) (workflowID bill_uuid) of
     None \<Rightarrow> False
   | Some ru \<Rightarrow> serving (wf_phase ru) \<and> item_uuid \<in> wf_seen ru \<and> bill_ItemCount (wf_bill ru) = 1 \<and>
       validateAddLineItem (wf_bill ru)
         (itemInput item_uuid (1599 / 100) (caller ''acct-alpha'' ClientStatusActive) (fee_request ''15.99'' ''USD'')) = None"
  by code_simp

text \<open>An active client, looked up for the first time.\<close>

lemma alpha_authenticated:
  "\<exists>d c'. AuthHandler clientCache (\<lambda>c. c) 0 None ''acct-alpha'' (seed_db :: rat DB) [] =
     (Returns (Inr (''acct-alpha'', d)), c') \<and> ad_Status d = ClientStatusActive"
proof -
  have "TrimSpace ''acct-alpha'' = ''acct-alpha''" by code_simp
  then show ?thesis
    by (simp add: AuthHandler_def lookupClient_def clientLoad_def loadClientFromDB_def find_client_def seed_db_def
        seed_clients_def clientCache_def lru_def lru_Get_def Let_def)
qed

lemma unknown_header:
  "TrimSpace '' ghost '' \<noteq> ''''" "find_client (TrimSpace '' ghost '') (seed_db :: rat DB) = None"
  by code_simp+

text \<open>The bill after its first item, from which the billed world grows.\<close>

definition adding_world :: "(rat, rat Sys) World" where
  "adding_world = put_sys adding_sys"

lemma adding_bills: "bill_uuid \<in> br_id ` set (bills_of ''acct-alpha'' '''' (world_db adding_world))"
  by code_simp

lemma sys_run_append:
  "sys_run lib (xs @ ys) \<sigma> = (case sys_run lib xs \<sigma> of None \<Rightarrow> None | Some \<sigma>' \<Rightarrow> sys_run lib ys \<sigma>')"
  by (induction xs arbitrary: \<sigma>) (auto split: option.splits)

lemma adding_served: "served column_lib adding_world"
  unfolding adding_world_def by (rule served_reachable [OF adding_reachable])

lemma adding_later: "later column_lib adding_world billed_world"
proof -
  have "sys_run column_lib (take 9 billed_events @ drop 9 billed_events) sample_sys = Some billed_sys"
    using billed_run by simp
  then have "sys_run column_lib (drop 9 billed_events) adding_sys = Some billed_sys"
    unfolding sys_run_append adding_run by simp
  from later_run [OF this later_refl] show ?thesis by (simp add: adding_world_def billed_world_def)
qed

text \<open>The same, where every string is a UUID, so that the events can be addressed.\<close>

definition plain_adding_sys :: "rat Sys" where
  "plain_adding_sys = the (sys_run plain_lib (take 9 billed_events) sample_sys)"

definition plain_adding :: "(rat, rat Sys) World" where
  "plain_adding = put_sys plain_adding_sys"

lemma plain_adding_run: "sys_run plain_lib (take 9 billed_events) sample_sys = Some plain_adding_sys"
proof -
  have "sys_run plain_lib (take 9 billed_events) sample_sys \<noteq> None" by code_simp
  then show ?thesis by (simp add: plain_adding_sys_def)
qed

lemma plain_adding_served: "served plain_lib plain_adding"
  using served_reachable [OF sample_reachable [OF plain_adding_run]] by (simp add: plain_adding_def)

lemma plain_adding_owned:
  "assertOwnsBill plain_lib plain_client all_read (caller ''acct-alpha'' ClientStatusActive) bill_uuid plain_adding = None"
  by code_simp

lemma plain_adding_later: "later plain_lib plain_adding plain_world"
proof -
  have "sys_run plain_lib (take 9 billed_events @ drop 9 billed_events) sample_sys = Some plain_sys"
    using plain_run by simp
  then have "sys_run plain_lib (drop 9 billed_events) plain_adding_sys = Some plain_sys"
    unfolding sys_run_append plain_adding_run by simp
  from later_run [OF this later_refl] show ?thesis by (simp add: plain_adding_def plain_world_def)
qed

text \<open>A process that starts the service on the seeded tables.\<close>

definition idle_process :: Process where
  "idle_process = \<lparr>ps_conns = [(0, ''metrics:9090'')], ps_workers = [], ps_dial_fails = None, ps_start_fails = None\<rparr>"

definition started_process :: "(go_error + Service) \<times> Process \<times> (string, registry) lru" where
  "started_process = initService process_sdk currencyCache (\<lambda>_. '''') 0 None (seed_db :: rat DB) (idle_process, [])"

lemma started_ok: "\<not> isl (fst started_process)"
  by code_simp

text \<open>A bill whose commit is refused is counted as opened all the same.\<close>

lemma refused_commit_counted:
  "case sys_run column_lib (take 1 (open_events bill_uuid ''acct-alpha'' ''e1'') @
       [RunEvent (workflowID bill_uuid) (CreateAttempt ((good_env ''e1'')\<lparr>commit := CommitFailed\<rparr>) False)]) sample_sys of
     None \<Rightarrow> False
   | Some \<sigma> \<Rightarrow> bills (fst (sys_store \<sigma>)) = [] \<and> count_list (snd (sys_store \<sigma>)) (BillsOpened ''USD'') = 1"
  by code_simp

text \<open>The step that posts the first item.\<close>

definition before_post :: "rat Sys" where
  "before_post = the (sys_run column_lib (take 4 billed_events) sample_sys)"

definition post_event :: "rat SysEvent" where
  "post_event = billed_events ! 4"

definition after_post :: "rat Sys" where
  "after_post = the (sys_step column_lib post_event before_post)"

lemma before_post_reachable: "reachable column_lib always before_post"
proof -
  have "sys_run column_lib (take 4 billed_events) sample_sys \<noteq> None" by code_simp
  then have "sys_run column_lib (take 4 billed_events) sample_sys = Some before_post" by (simp add: before_post_def)
  then show ?thesis by (rule sample_reachable)
qed

lemma post_step: "sys_step column_lib post_event before_post = Some after_post"
proof -
  have "sys_step column_lib post_event before_post \<noteq> None" by code_simp
  then show ?thesis by (simp add: after_post_def)
qed

lemma post_changes_book:
  "map_option (length \<circ> bk_items) (book_of (fst (sys_store after_post)) bill_uuid) \<noteq>
   map_option (length \<circ> bk_items) (book_of (fst (sys_store before_post)) bill_uuid)"
  by code_simp

text \<open>The run of the billed bill has completed.\<close>

lemma billed_run_done:
  "case run_of billed_sys (workflowID bill_uuid) of
     None \<Rightarrow> False
   | Some ru \<Rightarrow> wf_handlers ru = [] \<and> (case wf_phase ru of Completed r \<Rightarrow> True | _ \<Rightarrow> False) \<and>
       bill_AccountID (wf_bill ru) = callerAccountID (caller ''acct-alpha'' ClientStatusActive)"
  by code_simp

end
