(* ===== verification/Spec2Isabelle.thy ===== *)
theory Spec2Isabelle
  imports Scenarios
begin

text \<open>
  A verification development for the bill service of this repository (Go, package \<open>bill\<close> under
  src/bill): bills as Temporal workflows, persisted in Postgres by activities, behind HTTP
  endpoints.

  \<^bold>\<open>The program.\<close> A client's request passes the auth handler (auth.go) and, if the endpoint
  mutates, the middleware (middleware.go). The endpoints (endpoints.go) start, update, signal and
  query one workflow per bill (workflow.go) and read the tables. The workflow keeps the running
  total and count and lets activities (activities.go) write the rows, each in one transaction.
  Clients and currencies are cached (clients.go, registry.go).

  \<^bold>\<open>Theories and code.\<close>
  \<^item> \<open>Prelude\<close>: times, Go errors with \<open>errors.Is\<close> and \<open>errors.As\<close>, keyset positions, rows by key.
  \<^item> \<open>Models\<close> (models.go, signals.go): structs and enums; \<open>lib\<close>, the operations of code outside
    the repository (decimal, UUID hashing, Postgres column types, Temporal's error transport).
  \<^item> \<open>Database\<close> (migrations, the SQL of activities.go): tables as lists of rows, one definition per
    write, \<open>db_ok\<close> the schema's constraints, \<open>db_extends\<close> what is never taken back.
  \<^item> \<open>Activities\<close> (activities.go): \<open>inTx\<close> and the three transactions, under an environment that
    decides which statement fails and what becomes of the commit; locale \<open>transaction\<close>.
  \<^item> \<open>Workflow\<close> (workflow.go): one run as a state machine; \<open>wf_step\<close> has one event per stretch of
    a coroutine between two blocking calls and one per attempt of an activity.
  \<^item> \<open>System\<close>: the runs of all bills over one database, \<open>reachable\<close>, and the locale
    \<open>run_invariant\<close>; \<open>RunInvariants\<close>: identity, accounts and durability of a run.
  \<^item> \<open>Ledger\<close>, \<open>Agreement\<close>: the tables' own books (locales \<open>store_invariant\<close>, \<open>ledger_lib\<close>,
    \<open>numeric_column\<close>), and that workflow and tables agree in executions within \<open>undisturbed\<close>.
  \<^item> \<open>Columns\<close>, \<open>Book\<close>: the types of the stored rows, as an interpretation of \<open>store_invariant\<close>; the
    abstract book of bills (\<open>book_step\<close>) and the simulation of it by the tables (\<open>book_of\<close>).
  \<^item> \<open>Metrics\<close> (metrics.go): the counters against the tables (locale \<open>metered_activity\<close>).
  \<^item> \<open>Samples\<close>, \<open>Divergence\<close>, \<open>Rollover\<close>, \<open>Closing\<close>: the declared columns and seed rows, example runs,
    the roll-over at the threshold, the progress of adding and closing.
  \<^item> \<open>Clients\<close>, \<open>Auth\<close> (clients.go, auth.go, middleware.go): the client cache (locales
    \<open>expiring_cache\<close>, \<open>client_lookup\<close>), the auth handler, \<open>RequireActiveCaller\<close>.
  \<^item> \<open>Registry\<close> (registry.go, admin.go): the currency registry (locale \<open>currency_registry\<close>);
    \<open>Startup\<close> (service.go): \<open>initService\<close> and Shutdown over the Temporal SDK (locale \<open>temporal_sdk\<close>).
  \<^item> \<open>Rfc3339\<close>, \<open>Cursor\<close>, \<open>Views\<close> (views.go): time formats, base64, cursors, API views.
  \<^item> \<open>Queries\<close>, \<open>Endpoints\<close> (endpoints.go): the reads and the seven endpoints; \<open>Access\<close>: ownership,
    authorization and error codes; \<open>Pages\<close>: following the cursors of a listing (locale
    \<open>listing_order\<close>, for both directions), \<open>Growing\<close>: while the service goes on.
  \<^item> \<open>Service\<close>: what the endpoints rely on from Temporal (locale \<open>temporal_service\<close>), discharged by
    \<open>sys_client\<close>, a client over \<open>System\<close>; \<open>served\<close>, the states the service passes through.
  \<^item> \<open>Onward\<close>: \<open>later\<close>, what the service does between two states, and the locale \<open>store_property\<close> of
    what it keeps.
  \<^item> \<open>Gateway\<close>: requests from end to end. \<open>Partings\<close>: the events by which workflow and tables part,
    carried out one after the other (\<open>run_trace\<close>) from any state in which they can occur.
  \<^item> \<open>Scenarios\<close>: the worlds of the examples.

  \<^bold>\<open>The properties.\<close> The tables implement an abstract book of bills. Closed and open books, audit
  log, row types, append-only history, counters and completed runs hold for reachable states (the
  agreement of workflow and tables only within \<open>undisturbed\<close>, exact counters only while no commit is
  refused). Activities are atomic and safe to retry; adding and closing make progress when nothing
  fails. The endpoints report only what is stored, hide the bills of others, refuse malformed
  requests first and give rejections their codes.
  Identity and currencies are at most five minutes and one hour old; the service starts completely or
  gives back what it took. Listings are complete under cursors that round trip, also while they grow.
  The hand-off to the next run keeps the bill, the item ids and the input.
  The last section shows where the code does not do what it means to: for every state of the kind that
  each theorem describes, the events that follow are carried out and lead to the outcome it states.

  \<^bold>\<open>Bounds.\<close> \<open>follow_moving\<close> takes one state per request, \<open>follow\<close> the number of requests: one more
  than there are rows in the end is enough, as every page that is not the last has at least one.
  \<open>trim_rounds\<close> takes the length of the string as fuel: each round removes a byte. All other
  recursions end by structure or by a measure. Counts and limits are unbounded integers: they stay far
  below 63 bits (a page is at most 501 rows; a count grows by one per stored item).

  \<^bold>\<open>Not modelled.\<close> Encore's wiring and the registration of the counters only call libraries. Logging
  has no effect on results. Request decoding and the JSON text of a payload are libraries': payloads
  are kept as the values marshalled. TEXT columns take any string here (Postgres refuses a NUL).
  Context deadlines appear as failures of the call they cut off; an attempt of an activity takes
  effect in one step, so one that outlives its timeout counts as over by then. Durations are
  unbounded, where \<open>time.Sub\<close> saturates after 292 years. Rollback on panic, workflow
  cancellation (nothing cancels one) and replay determinism, which is Temporal's, are left out. The
  database serves one transaction at a time, as the row locks of the statements make the outcomes
  serial. \<open>time.Parse\<close> on strings of another shape and \<open>%q\<close> on bytes outside ASCII are parameters.
\<close>

section \<open>The books\<close>

text \<open>C1. In every execution that stays within \<open>undisturbed\<close>, on the columns the migrations
declare: when a workflow has completed, its bill's row is CLOSED, and the row's total, the total
the workflow returned and the sum of the bill's line items are the same amount, and the number of
items it returned is the number of line items stored.\<close>

theorem closed_bill_books:
  assumes "reachable (with_columns lib) (undisturbed (with_columns lib)) \<sigma>"
    and "run_of \<sigma> wid = Some w" and "wf_phase w = Completed res"
  shows "\<exists>u r. uuid_in (br_BillID res) = Some u \<and> find_bill u (fst (sys_store \<sigma>)) = Some r \<and>
      br_status r = BillStatusClosed \<and>
      br_total_amount r = items_total u (fst (sys_store \<sigma>)) \<and>
      br_TotalAmount res = items_total u (fst (sys_store \<sigma>)) \<and>
      br_ItemCount res = int (length (items_of u (fst (sys_store \<sigma>))))"
proof -
  have "run_ok (with_columns lib) wid w (fst (sys_store \<sigma>))" using run.holds assms(1,2) by blast
  then obtain u where "pg_uuid (with_columns lib) (br_BillID res) = Some u"
    using run_completed(7) assms(3) by blast
  with columns.closed_bill_agrees [OF assms(1-3)] show ?thesis by (auto simp: with_columns_def)
qed

theorem closed_bill_books_witness:
  "\<exists>u r. uuid_in bill_uuid = Some u \<and> find_bill u (fst (sys_store billed_sys)) = Some r \<and>
      br_status r = BillStatusClosed \<and> br_total_amount r = items_total u (fst (sys_store billed_sys))"
  using billed_completed closed_bill_books [OF billed_undisturbed_reachable [unfolded column_lib_def]]
  by (fastforce split: option.splits Phase.splits)

text \<open>C2. The tables implement a book of bills. Read as a book (a map from bill ids to accounts,
currencies, posted items, totals and closings), every event of every execution, on the declared
columns, leaves it alone or is one step of the abstract machine: opening a bill, posting an item that
is nowhere in the book, or closing a bill for a reason. So every reachable book has each item id once,
positive amounts, and the sum of the items as the total of a bill that is not closed.\<close>

theorem tables_refine_book:
  assumes "reachable (with_columns lib) always \<sigma>" and "sys_step (with_columns lib) e \<sigma> = Some \<sigma>'"
  shows "(book_of (fst (sys_store \<sigma>')) = book_of (fst (sys_store \<sigma>)) \<or>
      book_step (book_of (fst (sys_store \<sigma>))) (book_of (fst (sys_store \<sigma>')))) \<and>
    book_reachable (book_of (fst (sys_store \<sigma>))) \<and> book_ok (book_of (fst (sys_store \<sigma>)))"
  using ledger_lib.book_sys_step [OF columns.ledger_lib_axioms assms]
    ledger_lib.book_holds [OF columns.ledger_lib_axioms assms(1)] book_reachable_ok
  unfolding book_moves_def by blast

theorem tables_refine_book_witness:
  "book_step (book_of (fst (sys_store before_post))) (book_of (fst (sys_store after_post)))"
proof -
  have "book_of (fst (sys_store after_post)) \<noteq> book_of (fst (sys_store before_post))"
    using post_changes_book by metis
  then show ?thesis
    using tables_refine_book [OF before_post_reachable [unfolded column_lib_def] post_step [unfolded column_lib_def]]
    by blast
qed

text \<open>C3. Whenever a caller has been told that an item was added, in any execution whatsoever
(failed and unreported transactions, retries, roll-overs, concurrent updates), a line item with
that id is in the database.\<close>

theorem acknowledged_item_stored:
  fixes \<sigma> :: "'d::linordered_ab_group_add Sys"
  assumes "reachable lib always \<sigma>" and "(wid, inp, Inr res) \<in> set (sys_replies \<sigma>)"
  shows "\<exists>i row. pg_uuid lib (in_ItemID inp) = Some i \<and> find_item i (fst (sys_store \<sigma>)) = Some row"
  using replies_durable [OF assms] by (simp add: item_durable_def)

theorem acknowledged_item_stored_witness:
  "\<exists>i row. pg_uuid column_lib item_uuid = Some i \<and> find_item i (fst (sys_store billed_sys)) = Some row"
proof -
  obtain res where "(workflowID bill_uuid, item_input ''acct-alpha'' item_uuid (1599 / 100), Inr res)
      \<in> set (sys_replies billed_sys)"
    using billed_replies by (auto simp: list_ex_iff isl_def split: sum.splits) (metis sum.exhaust)
  from acknowledged_item_stored [OF billed_reachable this] show ?thesis by (simp add: item_input_def)
qed

text \<open>C4. In every reachable state, on the declared columns, the total of every bill row that is
still OPEN is the sum of the bill's line items, and is not negative.\<close>

theorem open_bill_total:
  assumes "reachable (with_columns lib) always \<sigma>"
    and "find_bill u (fst (sys_store \<sigma>)) = Some r" and "br_status r = BillStatusOpen"
  shows "br_total_amount r = items_total u (fst (sys_store \<sigma>)) \<and> 0 \<le> br_total_amount r"
  using columns.books.holds [OF assms(1)] assms(2,3) by (simp add: balanced_def row_balanced_def)

theorem open_bill_total_witness:
  "\<exists>r. find_bill bill_uuid (fst (sys_store adding_sys)) = Some r \<and>
     br_total_amount r = items_total bill_uuid (fst (sys_store adding_sys)) \<and> 0 \<le> br_total_amount r"
  using adding_open open_bill_total [OF adding_reachable [unfolded column_lib_def]]
  by (auto split: option.splits)

text \<open>C5. In every reachable state the audit log tells the tables: a bill has one OPENED event if
it has a row and none otherwise, one ITEM_ADDED event per line item, and a CLOSED event exactly
when its row is CLOSED.\<close>

theorem audit_log_complete:
  fixes \<sigma> :: "'d::linordered_ab_group_add Sys"
  assumes "reachable lib always \<sigma>"
  shows "count_events u BillEventItemAdded (fst (sys_store \<sigma>)) = length (items_of u (fst (sys_store \<sigma>))) \<and>
     count_events u BillEventOpened (fst (sys_store \<sigma>)) =
       (if find_bill u (fst (sys_store \<sigma>)) = None then 0 else 1) \<and>
     (0 < count_events u BillEventClosed (fst (sys_store \<sigma>)) \<longleftrightarrow>
       (\<exists>r. find_bill u (fst (sys_store \<sigma>)) = Some r \<and> br_status r = BillStatusClosed))"
  using audit.holds [OF assms] by (simp add: audited_def)

theorem audit_log_complete_witness:
  "count_events bill_uuid BillEventItemAdded (fst (sys_store billed_sys)) =
     length (items_of bill_uuid (fst (sys_store billed_sys)))"
  using audit_log_complete [OF billed_reachable] by blast

text \<open>C6. The events of any execution only ever add to the record: line items and audit events are
appended and never changed, no bill row disappears or changes owner, currency or creation time, and
a bill that is CLOSED stays CLOSED; and the constraints of the schema hold before and after.\<close>

theorem history_is_append_only:
  fixes \<sigma> :: "'d::linordered_ab_group_add Sys"
  assumes "reachable lib always \<sigma>" and "sys_run lib es \<sigma> = Some \<sigma>'"
  shows "db_extends (fst (sys_store \<sigma>)) (fst (sys_store \<sigma>')) \<and> db_ok (fst (sys_store \<sigma>')) \<and>
     db_ok (fst (sys_store \<sigma>))"
  using sys_run_extends [OF assms(2)] reachable_db_ok reachable_run [OF assms] assms(1) by blast

theorem history_is_append_only_witness:
  "db_extends (fst (sys_store sample_sys)) (fst (sys_store billed_sys))"
  using history_is_append_only [OF reach_init [OF sample_init] billed_run] by blast

text \<open>C7. A workflow that completes does so for the bill it was started for and with a close
reason; its result carries that bill's id and currency, a total that is not negative, and the
bill's row is in the database and CLOSED.\<close>

theorem completed_run:
  fixes \<sigma> :: "'d::linordered_ab_group_add Sys"
  assumes "reachable lib always \<sigma>" and "run_of \<sigma> wid = Some w" and "wf_phase w = Completed res"
  shows "wid = workflowID (br_BillID res) \<and> br_BillID res = wi_BillID (wf_input w) \<and>
     br_Currency res = wi_Currency (wf_input w) \<and> br_CloseReason res \<noteq> CloseReasonNone \<and>
     0 \<le> br_TotalAmount res \<and>
     (\<exists>u r. pg_uuid lib (br_BillID res) = Some u \<and> find_bill u (fst (sys_store \<sigma>)) = Some r \<and>
        br_status r = BillStatusClosed)"
proof -
  have "run_ok lib wid w (fst (sys_store \<sigma>))" using run.holds assms(1,2) by blast
  from run_completed [OF this assms(3)] show ?thesis by blast
qed

theorem completed_run_witness:
  "\<exists>w. run_of billed_sys (workflowID bill_uuid) = Some w \<and> wi_BillID (wf_input w) = bill_uuid"
  using billed_completed completed_run [OF billed_reachable]
  by (fastforce split: option.splits Phase.splits)

text \<open>C8. In every reachable state each stored row is what the code that scans it expects: ids, amounts
and times are values of their columns; a bill row has no closing time and no close reason while it is
OPEN and has both once it is CLOSED; an event has an actor and the payload of its kind.\<close>

theorem rows_well_typed:
  fixes \<sigma> :: "'d::linordered_ab_group_add Sys"
  assumes "reachable lib always \<sigma>"
  shows "(\<forall>r\<in>set (bills (fst (sys_store \<sigma>))). bill_row_typed lib r) \<and>
    (\<forall>r\<in>set (line_items (fst (sys_store \<sigma>))). item_row_typed lib r) \<and>
    (\<forall>e\<in>set (bill_events (fst (sys_store \<sigma>))). event_row_typed lib e)"
  using columns_typed.holds [OF assms] by (simp add: typed_def)

theorem rows_well_typed_witness:
  "\<exists>r t. find_bill bill_uuid (fst (sys_store billed_sys)) = Some r \<and> br_status r = BillStatusClosed \<and>
     br_closed_at r = Some t \<and> time_value column_lib t"
proof -
  have "case find_bill bill_uuid (fst (sys_store billed_sys)) of
      None \<Rightarrow> False | Some r \<Rightarrow> br_status r = BillStatusClosed" by code_simp
  then obtain r where r: "find_bill bill_uuid (fst (sys_store billed_sys)) = Some r" "br_status r = BillStatusClosed"
    by (auto split: option.splits)
  with rows_well_typed [OF billed_reachable] find_bill_Some [OF r(1)] have "bill_row_typed column_lib r" by blast
  with r show ?thesis by (auto simp: bill_row_typed_def)
qed

text \<open>C9. In every state the service can reach through its requests and its workflows no counter is
behind the tables: bills_opened_total has counted at least the bills of each currency,
line_items_added_total at least the line items as accepted, and bills_closed_total at least the
CLOSED events of each reason.\<close>

theorem counters_cover_tables:
  fixes w :: "('d::linordered_ab_group_add, 'd Sys) World"
  assumes "served lib w"
  shows "length (filter (\<lambda>r. br_currency r = c) (bills (world_db w))) \<le> count_list (snd (w_store w)) (BillsOpened c) \<and>
    length (line_items (world_db w)) \<le> count_list (snd (w_store w)) (LineItemsAdded ''accepted'') \<and>
    length (filter (closes_with reason) (bill_events (world_db w))) \<le> count_list (snd (w_store w)) (BillsClosed reason)"
proof -
  have "tally (world_db w) m \<le> count_list (snd (w_store w)) m" if "tallied m" for m
    using served_metered [OF assms] that by (simp add: metered_def counter_def world_db_def)
  from this [of "BillsOpened c"] this [of "LineItemsAdded ''accepted''"] this [of "BillsClosed reason"]
  show ?thesis by simp
qed

theorem counters_cover_tables_witness:
  "2 \<le> count_list (snd (w_store billed_world)) (LineItemsAdded ''accepted'')"
proof -
  have "length (line_items (world_db billed_world)) = 2" by code_simp
  with counters_cover_tables [OF billed_served] show ?thesis by auto
qed

text \<open>C10. As long as no commit is refused the counters are exact: what an execution adds to a counter
is what it adds to the tables, through failed statements, unreported commits, retries and duplicates.\<close>

theorem counters_exact:
  fixes \<sigma> :: "'d::{zero,ord,plus} Sys"
  assumes "sys_run lib es \<sigma> = Some \<sigma>'" and "list_all (\<lambda>e. \<not> loses e) es"
    and "\<And>m. tallied m \<Longrightarrow> count_list (snd (sys_store \<sigma>)) m = tally (fst (sys_store \<sigma>)) m"
  shows "count_list (snd (sys_store \<sigma>')) (BillsOpened c) =
      length (filter (\<lambda>r. br_currency r = c) (bills (fst (sys_store \<sigma>')))) \<and>
    count_list (snd (sys_store \<sigma>')) (LineItemsAdded ''accepted'') = length (line_items (fst (sys_store \<sigma>'))) \<and>
    count_list (snd (sys_store \<sigma>')) (BillsClosed reason) =
      length (filter (closes_with reason) (bill_events (fst (sys_store \<sigma>'))))"
proof -
  have "count_list (snd (sys_store \<sigma>')) m = tally (fst (sys_store \<sigma>')) m" if "tallied m" for m
    using sys_run_lag [OF that assms(1)] assms(2,3) that by (simp add: lag_def counter_def)
  from this [of "BillsOpened c"] this [of "LineItemsAdded ''accepted''"] this [of "BillsClosed reason"]
  show ?thesis by simp
qed

theorem counters_exact_witness:
  "count_list (snd (sys_store billed_sys)) (LineItemsAdded ''accepted'') =
     length (line_items (fst (sys_store billed_sys)))"
proof -
  have "list_all (\<lambda>e. \<not> loses e) billed_events" by code_simp
  moreover have "count_list (snd (sys_store (sample_sys :: rat Sys))) m = tally (fst (sys_store (sample_sys :: rat Sys))) m"
    if "tallied m" for m
    by (cases m) (simp_all add: sample_sys_def seed_db_def)
  ultimately show ?thesis using counters_exact [OF billed_run] by blast
qed

section \<open>Activities and updates\<close>

text \<open>C11. Adding an item is atomic. Whatever fails during an attempt of
\<open>AppendLineItemActivity\<close>, the database afterwards is either the one before, or the one with
all three writes: the line item, the bill's total increased by the amount and brought to the
column's form, and one ITEM_ADDED event. An attempt that reports success leaves the item stored.\<close>

theorem append_is_atomic:
  fixes s :: "'d::{zero,ord,plus} Store"
  shows "case AppendLineItemActivity lib env inp s of (r, s') \<Rightarrow>
     (isl r \<or> item_durable lib (fst s') (li_ID (ap_Item inp))) \<and>
     (fst s' = fst s \<or>
      (\<exists>i u a b t ev. pg_uuid lib (li_ID (ap_Item inp)) = Some i \<and> pg_uuid lib (ap_BillID inp) = Some u \<and>
         pg_numeric lib (li_Amount (ap_Item inp)) = Some a \<and> 0 < a \<and>
         find_item i (fst s) = None \<and> find_bill u (fst s) = Some b \<and>
         pg_numeric lib (br_total_amount b + li_Amount (ap_Item inp)) = Some t \<and>
         er_bill_id ev = u \<and> er_kind ev = BillEventItemAdded \<and>
         fst s' = post_item (itemRow lib i u a (ap_Item inp)) t ev (fst s)))"
proof -
  obtain r s' where run: "AppendLineItemActivity lib env inp s = (r, s')" by (rule prod.exhaust)
  have "isl r \<or> item_durable lib (fst s') (li_ID (ap_Item inp))"
    using run AppendLineItemActivity_durable by (cases r) fastforce+
  with run show ?thesis by (cases rule: AppendLineItemActivity_cases [OF run]) auto
qed

text \<open>C12. CreateBill and AppendLineItem are idempotent: once the row is there (the earlier attempt
committed, reported or not), any further attempt, with or without failures, leaves the database as
it is, audit log included.\<close>

theorem retries_change_nothing:
  fixes s :: "'d::{zero,ord,plus} Store"
  assumes "item_durable lib (fst s) (li_ID (ap_Item inp))" and "bill_durable lib (fst s) (bill_ID b)"
  shows "fst (snd (AppendLineItemActivity lib env inp s)) = fst s \<and>
     fst (snd (CreateBillActivity lib env' b s)) = fst s"
  using AppendLineItemActivity_retry [OF assms(1)] CreateBillActivity_retry [OF assms(2)]
  by (metis prod.collapse)

theorem retries_change_nothing_witness:
  "fst (snd (AppendLineItemActivity column_lib (good_env ''e9'')
      \<lparr>ap_BillID = bill_uuid, ap_Actor = ''acct-alpha'',
       ap_Item = newItem (at_time 5) (item_input ''acct-alpha'' item_uuid (1599 / 100))\<rparr>
      (sys_store billed_sys))) = fst (sys_store billed_sys)"
proof -
  have "item_durable column_lib (fst (sys_store billed_sys)) item_uuid"
    using billed_item by (auto simp: item_durable_def split: option.splits)
  moreover have "bill_durable column_lib (fst (sys_store billed_sys)) bill_uuid"
    using billed_bill by (auto simp: bill_durable_def split: option.splits)
  ultimately show ?thesis
    using retries_change_nothing [where lib = column_lib and s = "sys_store billed_sys" and
        b = "initialBill (at_time 0) (bill_input bill_uuid ''acct-alpha'')" and env' = "good_env ''e9''"]
    by (simp add: newItem_def item_input_def initialBill_def bill_input_def)
qed

text \<open>C13. An update that passes the validator, has a new item id, and whose first attempt at the
activity meets no failure is carried out in three steps: the item is posted, the run's total and
count grow by it, its id is remembered, and the caller is told the new total and count.\<close>

theorem accepted_item_is_posted:
  fixes w :: "'d::{zero,ord,plus} WF"
  assumes "serving (wf_phase w)" and "validateAddLineItem (wf_bill w) inp = None"
    and "in_ItemID inp \<notin> wf_seen w" and "can_post lib env (wf_bill w) inp (fst s)"
    and "k = length (wf_handlers w)"
  shows "\<exists>w1 w2 s2. wf_step lib (UpdateArrives inp now) w s = Some (w1, s, []) \<and>
      wf_step lib (AppendAttempt k env True) w1 s = Some (w2, s2, []) \<and>
      wf_step lib (AppendReturns k) w2 s2 =
        Some (w\<lparr>wf_bill := applyItem inp (wf_bill w), wf_seen := insert (in_ItemID inp) (wf_seen w)\<rparr>, s2,
          [(inp, Inr \<lparr>res_ItemID = in_ItemID inp, res_BillTotal = bill_TotalAmount (wf_bill w) + in_Amount inp,
              res_ItemCount = bill_ItemCount (wf_bill w) + 1\<rparr>)]) \<and>
      item_durable lib (fst s2) (in_ItemID inp)"
proof -
  obtain w1 w2 s2 where steps: "wf_step lib (UpdateArrives inp now) w s = Some (w1, s, [])"
      "wf_step lib (AppendAttempt k env True) w1 s = Some (w2, s2, [])"
      "wf_step lib (AppendReturns k) w2 s2 =
        Some (w\<lparr>wf_bill := applyItem inp (wf_bill w), wf_seen := insert (in_ItemID inp) (wf_seen w)\<rparr>, s2,
          [(inp, Inr (addResult (applyItem inp (wf_bill w)) (in_ItemID inp)))])"
      "AppendLineItemActivity lib env (appendInput (wf_bill w) inp (newItem now inp)) s = (Inr (), s2)"
    using add_item_steps [OF assms] by blast
  from AppendLineItemActivity_durable [OF steps(4)] have "item_durable lib (fst s2) (in_ItemID inp)"
    by (simp add: appendInput_def newItem_def)
  with steps(1-3) show ?thesis
    unfolding addResult_def bill_fields by blast
qed

theorem accepted_item_is_posted_witness:
  "\<exists>w1. wf_step column_lib (UpdateArrives opened_item (at_time 1)) opened_run (sys_store opened_sys) =
     Some (w1, sys_store opened_sys, [])"
  using accepted_item_is_posted [OF opened_ready(1-3) opened_can_post, of 0 "at_time 1"] opened_ready(4)
  by auto

text \<open>C14. A close signal closes the bill when nothing fails: from a run that waits for a signal with
no update in progress, on a database that takes the close, the events that follow one another lead
to the run's result, with the bill's total and count, and leave the row CLOSED with that total (as
the column holds it) and the reason SIGNAL.\<close>

theorem close_completes:
  fixes w :: "'d::{zero,ord,plus} WF"
  assumes "wf_phase w = Serving" and "wf_handlers w = []" and "wf_sel w = SelWaiting"
    and "distinct ids" and "set ids = wf_seen w" and "can_close lib env (wf_bill w) (fst s)"
  shows "\<exists>u r t w' s'. wf_run lib [SignalArrives, SelectorSignal, AwaitReturns, DrainReturns now ids,
        CloseAttempt env True, CloseReturns] w s = Some (w', s') \<and>
      wf_phase w' = Completed (billResult CloseReasonSignal (wf_bill w)) \<and>
      pg_uuid lib (bill_ID (wf_bill w)) = Some u \<and> find_bill u (fst s) = Some r \<and>
      pg_numeric lib (bill_TotalAmount (wf_bill w)) = Some t \<and>
      find_bill u (fst s') = Some (close_row t (pg_time lib now) (Some CloseReasonSignal) r)"
  using assms by (rule close_steps)

theorem close_completes_witness:
  "\<exists>w' s'. wf_run column_lib [SignalArrives, SelectorSignal, AwaitReturns, DrainReturns (at_time 9) [],
        CloseAttempt (good_env ''e2'') True, CloseReturns] waiting_run (sys_store opened_sys) = Some (w', s') \<and>
     wf_phase w' = Completed (billResult CloseReasonSignal (wf_bill waiting_run))"
  using close_completes [OF waiting_ready(1-3) _ _ waiting_can_close, of "[]" "at_time 9"] waiting_ready(4)
  by auto



section \<open>The endpoints\<close>

text \<open>C16. In every state the service can reach through its requests and its workflows: when
AddLineItem reports success, the line item it names (the idempotency key, or the fresh id) is in
\<open>line_items\<close>; and the state is again one the service can reach, with the schema's constraints
holding.\<close>

theorem added_item_stored:
  fixes w :: "('d::linordered_ab_group_add, 'd Sys) World"
  assumes "served lib w"
    and "RequireActiveCaller data (AddLineItem lib (sys_client lib now plan retained) reg data fresh i req) w =
      (Inr resp, w')"
  shows "(\<exists>j row. pg_uuid lib (if aq_IdempotencyKey req = '''' then fresh else aq_IdempotencyKey req) = Some j \<and>
      find_item j (world_db w') = Some row) \<and> served lib w' \<and> db_ok (world_db w')"
proof -
  have served: "served lib w'" using assms by (rule served_add)
  have add: "AddLineItem lib (sys_client lib now plan retained) reg data fresh i req w = (Inr resp, w')"
    using RequireActiveCaller_Inr [OF assms(2)] by simp
  have "item_durable lib (world_db w') (if aq_IdempotencyKey req = '''' then fresh else aq_IdempotencyKey req)"
    using served_sound [OF assms(1)] add by (rule temporal.AddLineItem_stored)
  with served served_db_ok [OF served] show ?thesis by (simp add: item_durable_def)
qed

theorem added_item_stored_witness:
  "\<exists>row. find_item item_uuid (world_db (snd added)) = Some row"
proof -
  obtain resp where "added = (Inr resp, snd added)"
    using added_ok by (cases "fst added") (auto simp: prod_eq_iff)
  from added_item_stored [OF opened_served this [unfolded added_def], folded added_def] item_columns
  show ?thesis by auto
qed

text \<open>C17. When CloseBill succeeds on a bill whose workflow was open, the row of the bill is CLOSED
and the response says so.\<close>

theorem close_answers_closed:
  fixes w :: "('d::linordered_ab_group_add, 'd Sys) World"
  assumes "served lib w" and "open_run (run_of (sys_of w) (workflowID i))"
    and "RequireActiveCaller data (CloseBill lib (sys_client lib now plan retained) rd data i) w = (Inr resp, w')"
  shows "cr_Status resp = ''CLOSED'' \<and>
    (\<exists>u r. pg_uuid lib i = Some u \<and> find_bill u (world_db w') = Some r \<and> br_status r = BillStatusClosed)"
proof -
  have close: "CloseBill lib (sys_client lib now plan retained) rd data i w = (Inr resp, w')"
    using RequireActiveCaller_Inr [OF assms(3)] by simp
  then have "fst (tc_SignalWorkflow (sys_client lib now plan retained) (workflowID i) w) = Inr ()"
    using assms(2) by (auto simp: CloseBill_def sys_client_defs errors_Is_def split: option.splits sum.splits)
  from temporal.CloseBill_closed [OF served_sound [OF assms(1)] close this] show ?thesis
    by (simp add: bill_closed_def)
qed

theorem close_answers_closed_witness:
  "\<exists>u r. pg_uuid desk_lib bill_uuid = Some u \<and> find_bill u (world_db settled_world) = Some r \<and>
     br_status r = BillStatusClosed"
  using closed_ok close_answers_closed [OF opened_served opened_is_open]
  unfolding closing_client_def by blast

text \<open>C18. An AddLineItem that repeats the idempotency key of an item the bill already has is answered
with the bill's present total and count, and neither the database nor the bill changes.\<close>

theorem add_again:
  fixes w :: "('d::{zero,ord,plus}, 'd Sys) World"
  assumes "valid_item_request lib reg req amount"
    and "run_of (sys_of w) (workflowID i) = Some ru" and "serving (wf_phase ru)"
    and "validateAddLineItem (wf_bill ru) (itemInput (aq_IdempotencyKey req) amount data req) = None"
    and "aq_IdempotencyKey req \<in> wf_seen ru" and "aq_IdempotencyKey req \<noteq> ''''"
  shows "\<exists>w'. AddLineItem lib (sys_client lib now no_events retained) reg data fresh i req w =
      (Inr \<lparr>ar_ItemID = aq_IdempotencyKey req, ar_BillTotal = dec_String lib (bill_TotalAmount (wf_bill ru)),
         ar_ItemCount = bill_ItemCount (wf_bill ru)\<rparr>, w') \<and>
    w_store w' = w_store w \<and> run_of (sys_of w') (workflowID i) = Some ru"
proof -
  have quiet: "no_events = (\<lambda>_ _. [])" by (simp add: no_events_def fun_eq_iff)
  show ?thesis
    using AddLineItem_retry [OF assms, of now retained fresh] assms(2)
    unfolding quiet by simp
qed

theorem add_again_witness:
  "\<exists>resp w'. AddLineItem desk_lib (sys_client desk_lib (at_time 3) no_events False) seed_registry
      (caller ''acct-alpha'' ClientStatusActive) ''f1'' bill_uuid (fee_request ''15.99'' ''USD'') (put_sys added_sys) =
      (Inr resp, w') \<and> ar_ItemCount resp = 1 \<and> w_store w' = w_store (put_sys added_sys)"
proof -
  obtain ru where ru: "run_of (sys_of (put_sys added_sys)) (workflowID bill_uuid) = Some ru" "serving (wf_phase ru)"
    "item_uuid \<in> wf_seen ru" "bill_ItemCount (wf_bill ru) = 1"
    "validateAddLineItem (wf_bill ru) (itemInput item_uuid (1599 / 100) (caller ''acct-alpha'' ClientStatusActive)
       (fee_request ''15.99'' ''USD'')) = None"
    using item_again by (auto split: option.splits)
  have key: "aq_IdempotencyKey (fee_request ''15.99'' ''USD'') = item_uuid" by (simp add: fee_request_def)
  have "item_uuid \<noteq> ''''" by (simp add: item_uuid_def)
  with add_again [OF fee_valid(1) ru(1,2), where data = "caller ''acct-alpha'' ClientStatusActive" and
      now = "at_time 3" and retained = False and fresh = "''f1''"] ru(3-5)
  show ?thesis unfolding key by fastforce
qed

text \<open>C19. A request that is malformed is refused before Temporal is asked anything: AddLineItem without
a description, with an amount that is no positive decimal or with an unknown currency, and CreateBill
with an unknown currency or a period that does not end after it starts, answer InvalidArgument and
change nothing.\<close>

theorem refused_before_temporal:
  "((\<nexists>amount. valid_item_request lib reg areq amount) \<longrightarrow>
      (\<exists>m. AddLineItem lib tc reg data fresh i areq w = (Inl (ErrsError InvalidArgument m), w))) \<and>
   (\<not> (Currency_Valid reg (cq_Currency creq) \<and>
        (\<forall>s e. cq_PeriodStart creq = Some s \<longrightarrow> cq_PeriodEnd creq = Some e \<longrightarrow> unix_ns s < unix_ns e)) \<longrightarrow>
      (\<exists>m. CreateBill lib tc rd reg data fresh creq w = (Inl (ErrsError InvalidArgument m), w)))"
  using AddLineItem_invalid [of lib reg areq tc data fresh i w] CreateBill_invalid [of reg creq lib tc rd data fresh w]
  by (auto simp: valid_bill_request_def validatePeriod_None)

theorem refused_before_temporal_witness:
  "(\<exists>m. AddLineItem desk_lib closing_client seed_registry None ''f1'' bill_uuid (fee_request ''0'' ''USD'') opened_world =
      (Inl (ErrsError InvalidArgument m), opened_world)) \<and>
   (\<exists>m. CreateBill desk_lib closing_client all_read [] None ''f1'' euro_request opened_world =
      (Inl (ErrsError InvalidArgument m), opened_world))"
proof -
  have "\<nexists>amount. valid_item_request desk_lib seed_registry (fee_request ''0'' ''USD'') amount"
    by (auto simp: valid_item_request_def fee_request_def desk_lib_def with_columns_def)
  moreover have "\<not> Currency_Valid [] (cq_Currency euro_request)" by simp
  ultimately show ?thesis using refused_before_temporal by blast
qed

text \<open>C20. What the validator rejects comes back to the caller of AddLineItem with the code of the
reason: NotFound for a bill of another account, FailedPrecondition for another currency,
InvalidArgument for the rest (which a request that passed the endpoint's own checks does not meet).\<close>

theorem rejection_codes:
  fixes w :: "('d::{zero,ord,plus}, 'd Sys) World"
  assumes "carries_errors lib" and "valid_item_request lib reg req amount"
    and "run_of (sys_of w) (workflowID i) = Some ru" and "serving (wf_phase ru)"
    and "inp = itemInput (if aq_IdempotencyKey req = '''' then fresh else aq_IdempotencyKey req) amount data req"
    and "validateAddLineItem (wf_bill ru) inp = Some e"
  shows "\<exists>e' w'. AddLineItem lib (sys_client lib now plan retained) reg data fresh i req w = (Inl e', w') \<and>
    err_code e' = Some (if callerAccountID data \<noteq> bill_AccountID (wf_bill ru) then NotFound
      else if aq_Currency req \<noteq> bill_Currency (wf_bill ru) then FailedPrecondition else InvalidArgument)"
  using AddLineItem_rejected [OF assms(2-6), of now plan retained] rejected_code [OF assms(1,6)] assms(5)
  by (simp add: itemInput_def)

theorem rejection_codes_witness:
  "\<exists>e' w'. AddLineItem desk_lib (sys_client desk_lib (at_time 1) no_events False) seed_registry
      (caller ''acct-alpha'' ClientStatusActive) ''f1'' bill_uuid (fee_request ''15.99'' ''EUR'') opened_world =
      (Inl e', w') \<and> err_code e' = Some FailedPrecondition"
proof -
  let ?inp = "itemInput item_uuid (1599 / 100 :: rat) (caller ''acct-alpha'' ClientStatusActive) (fee_request ''15.99'' ''EUR'')"
  obtain ru e where ru: "run_of (sys_of opened_world) (workflowID bill_uuid) = Some ru" "serving (wf_phase ru)"
    "validateAddLineItem (wf_bill ru) ?inp = Some e"
    "in_CallerAccountID ?inp = bill_AccountID (wf_bill ru)" "in_Currency ?inp \<noteq> bill_Currency (wf_bill ru)"
    using euro_item by (auto simp: Let_def split: option.splits)
  have "?inp = itemInput (if aq_IdempotencyKey (fee_request ''15.99'' ''EUR'') = '''' then ''f1''
      else aq_IdempotencyKey (fee_request ''15.99'' ''EUR'')) (1599 / 100)
      (caller ''acct-alpha'' ClientStatusActive) (fee_request ''15.99'' ''EUR'')"
    using item_columns by simp
  from rejection_codes [OF desk_carries fee_valid(2) ru(1,2) this ru(3), of "at_time 1" no_events False] ru(4,5)
  show ?thesis by (simp add: itemInput_def)
qed

text \<open>C21. The bill GetBill shows adds up: within \<open>undisturbed\<close>, on the declared columns, when the
workflow of the bill answers queries (it has registered its query handler, which it does once the bill
row is inserted, and if it is closed its history is retained) and no update is in progress, the owner
gets the sum of the stored items as the total, their number as the count, and all of them, oldest
first, as the items.\<close>

theorem shown_bill_adds_up:
  assumes "reachable (with_columns lib) (undisturbed (with_columns lib)) \<sigma>"
    and "run_of \<sigma> (workflowID i) = Some ru" and "wf_handlers ru = []"
    and "query_registered (wf_phase ru)" and "retained \<or> open_run (Some ru)"
    and "bill_AccountID (wf_bill ru) = callerAccountID data" and "uuid_in i = Some u" and "rd_items rd = None"
  shows "\<exists>v. GetBill (with_columns lib) (sys_client (with_columns lib) now plan retained) rd data i (put_sys \<sigma>) =
      Inr \<lparr>gr_Bill = v\<rparr> \<and>
    bv_TotalAmount v = dec_String lib (items_total u (fst (sys_store \<sigma>))) \<and>
    bv_ItemCount v = int (length (items_of u (fst (sys_store \<sigma>)))) \<and>
    bv_LineItems v = Some (map (toLineItemView (with_columns lib) \<circ> scan_item)
      (sort_key item_key (items_of u (fst (sys_store \<sigma>)))))"
proof -
  let ?lib = "with_columns lib"
  have query: "sys_QueryWorkflow retained (workflowID i) (put_sys \<sigma>) = Inr (Inr (wf_bill ru))"
    using assms(2,4,5) by (auto simp: sys_QueryWorkflow_def)
  have "bill_ID (wf_bill ru) = i"
    using run.holds [OF assms(1,2)] by (auto simp: run_ok_def run_identity_def same_identity_def workflowID_def)
  then have agree: "items_total u (fst (sys_store \<sigma>)) = bill_TotalAmount (wf_bill ru)"
    "int (length (items_of u (fst (sys_store \<sigma>)))) = bill_ItemCount (wf_bill ru)"
    using columns.undisturbed_agreement [OF assms(1)] assms(2,3,7)
    by (auto simp: agreement_def orderly_def agrees_def with_columns_def)
  show ?thesis
    using assms(6,7,8) query agree
    by (simp add: GetBill_def loadBillSummary_def queryBillState_def sys_client_def fetchLineItems_def rows_of_def
        toBillView_def toLineItemViews_def with_columns_def)
qed

theorem shown_bill_adds_up_witness:
  "\<exists>v. GetBill column_lib (sys_client column_lib (at_time 20) no_events True) all_read
      (caller ''acct-alpha'' ClientStatusActive) bill_uuid billed_world = Inr \<lparr>gr_Bill = v\<rparr> \<and> bv_ItemCount v = 2"
proof -
  obtain ru where ru: "run_of billed_sys (workflowID bill_uuid) = Some ru" "wf_handlers ru = []"
      "query_registered (wf_phase ru)"
      "bill_AccountID (wf_bill ru) = callerAccountID (caller ''acct-alpha'' ClientStatusActive)"
    using billed_run_done by (auto split: option.splits Phase.splits)
  have "uuid_in bill_uuid = Some bill_uuid" by code_simp
  from shown_bill_adds_up [OF billed_undisturbed_reachable [unfolded column_lib_def] ru(1-3) _ ru(4) this,
      of True all_read "at_time 20" no_events]
  show ?thesis using billed_items by (auto simp: all_read_def billed_world_def column_lib_def world_db_def put_sys_def)
qed

text \<open>C22. A caller who does not own a bill gets from GetBill, CloseBill, ListLineItems and
ListBillEvents the answer for a bill that does not exist, and changes nothing.\<close>

theorem bill_hidden:
  assumes "not_the_callers lib tc rd data i w"
  shows "GetBill lib tc rd data i w = Inl (ErrsError NotFound (''bill '' @ i @ '' not found'')) \<and>
    CloseBill lib tc rd data i w = (Inl (ErrsError NotFound (''bill '' @ i @ '' not found'')), w) \<and>
    ListLineItems lib tc rd slow data i req w = Inl (ErrsError NotFound (''bill '' @ i @ '' not found'')) \<and>
    ListBillEvents lib tc rd slow data i req' w = Inl (ErrsError NotFound (''bill '' @ i @ '' not found''))"
  using hidden_bill [OF assms] by (simp add: bill_not_found_def)

theorem bill_hidden_witness:
  "GetBill column_lib gone_client all_read (caller ''acct-beta'' ClientStatusActive) bill_uuid billed_world =
     Inl (ErrsError NotFound (''bill '' @ bill_uuid @ '' not found''))"
  using bill_hidden [OF billed_hidden] by blast

text \<open>C23. Whatever the state of the service and the request, every bill in a page of ListBills is a
row of \<open>bills\<close> of the caller's account with the status asked for.\<close>

theorem own_bills_only:
  assumes "ListBills lib rd slow data req w = Inr resp" and "v \<in> set (bp_Bills resp)"
  shows "bv_AccountID v = callerAccountID data \<and> (\<exists>r\<in>set (bills (world_db w)). v = toBillView lib (scanBillRow r)) \<and>
    (\<forall>q. req = Some q \<longrightarrow> bq_Status q \<noteq> '''' \<longrightarrow> status_string (bv_Status v) = bq_Status q)"
  using ListBills_rows [OF assms] by auto

theorem own_bills_only_witness:
  "\<exists>resp v. ListBills column_lib all_read (\<lambda>_. None) (caller ''acct-alpha'' ClientStatusActive) None billed_world =
     Inr resp \<and> v \<in> set (bp_Bills resp) \<and> bv_AccountID v = ''acct-alpha''"
proof -
  obtain resp v where "ListBills column_lib all_read (\<lambda>_. None) (caller ''acct-alpha'' ClientStatusActive) None
      billed_world = Inr resp" "v \<in> set (bp_Bills resp)"
    using billed_listed by (auto split: sum.splits) (metis list.set_intros(1) neq_Nil_conv)
  with own_bills_only [OF this] show ?thesis by (auto simp: caller_def callerAccountID_def)
qed

text \<open>C24. A bill whose workflow history is gone is read from the tables: GetBill gives its owner the row
with all its line items, oldest first, but an item count of 0.\<close>

theorem archived_bill:
  assumes "tc_QueryWorkflow tc (workflowID i) w = Inl ServiceNotFound" and "rd_row rd = None"
    and "rd_items rd = None" and "pg_uuid lib i = Some u" and "find_bill u (world_db w) = Some r"
    and "br_account_id r = callerAccountID data"
  shows "\<exists>v. GetBill lib tc rd data i w = Inr \<lparr>gr_Bill = v\<rparr> \<and> bv_ID v = br_id r \<and> bv_Status v = br_status r \<and>
    bv_TotalAmount v = dec_String lib (br_total_amount r) \<and>
    bv_LineItems v = Some (map (toLineItemView lib \<circ> scan_item) (sort_key item_key (items_of u (world_db w)))) \<and>
    bv_ItemCount v = 0"
  using GetBill_from_db [OF assms] by (simp add: toBillView_def toLineItemViews_def scanBillRow_def)

theorem archived_bill_witness:
  "\<exists>v its. GetBill column_lib gone_client all_read (caller ''acct-alpha'' ClientStatusActive) bill_uuid billed_world =
     Inr \<lparr>gr_Bill = v\<rparr> \<and> bv_LineItems v = Some its \<and> length its = 2 \<and> bv_ItemCount v = 0"
proof -
  obtain r where "pg_uuid column_lib bill_uuid = Some bill_uuid" "find_bill bill_uuid (world_db billed_world) = Some r"
    "br_account_id r = callerAccountID (caller ''acct-alpha'' ClientStatusActive)"
    using billed_row by (auto split: option.splits)
  from archived_bill [OF billed_gone _ _ this, of all_read] billed_items show ?thesis
    by (auto simp: all_read_def)
qed

section \<open>Identity, the currency registry and the start of the service\<close>

text \<open>C25. A mutating request that is carried out comes from a client that was ACTIVE in the clients
table at some time within the last five minutes, under exactly the account id of its header,
whatever other requests do to the cache in the meantime.\<close>

theorem mutation_by_active_client:
  assumes "reflects map_of hist now c" and "query_failure failure"
    and "\<And>c. reflects map_of hist now c \<Longrightarrow> reflects map_of hist now (others c)"
    and "AuthHandler clientCache others now failure header (hist now) c = (Returns (Inr (uid, d)), c')"
    and "RequireActiveCaller (Some d) endpoint w = (Inr r, w')"
  shows "endpoint w = (Inr r, w') \<and> callerAccountID (Some d) = TrimSpace header \<and>
    (\<exists>t cl. t \<le> now \<and> now < t + 5 * minute \<and> client_at (TrimSpace header) (hist t) = Some cl \<and>
       client_Status cl = ClientStatusActive)"
  using clients.mutation_recent [OF assms] unfolding recently_def clientCacheTTL_def by blast

theorem mutation_by_active_client_witness:
  "\<exists>t cl. t \<le> 0 \<and> 0 < t + 5 * minute \<and> client_at ''acct-alpha'' (seed_db :: rat DB) = Some cl \<and>
     client_Status cl = ClientStatusActive"
proof -
  obtain d c' where auth: "AuthHandler clientCache (\<lambda>c. c) 0 None ''acct-alpha'' (seed_db :: rat DB) [] =
      (Returns (Inr (''acct-alpha'', d)), c')" and d: "ad_Status d = ClientStatusActive"
    using alpha_authenticated by blast
  have "RequireActiveCaller (Some d) (\<lambda>w. (Inr (), w)) () = (Inr (), ())"
    using d by (simp add: RequireActiveCaller_def assertActiveCaller_def)
  from mutation_by_active_client [where hist = "\<lambda>_. seed_db", OF _ _ _ auth this]
  have "TrimSpace ''acct-alpha'' = ''acct-alpha'' \<Longrightarrow> ?thesis"
    by (auto simp: reflects_def query_failure_def)
  moreover have "TrimSpace ''acct-alpha'' = ''acct-alpha''" by code_simp
  ultimately show ?thesis by blast
qed

text \<open>C26. A currency that passes the check of CreateBill or AddLineItem was in the currencies table
at some time within the last hour. And when neither look into the cache finds the registry and it cannot
be loaded (the query, the scan or the iteration fails, or the table is empty), no currency passes and
nothing is cached.\<close>

theorem registry_recent:
  assumes "currencies_reflect map_of hist now c"
    and "\<And>c. currencies_reflect map_of hist now c \<Longrightarrow> currencies_reflect map_of hist now (others c)"
    and "getCurrencies currencyCache others now failure (hist now) c = (reg, c')"
  shows "(\<forall>code. Currency_Valid reg code \<longrightarrow>
      (\<exists>t. t \<le> now \<and> now < t + hour \<and> code \<in> cr_code ` set (currencies (hist t)))) \<and>
    (\<forall>c1 c2. cache_Get currencyCache now currenciesCacheKey c = (None, c1) \<and>
      cache_Get currencyCache now currenciesCacheKey (others c1) = (None, c2) \<and>
      (failure \<noteq> None \<or> currencies (hist now) = []) \<longrightarrow> (\<forall>code. \<not> Currency_Valid reg code) \<and> c' = c2) \<and>
    currencies_reflect map_of hist now c'"
proof (intro conjI allI impI)
  note recent = registry.getCurrencies_recent [OF assms]
  show "currencies_reflect map_of hist now c'" using recent by blast
  show "\<exists>t. t \<le> now \<and> now < t + hour \<and> code \<in> cr_code ` set (currencies (hist t))"
    if valid: "Currency_Valid reg code" for code
  proof -
    from recent valid obtain t where "now < t + currenciesCacheTTL" "t \<le> now"
      "reg = scan_currencies (currencies (hist t)) []" by auto
    with valid scan_currencies_Valid show ?thesis by (auto simp: currenciesCacheTTL_def)
  qed
  fix c1 c2
  assume "cache_Get currencyCache now currenciesCacheKey c = (None, c1) \<and>
      cache_Get currencyCache now currenciesCacheKey (others c1) = (None, c2) \<and>
      (failure \<noteq> None \<or> currencies (hist now) = [])"
  then have "(reg, c') = ([], c2)" using getCurrencies_fails [of failure "hist now"] assms(3) by metis
  then show "\<not> Currency_Valid reg code" "c' = c2" for code by simp_all
qed

theorem registry_recent_witness:
  "(\<exists>t. t \<le> 0 \<and> 0 < t + hour \<and> ''USD'' \<in> cr_code ` set (currencies (seed_db :: rat DB))) \<and>
   \<not> Currency_Valid (fst (getCurrencies currencyCache (\<lambda>c. c) 0 (Some (IterFails conn_error)) (seed_db :: rat DB) [])) ''USD''"
proof
  have empty: "currencies_reflect map_of (\<lambda>_. seed_db :: rat DB) 0 []" by (simp add: currencies_reflect_def)
  obtain reg c' where get: "getCurrencies currencyCache (\<lambda>c. c) 0 None (seed_db :: rat DB) [] = (reg, c')"
    by (rule prod.exhaust)
  have "Currency_Valid (fst (getCurrencies currencyCache (\<lambda>c. c) 0 None (seed_db :: rat DB) [])) ''USD''"
    by code_simp
  with registry_recent [OF empty _ get] get
  show "\<exists>t. t \<le> 0 \<and> 0 < t + hour \<and> ''USD'' \<in> cr_code ` set (currencies (seed_db :: rat DB))"
    by auto
  obtain reg2 c2 where get2: "getCurrencies currencyCache (\<lambda>c. c) 0 (Some (IterFails conn_error)) (seed_db :: rat DB) [] =
      (reg2, c2)" by (rule prod.exhaust)
  have "cache_Get currencyCache 0 currenciesCacheKey [] = (None, [])"
    by (simp add: currencyCache_def lru_def lru_Get_def)
  with registry_recent [OF empty _ get2] get2
  show "\<not> Currency_Valid (fst (getCurrencies currencyCache (\<lambda>c. c) 0 (Some (IterFails conn_error)) (seed_db :: rat DB) []))
      ''USD''" by auto
qed

text \<open>C27. The service starts completely or not at all. If \<open>initService\<close> returns an error, the clients
that are open and the workers that poll are those from before, and the registry is untouched.
Otherwise the client is connected to the configured host, the worker polls the task queue through it
with the billing workflow and its three activities, the registry is answered from the cache with the
currencies of the table for an hour, and Shutdown gives back both.\<close>

theorem service_starts_completely:
  assumes "temporal_sdk sdk conns workers"
    and "initService sdk currencyCache getenv now failure db (p, c) = (r, p', c')"
  shows "case r of
      Inl e \<Rightarrow> conns p' = conns p \<and> polling (workers p') = polling (workers p) \<and> c' = c
    | Inr svc \<Rightarrow>
        conns p' (temporalClient svc) =
          Some (if getenv ''TEMPORAL_HOSTPORT'' = '''' then ''localhost:7233'' else getenv ''TEMPORAL_HOSTPORT'') \<and>
        workers p' (temporalWorker svc) = Some \<lparr>wk_client = temporalClient svc, wk_queue = ''bill-task-queue'',
          wk_workflows = [''BillingWorkflow''],
          wk_activities = [''CreateBillActivity'', ''AppendLineItemActivity'', ''CloseBillActivity''],
          wk_polling = True\<rparr> \<and>
        (t < now + hour \<longrightarrow> fst (getCurrencies currencyCache others t failure' db' c') =
          scan_currencies (currencies db) []) \<and>
        conns (snd (Shutdown sdk svc p')) = conns p \<and>
        polling (workers (snd (Shutdown sdk svc p'))) = polling (workers p)"
proof (rule temporal_sdk.initService_cases [OF assms], goal_cases failed running)
  case (failed e)
  then show ?thesis by (simp add: temporal_sdk.released_def [OF assms(1)])
next
  case (running cl w m)
  note acq = running(2) [unfolded temporal_sdk.acquired_def [OF assms(1)]]
  have "temporal_sdk.released conns workers p (snd (Shutdown sdk \<lparr>temporalClient = cl, temporalWorker = w\<rparr> p'))"
    by (rule temporal_sdk.Shutdown_released [OF assms(1) running(2)])
  then show ?thesis
    using acq running(1,4) loadCurrencies_Inr [OF running(3)] primed_registry [of t now others failure' db' m c]
    by (simp add: temporal_sdk.released_def [OF assms(1)] temporalHostPort_def Let_def temporalHostEnvVar_def
        defaultTemporalHost_def billWorker_def TaskQueue_def currenciesCacheTTL_def)
qed

theorem service_starts_completely_witness:
  "\<exists>svc. fst started_process = Inr svc \<and>
     (map_of \<circ> ps_conns) (fst (snd started_process)) (temporalClient svc) = Some ''localhost:7233'' \<and>
     (map_of \<circ> ps_conns) (snd (Shutdown process_sdk svc (fst (snd started_process)))) = map_of [(0, ''metrics:9090'')]"
proof -
  obtain q p' c' where q: "started_process = (q, p', c')" by (rule prod_cases3)
  moreover have "\<not> isl q" using started_ok unfolding q by simp
  ultimately obtain svc where s: "started_process = (Inr svc, p', c')" by (cases q) simp_all
  from service_starts_completely [where t = 0 and others = "\<lambda>c. c" and failure' = None and db' = "seed_db :: rat DB",
      OF process.temporal_sdk_axioms s [unfolded started_process_def]]
  show ?thesis unfolding s by (simp add: idle_process_def)
qed

section \<open>Listings\<close>

text \<open>C28. A client that follows the cursors of ListLineItems from the empty one until none is given
reads every line item of the bill exactly once, oldest first, whatever page size it asks for; one
request more than there are items is always enough. The same holds of ListBillEvents and the bill's audit
events. (The bill does not change meanwhile, and its rows can be addressed by a cursor.)\<close>

theorem items_and_events_listed_once:
  fixes w :: "('d::linordered_ab_group_add, 'd Sys) World"
  assumes "served lib w" and "assertOwnsBill lib tc rd data i w = None" and "rd_page rd = None"
    and "pg_uuid lib i = Some u" and "0 \<le> n"
    and "\<And>r. r \<in> set (items_of u (world_db w)) \<Longrightarrow> addressable lib (lr_created_at r) (lr_id r)"
    and "\<And>r. r \<in> set (events_of u (world_db w)) \<Longrightarrow> addressable lib (er_created_at r) (er_id r)"
    and "length (items_of u (world_db w)) < requests" and "length (events_of u (world_db w)) < requests'"
  shows "follow requests (items_page lib tc rd slow data i n w) '''' =
      Inr (map (toLineItemView lib \<circ> scan_item) (sort_key item_key (items_of u (world_db w)))) \<and>
    follow requests' (events_page lib tc rd slow data i n w) '''' =
      Inr (map scan_event (sort_key event_key (events_of u (world_db w))))"
proof
  obtain limit where limit: "pageLimit (Some n) = Inr limit" "0 < nat limit" using pageLimit_valid [OF assms(5)] by blast
  note ok = served_db_ok [OF assms(1)]
  show "follow requests (items_page lib tc rd slow data i n w) '''' =
      Inr (map (toLineItemView lib \<circ> scan_item) (sort_key item_key (items_of u (world_db w))))"
    using sort_key_strict(1) [OF item_keys_distinct [OF ids_distinct(1) [OF ok]]]
    by (intro oldest_first.follow_all [OF items_serve [OF assms(2-4) limit(1)]]) (use limit(2) assms(6,8) in simp_all)
  show "follow requests' (events_page lib tc rd slow data i n w) '''' =
      Inr (map scan_event (sort_key event_key (events_of u (world_db w))))"
    using sort_key_strict(1) [OF event_keys_distinct [OF ids_distinct(2) [OF ok]]]
    by (intro oldest_first.follow_all [OF events_serve [OF assms(2-4) limit(1)]]) (use limit(2) assms(7,9) in simp_all)
qed

theorem items_and_events_listed_once_witness:
  "follow 3 (items_page plain_lib plain_client all_read (\<lambda>_. None) (caller ''acct-alpha'' ClientStatusActive)
      bill_uuid 1 plain_world) '''' =
    Inr (map (toLineItemView plain_lib \<circ> scan_item) (sort_key item_key (items_of bill_uuid (world_db plain_world)))) \<and>
   follow 5 (events_page plain_lib plain_client all_read (\<lambda>_. None) (caller ''acct-alpha'' ClientStatusActive)
      bill_uuid 1 plain_world) '''' =
    Inr (map scan_event (sort_key event_key (events_of bill_uuid (world_db plain_world))))"
  using plain_items plain_events plain_items_addressable plain_events_addressable
  by (intro items_and_events_listed_once [OF plain_served plain_owned]) (simp_all add: all_read_def plain_lib_def)

text \<open>C29. A client that follows the cursors of ListLineItems, or of ListBillEvents, while the service
goes on: between its requests items are added, bills opened and closed. After more requests than there
are rows in the end it is done, and what it has read is in order, without repetitions, has every row
that was there at its first request, and nothing that is not stored.\<close>

theorem rows_listed_while_growing:
  fixes ws :: "('d::linordered_ab_group_add, 'd Sys) World list"
  assumes "served lib (hd ws)" and "successively (later lib) ws"
    and "\<And>w. w \<in> set ws \<Longrightarrow> assertOwnsBill lib tc rd data i w = None" and "rd_page rd = None"
    and "pg_uuid lib i = Some u" and "0 \<le> n"
    and "\<And>r. r \<in> set (items_of u (world_db (last ws))) \<Longrightarrow> addressable lib (lr_created_at r) (lr_id r)"
    and "\<And>r. r \<in> set (events_of u (world_db (last ws))) \<Longrightarrow> addressable lib (er_created_at r) (er_id r)"
    and "length (items_of u (world_db (last ws))) < length ws"
    and "length (events_of u (world_db (last ws))) < length ws"
  shows "(\<exists>read. follow_moving (map (items_page lib tc rd slow data i n) ws) '''' =
        Inr (map (toLineItemView lib \<circ> scan_item) read) \<and>
      sorted_wrt (\<lambda>x y. item_key x < item_key y) read \<and>
      set (items_of u (world_db (hd ws))) \<subseteq> set read \<and> set read \<subseteq> set (items_of u (world_db (last ws)))) \<and>
    (\<exists>read. follow_moving (map (events_page lib tc rd slow data i n) ws) '''' = Inr (map scan_event read) \<and>
      sorted_wrt (\<lambda>x y. event_key x < event_key y) read \<and>
      set (events_of u (world_db (hd ws))) \<subseteq> set read \<and> set read \<subseteq> set (events_of u (world_db (last ws))))"
proof -
  obtain limit where limit: "pageLimit (Some n) = Inr limit" using pageLimit_valid [OF assms(6)] by blast
  have "ws \<noteq> []" using assms(9) by auto
  then have moves: "growing ws" "db_ok (world_db (last ws))"
    using later_growing [OF assms(2)] assms(1) served_db_ok by fastforce+
  from items_growing [OF moves assms(3-5) limit assms(7,9)] events_growing [OF moves assms(3-5) limit assms(8,10)]
  show ?thesis ..
qed

theorem rows_listed_while_growing_witness:
  "\<exists>read. follow_moving (map (events_page plain_lib plain_client all_read (\<lambda>_. None)
        (caller ''acct-alpha'' ClientStatusActive) bill_uuid 1)
        [plain_adding, plain_world, plain_world, plain_world, plain_world]) '''' = Inr (map scan_event read) \<and>
    set (events_of bill_uuid (world_db plain_adding)) \<subseteq> set read"
proof -
  let ?ws = "[plain_adding, plain_world, plain_world, plain_world, plain_world]"
  have served: "served plain_lib (hd ?ws)" and later: "successively (later plain_lib) ?ws"
    using plain_adding_served plain_adding_later later_refl [of plain_lib plain_world] by simp_all
  have own: "\<And>w. w \<in> set ?ws \<Longrightarrow> assertOwnsBill plain_lib plain_client all_read
      (caller ''acct-alpha'' ClientStatusActive) bill_uuid w = None"
    using plain_owned plain_adding_owned by auto
  have u: "pg_uuid plain_lib bill_uuid = Some bill_uuid" by (simp add: plain_lib_def)
  have rest: "rd_page all_read = None" "(0::int) \<le> 1" by (simp_all add: all_read_def)
  have ends: "world_db (last ?ws) = world_db plain_world" "world_db (hd ?ws) = world_db plain_adding" "length ?ws = 5"
    by simp_all
  have "\<exists>read. follow_moving (map (events_page plain_lib plain_client all_read (\<lambda>_. None)
        (caller ''acct-alpha'' ClientStatusActive) bill_uuid 1) ?ws) '''' = Inr (map scan_event read) \<and>
      sorted_wrt (\<lambda>x y. event_key x < event_key y) read \<and>
      set (events_of bill_uuid (world_db (hd ?ws))) \<subseteq> set read \<and>
      set read \<subseteq> set (events_of bill_uuid (world_db (last ?ws)))"
    by (rule conjunct2 [OF rows_listed_while_growing [OF served later own rest(1) u rest(2)]])
      (use plain_items plain_events plain_items_addressable plain_events_addressable in \<open>simp_all add: ends\<close>)
  then show ?thesis unfolding ends by blast
qed

text \<open>C30. A client that follows the cursors of ListBills, with a status filter or none, while bills are
opened, charged and closed between its requests. After more requests than the account has bills in the
end it is done. What it has read is newest first and has no bill twice, each bill as it was at one of
the requests and with the status asked for; and it misses no bill that the filter lets through both at
its first and at its last request.\<close>

theorem bills_listed_while_growing:
  fixes ws :: "('d::linordered_ab_group_add, 'd Sys) World list"
  assumes "served lib (hd ws)" and "successively (later lib) ws" and "rd_page rd = None"
    and "status \<in> {'''', ''OPEN'', ''CLOSED''}" and "0 \<le> n" and "account = callerAccountID data"
    and "\<And>r. r \<in> set (bills_of account '''' (world_db (last ws))) \<Longrightarrow> addressable lib (br_created_at r) (br_id r)"
    and "length (bills_of account '''' (world_db (last ws))) < length ws"
  shows "\<exists>read. follow_moving (map (bills_page lib rd slow data status n) ws) '''' =
      Inr (map (toBillView lib \<circ> scanBillRow) read) \<and>
    sorted_wrt (\<lambda>x y. bill_key x > bill_key y) read \<and> distinct (map br_id read) \<and>
    (\<forall>r\<in>set read. \<exists>w\<in>set ws. r \<in> set (bills_of account status (world_db w))) \<and>
    br_id ` set (bills_of account status (world_db (hd ws))) \<inter>
      br_id ` set (bills_of account status (world_db (last ws))) \<subseteq> br_id ` set read"
proof -
  obtain limit where limit: "pageLimit (Some n) = Inr limit" using pageLimit_valid [OF assms(5)] by blast
  have "ws \<noteq> []" using assms(8) by auto
  then have "growing ws" "\<And>w. w \<in> set ws \<Longrightarrow> db_ok (world_db w)"
    using later_growing [OF assms(2)] assms(1) served_db_ok by blast+
  from bills_growing [OF this assms(3,4) limit assms(6-8)] show ?thesis .
qed

theorem bills_listed_while_growing_witness:
  "\<exists>read. follow_moving (map (bills_page column_lib all_read (\<lambda>_. None) (caller ''acct-alpha'' ClientStatusActive) '''' 1)
        [adding_world, billed_world]) '''' = Inr (map (toBillView column_lib \<circ> scanBillRow) read) \<and>
    bill_uuid \<in> br_id ` set read"
proof -
  have account: "''acct-alpha'' = callerAccountID (caller ''acct-alpha'' ClientStatusActive)"
    by (simp add: caller_def callerAccountID_def)
  have "\<And>r. r \<in> set (bills_of ''acct-alpha'' '''' (world_db billed_world)) \<Longrightarrow>
      addressable column_lib (br_created_at r) (br_id r)"
    using billed_bills_addressable by (simp add: bills_of_def)
  with bills_listed_while_growing [where ws = "[adding_world, billed_world]" and n = 1 and status = "''''" and
      rd = all_read and slow = "\<lambda>_. None", OF _ _ _ _ _ account] adding_served adding_later all_bills(1)
  have "\<exists>read. follow_moving (map (bills_page column_lib all_read (\<lambda>_. None) (caller ''acct-alpha'' ClientStatusActive) '''' 1)
        [adding_world, billed_world]) '''' = Inr (map (toBillView column_lib \<circ> scanBillRow) read) \<and>
    br_id ` set (bills_of ''acct-alpha'' '''' (world_db adding_world)) \<inter>
      br_id ` set (bills_of ''acct-alpha'' '''' (world_db billed_world)) \<subseteq> br_id ` set read"
    by (simp add: all_read_def del: follow_moving.simps) blast
  with all_bills(2) adding_bills show ?thesis by blast
qed

text \<open>C31. Cursors round trip: the position (created_at, id) that a page ends with is what the next
request's cursor decodes to, to the nanosecond, for items and bills alike; and a cursor is never the
empty string, which means "from the start".\<close>

theorem cursor_positions:
  assumes "stampable ts"
  shows "decodeCursor slow (Some (encodeLineItemCursor ts i)) = Inr (ts, i) \<and>
    decodeCursor slow (Some (encodeBillCursor ts i)) = Inr (ts, i) \<and>
    encodeLineItemCursor ts i \<noteq> '''' \<and> encodeBillCursor ts i \<noteq> ''''"
  using decodeCursor_encode [OF assms] by simp

theorem cursor_positions_witness:
  "decodeCursor (\<lambda>_. None) (Some (encodeBillCursor (at_time 9) ''a|b'')) = Inr (at_time 9, ''a|b'')"
proof -
  have "stampable (at_time 9)" by code_simp
  from cursor_positions [OF this] show ?thesis by blast
qed

text \<open>C32. Every page has a limit between 1 and 500 and holds at most that many rows.\<close>

theorem pages_bounded:
  "(\<forall>a. ListLineItems lib tc rd slow data i req w = Inr a \<longrightarrow>
      1 \<le> lp_Limit a \<and> lp_Limit a \<le> 500 \<and> int (length (lp_Items a)) \<le> lp_Limit a) \<and>
   (\<forall>b. ListBillEvents lib tc rd slow data i req' w = Inr b \<longrightarrow>
      1 \<le> ep_Limit b \<and> ep_Limit b \<le> 500 \<and> int (length (ep_Events b)) \<le> ep_Limit b) \<and>
   (\<forall>c. ListBills lib rd slow data req'' w = Inr c \<longrightarrow>
      1 \<le> bp_Limit c \<and> bp_Limit c \<le> 500 \<and> int (length (bp_Bills c)) \<le> bp_Limit c)"
  by (intro conjI allI impI; (drule page_sizes)?; blast)

theorem pages_bounded_witness:
  "\<exists>c. ListBills column_lib all_read (\<lambda>_. None) (caller ''acct-alpha'' ClientStatusActive) None billed_world = Inr c \<and>
     bp_Bills c \<noteq> [] \<and> bp_Limit c \<le> 500"
  using billed_listed pages_bounded [where req'' = None and lib = column_lib and w = billed_world]
  by (auto split: sum.splits)

text \<open>C33. The three listings refuse a malformed cursor with InvalidArgument: one that is no base64, or
whose bytes have no separator, or no time before the separator. A cursor whose bytes are a time, a
separator and an id that is no UUID gets as far as the query and is answered Internal.\<close>

theorem foreign_cursors:
  assumes "assertOwnsBill lib tc rd data i w = None" and "0 \<le> n" and "rd_page rd = None"
    and "status \<in> {'''', ''OPEN'', ''CLOSED''}" and "c \<noteq> ''''"
  shows "(DecodeString c = None \<or>
      (\<exists>raw. DecodeString c = Some raw \<and> CHR ''|'' \<notin> set raw) \<or>
      (\<exists>t cid. DecodeString c = Some (t @ ''|'' @ cid) \<and> CHR ''|'' \<notin> set t \<and> ParseRFC3339Nano slow t = None)
      \<longrightarrow>
      ListLineItems lib tc rd slow data i (Some \<lparr>lq_Cursor = c, lq_Limit = n\<rparr>) w =
        Inl (ErrsError InvalidArgument ''invalid cursor'') \<and>
      ListBillEvents lib tc rd slow data i (Some \<lparr>eq_Cursor = c, eq_Limit = n\<rparr>) w =
        Inl (ErrsError InvalidArgument ''invalid cursor'') \<and>
      ListBills lib rd slow data (Some \<lparr>bq_Status = status, bq_Cursor = c, bq_Limit = n\<rparr>) w =
        Inl (ErrsError InvalidArgument ''invalid cursor'')) \<and>
    (\<forall>t ts cid. DecodeString c = Some (t @ ''|'' @ cid) \<and> CHR ''|'' \<notin> set t \<and> ParseRFC3339Nano slow t = Some ts \<and>
      cid \<noteq> '''' \<and> pg_uuid lib cid = None \<longrightarrow>
      ListLineItems lib tc rd slow data i (Some \<lparr>lq_Cursor = c, lq_Limit = n\<rparr>) w =
        Inl (ErrsError Internal ''failed to list line items'') \<and>
      ListBillEvents lib tc rd slow data i (Some \<lparr>eq_Cursor = c, eq_Limit = n\<rparr>) w =
        Inl (ErrsError Internal ''failed to list bill events'') \<and>
      ListBills lib rd slow data (Some \<lparr>bq_Status = status, bq_Cursor = c, bq_Limit = n\<rparr>) w =
        Inl (ErrsError Internal ''failed to list bills''))"
proof (intro conjI allI impI)
  assume "DecodeString c = None \<or>
      (\<exists>raw. DecodeString c = Some raw \<and> CHR ''|'' \<notin> set raw) \<or>
      (\<exists>t cid. DecodeString c = Some (t @ ''|'' @ cid) \<and> CHR ''|'' \<notin> set t \<and> ParseRFC3339Nano slow t = None)"
  then have "decodeKeysetCursor slow c = Inl (ErrsError InvalidArgument ''invalid cursor'')"
    using decodeKeysetCursor_refuses [of c] unfolding invalid_cursor_def by blast
  note refused = refused_cursor [OF assms(1,2,4,5) this]
  show "ListLineItems lib tc rd slow data i (Some \<lparr>lq_Cursor = c, lq_Limit = n\<rparr>) w =
        Inl (ErrsError InvalidArgument ''invalid cursor'')"
    "ListBillEvents lib tc rd slow data i (Some \<lparr>eq_Cursor = c, eq_Limit = n\<rparr>) w =
        Inl (ErrsError InvalidArgument ''invalid cursor'')"
    "ListBills lib rd slow data (Some \<lparr>bq_Status = status, bq_Cursor = c, bq_Limit = n\<rparr>) w =
        Inl (ErrsError InvalidArgument ''invalid cursor'')" by (fact refused)+
next
  fix t ts cid
  assume a: "DecodeString c = Some (t @ ''|'' @ cid) \<and> CHR ''|'' \<notin> set t \<and> ParseRFC3339Nano slow t = Some ts \<and>
      cid \<noteq> '''' \<and> pg_uuid lib cid = None"
  then have "decodeKeysetCursor slow c = Inr (ts, cid)" using decodeKeysetCursor_accepts by blast
  note unusable = unusable_position [OF assms(1,2,4,5) this _ _ assms(3)]
  show "ListLineItems lib tc rd slow data i (Some \<lparr>lq_Cursor = c, lq_Limit = n\<rparr>) w =
        Inl (ErrsError Internal ''failed to list line items'')"
    "ListBillEvents lib tc rd slow data i (Some \<lparr>eq_Cursor = c, eq_Limit = n\<rparr>) w =
        Inl (ErrsError Internal ''failed to list bill events'')"
    "ListBills lib rd slow data (Some \<lparr>bq_Status = status, bq_Cursor = c, bq_Limit = n\<rparr>) w =
        Inl (ErrsError Internal ''failed to list bills'')" using a by (simp_all add: unusable)
qed

theorem foreign_cursors_witness:
  "ListLineItems column_lib gone_client all_read (\<lambda>_. None) (caller ''acct-alpha'' ClientStatusActive) bill_uuid
      (Some \<lparr>lq_Cursor = ''%'', lq_Limit = 10\<rparr>) billed_world = Inl (ErrsError InvalidArgument ''invalid cursor'') \<and>
   ListBills column_lib all_read (\<lambda>_. None) (caller ''acct-alpha'' ClientStatusActive)
      (Some \<lparr>bq_Status = ''OPEN'', bq_Cursor = EncodeToString ''2026'', bq_Limit = 10\<rparr>) billed_world =
    Inl (ErrsError InvalidArgument ''invalid cursor'') \<and>
   ListBillEvents column_lib gone_client all_read (\<lambda>_. None) (caller ''acct-alpha'' ClientStatusActive) bill_uuid
      (Some \<lparr>eq_Cursor = encodeLineItemCursor (at_time 9) ''x'', eq_Limit = 10\<rparr>) billed_world =
    Inl (ErrsError Internal ''failed to list bill events'')"
proof -
  have read: "rd_page all_read = None" "(0::int) \<le> 10" "''OPEN'' \<in> {'''', ''OPEN'', ''CLOSED''}"
    by (simp_all add: all_read_def)
  note listing = foreign_cursors [OF billed_owned read(2,1,3), of _ "\<lambda>_. None"]
  have "DecodeString ''%'' = None" by code_simp
  moreover have "DecodeString (EncodeToString ''2026'') = Some ''2026''" by (rule base64_roundtrip)
  moreover have "CHR ''|'' \<notin> set ''2026''" "EncodeToString ''2026'' \<noteq> ''''" by simp_all
  moreover have "stampable (at_time 9)" by code_simp
  then have "DecodeString (encodeLineItemCursor (at_time 9) ''x'') = Some (FormatRFC3339Nano (at_time 9) @ ''|'' @ ''x'')"
    "CHR ''|'' \<notin> set (FormatRFC3339Nano (at_time 9))"
    "ParseRFC3339Nano (\<lambda>_. None) (FormatRFC3339Nano (at_time 9)) = Some (at_time 9)"
    by (simp_all add: encodeLineItemCursor_def base64_roundtrip stamp_no_bar stamp_roundtrip)
  moreover have "pg_uuid column_lib ''x'' = None" by code_simp
  ultimately show ?thesis
    using listing [of "''%''"] listing [of "EncodeToString ''2026''"] listing [OF cursor_nonempty(1), of "at_time 9" "''x''"]
    by blast
qed

section \<open>Where the books part and the endpoints err\<close>

text \<open>C34. The threshold compares the item count of the whole bill, which the hand-off carries
over. Once a run has reached it (and its main coroutine runs when it is ready, as the SDK
schedules it), every later run of the bill rolls over at once as well: no sequence of events,
close signals included, leads to a run that closes.\<close>

theorem rolls_over_forever:
  assumes "leads lib cooperative \<sigma> \<sigma>'" and "run_of \<sigma> wid = Some w" and "rolling n w"
  shows "\<exists>w'. run_of \<sigma>' wid = Some w' \<and> rolling n w' \<and>
     (case wf_phase w' of Completed res \<Rightarrow> False | Closing inp a \<Rightarrow> False | _ \<Rightarrow> True)"
proof -
  obtain w' where w': "run_of \<sigma>' wid = Some w'" "rolling n w'" using rolling_forever [OF assms] by blast
  then have "case wf_phase w' of Completed res \<Rightarrow> False | Closing inp a \<Rightarrow> False | _ \<Rightarrow> True"
    by (simp add: rolling_def split: Phase.splits)
  with w' show ?thesis by blast
qed

theorem rolls_over_forever_witness:
  "\<exists>\<sigma> w. reachable sample_lib cooperative \<sigma> \<and> run_of \<sigma> (workflowID ''b1'') = Some w \<and>
     rolling 1000 w \<and> (case wf_phase w of Completed res \<Rightarrow> False | Closing inp a \<Rightarrow> False | _ \<Rightarrow> True)"
proof -
  obtain \<sigma> w where \<sigma>: "reachable sample_lib cooperative \<sigma>" "run_of \<sigma> (workflowID ''b1'') = Some w"
    "rolling 1000 w" using rolling_reachable by blast
  from rolls_over_forever [OF leads_refl \<sigma>(2,3)] \<sigma>(1) show ?thesis by blast
qed

text \<open>C35. Item ids are not looked for among the updates in progress. In any state of the service: when a
second update with the id of one under way arrives before the first returns, and no attempt fails, both
callers are told that their item was added, and the bill's running total and count grow by both, while
the tables have one more item, with the amount of the first.\<close>

theorem overlapping_duplicate_counted_twice:
  fixes \<sigma> :: "'d::linordered_ab_group_add Sys"
  assumes "run_of \<sigma> wid = Some w" and "serving (wf_phase w)" and "k = length (wf_handlers w)"
    and "validateAddLineItem (wf_bill w) inp = None" and "validateAddLineItem (wf_bill w) inp' = None"
    and "in_ItemID inp \<notin> wf_seen w" and "in_ItemID inp' = in_ItemID inp"
    and "can_post lib env (wf_bill w) inp (fst (sys_store \<sigma>))" and "smooth env'"
    and "pg_numeric lib (in_Amount inp') = Some a'" and "0 < a'"
  shows "\<exists>\<sigma>' w' u a. sys_run lib (map (RunEvent wid)
        [UpdateArrives inp now, UpdateArrives inp' now', AppendAttempt k env True, AppendAttempt (Suc k) env' True,
         AppendReturns k, AppendReturns k]) \<sigma> = Some \<sigma>' \<and>
      sys_replies \<sigma>' = sys_replies \<sigma> @
        [(wid, inp, Inr \<lparr>res_ItemID = in_ItemID inp, res_BillTotal = bill_TotalAmount (wf_bill w) + in_Amount inp,
            res_ItemCount = bill_ItemCount (wf_bill w) + 1\<rparr>),
         (wid, inp', Inr \<lparr>res_ItemID = in_ItemID inp,
            res_BillTotal = bill_TotalAmount (wf_bill w) + in_Amount inp + in_Amount inp',
            res_ItemCount = bill_ItemCount (wf_bill w) + 2\<rparr>)] \<and>
      run_of \<sigma>' wid = Some w' \<and>
      bill_TotalAmount (wf_bill w') = bill_TotalAmount (wf_bill w) + in_Amount inp + in_Amount inp' \<and>
      bill_ItemCount (wf_bill w') = bill_ItemCount (wf_bill w) + 2 \<and>
      pg_uuid lib (bill_ID (wf_bill w)) = Some u \<and> pg_numeric lib (in_Amount inp) = Some a \<and>
      length (items_of u (fst (sys_store \<sigma>'))) = length (items_of u (fst (sys_store \<sigma>))) + 1 \<and>
      items_total u (fst (sys_store \<sigma>')) = items_total u (fst (sys_store \<sigma>)) + a"
proof -
  obtain u a s' where tr: "run_trace lib [UpdateArrives inp now, UpdateArrives inp' now', AppendAttempt k env True,
        AppendAttempt (Suc k) env' True, AppendReturns k, AppendReturns k] w (sys_store \<sigma>) =
      Some (w\<lparr>wf_bill := applyItem inp' (applyItem inp (wf_bill w)), wf_seen := insert (in_ItemID inp) (wf_seen w)\<rparr>,
        s', [posted_reply inp (wf_bill w), posted_reply inp' (applyItem inp (wf_bill w))])"
    and u: "pg_uuid lib (bill_ID (wf_bill w)) = Some u" "pg_numeric lib (in_Amount inp) = Some a"
      "length (items_of u (fst s')) = length (items_of u (fst (sys_store \<sigma>))) + 1"
      "items_total u (fst s') = items_total u (fst (sys_store \<sigma>)) + a"
    using overlapping_trace [OF assms(2-)] by blast
  from sys_run_trace [OF assms(1) tr] u assms(7) show ?thesis
    by (auto simp: posted_reply_def applyItem_def)
qed

theorem overlapping_duplicate_counted_twice_witness:
  "\<exists>\<sigma> w. reachable column_lib always \<sigma> \<and> run_of \<sigma> (workflowID bill_uuid) = Some w \<and>
     bill_ItemCount (wf_bill w) = 2 \<and> length (items_of bill_uuid (fst (sys_store \<sigma>))) = 1"
proof -
  have "smooth (good_env ''e3'')" by code_simp
  moreover have "pg_numeric column_lib (in_Amount opened_item) = Some (1599 / 100)" by code_simp
  ultimately obtain \<sigma> w u where \<sigma>: "sys_run column_lib (map (RunEvent (workflowID bill_uuid))
        [UpdateArrives opened_item (at_time 1), UpdateArrives opened_item (at_time 2),
         AppendAttempt 0 (good_env ''e2'') True, AppendAttempt (Suc 0) (good_env ''e3'') True,
         AppendReturns 0, AppendReturns 0]) opened_sys = Some \<sigma>"
      "run_of \<sigma> (workflowID bill_uuid) = Some w" "bill_ItemCount (wf_bill w) = bill_ItemCount (wf_bill opened_run) + 2"
      "pg_uuid column_lib (bill_ID (wf_bill opened_run)) = Some u"
      "length (items_of u (fst (sys_store \<sigma>))) = length (items_of u (fst (sys_store opened_sys))) + 1"
    using overlapping_duplicate_counted_twice [OF opened_run_of opened_ready(1) _ opened_ready(2) opened_ready(2)
        opened_ready(3) refl opened_can_post, of 0 "good_env ''e3''" "1599 / 100" "at_time 1" "at_time 2"]
      opened_ready(4) by auto
  have "bill_ItemCount (wf_bill opened_run) = 0" "pg_uuid column_lib (bill_ID (wf_bill opened_run)) = Some bill_uuid"
    "items_of bill_uuid (fst (sys_store opened_sys)) = []" by code_simp+
  with \<sigma> reachable_run [OF opened_reachable \<sigma>(1)] show ?thesis by auto
qed

text \<open>C36. The primary key of \<open>line_items\<close> is the item id alone: an update whose id is that of an item
of another bill, whoever owns it, is answered with success and counted into this bill's total, while
the database stays as it is: the item is not stored under this bill.\<close>

theorem item_id_of_another_bill:
  fixes \<sigma> :: "'d::linordered_ab_group_add Sys"
  assumes "run_of \<sigma> wid = Some w" and "serving (wf_phase w)" and "k = length (wf_handlers w)"
    and "validateAddLineItem (wf_bill w) inp = None" and "in_ItemID inp \<notin> wf_seen w"
    and "pg_uuid lib (in_ItemID inp) = Some j" and "pg_uuid lib (bill_ID (wf_bill w)) = Some u"
    and "find_item j (fst (sys_store \<sigma>)) = Some row" and "lr_bill_id row \<noteq> u"
    and "pg_numeric lib (in_Amount inp) = Some a" and "0 < a" and "smooth env"
    and "reachable lib always \<sigma>"
  shows "\<exists>\<sigma>' w'. sys_run lib (map (RunEvent wid) [UpdateArrives inp now, AppendAttempt k env True, AppendReturns k]) \<sigma> =
        Some \<sigma>' \<and>
      sys_replies \<sigma>' = sys_replies \<sigma> @
        [(wid, inp, Inr \<lparr>res_ItemID = in_ItemID inp, res_BillTotal = bill_TotalAmount (wf_bill w) + in_Amount inp,
            res_ItemCount = bill_ItemCount (wf_bill w) + 1\<rparr>)] \<and>
      run_of \<sigma>' wid = Some w' \<and> bill_TotalAmount (wf_bill w') = bill_TotalAmount (wf_bill w) + in_Amount inp \<and>
      bill_ItemCount (wf_bill w') = bill_ItemCount (wf_bill w) + 1 \<and>
      fst (sys_store \<sigma>') = fst (sys_store \<sigma>) \<and>
      j \<notin> lr_id ` set (items_of u (fst (sys_store \<sigma>')))"
proof -
  have "id_taken lib (wf_bill w) inp (fst (sys_store \<sigma>))"
    using assms(6,7,8,10,11) unfolding id_taken_def by blast
  from sys_run_trace [OF assms(1) update_carried_out [OF assms(2,4,5) append_taken [OF assms(12) this, of now] assms(3)]]
  obtain \<sigma>' where "sys_run lib (map (RunEvent wid) [UpdateArrives inp now, AppendAttempt k env True, AppendReturns k]) \<sigma> =
        Some \<sigma>'" "run_of \<sigma>' wid =
      Some (w\<lparr>wf_bill := applyItem inp (wf_bill w), wf_seen := insert (in_ItemID inp) (wf_seen w)\<rparr>)"
    "fst (sys_store \<sigma>') = fst (sys_store \<sigma>)" "sys_replies \<sigma>' = sys_replies \<sigma> @ [(wid, posted_reply inp (wf_bill w))]"
    by auto
  moreover have "j \<notin> lr_id ` set (items_of u (fst (sys_store \<sigma>)))"
    using item_elsewhere [OF reachable_db_ok [OF assms(13)] assms(8,9)] .
  ultimately show ?thesis by (simp add: posted_reply_def applyItem_def)
qed

theorem item_id_of_another_bill_witness:
  "\<exists>\<sigma> w. reachable column_lib always \<sigma> \<and> run_of \<sigma> (workflowID bill_uuid2) = Some w \<and>
     bill_ItemCount (wf_bill w) = 1 \<and> items_of bill_uuid2 (fst (sys_store \<sigma>)) = []"
proof -
  obtain row where row: "find_item item_uuid (fst (sys_store two_bills)) = Some row" "lr_bill_id row \<noteq> bill_uuid2"
    using two_bills_item by (auto split: option.splits)
  from item_id_of_another_bill [OF two_bills_run second_ready(1) _ second_ready(2-5) row second_ready(6) _ _ two_bills_reachable,
      of 0 "good_env ''e4''" "at_time 1"] second_ready(7-)
  obtain \<sigma> w where \<sigma>: "sys_run column_lib (map (RunEvent (workflowID bill_uuid2)) [UpdateArrives beta_item (at_time 1),
        AppendAttempt 0 (good_env ''e4'') True, AppendReturns 0]) two_bills = Some \<sigma>"
      "run_of \<sigma> (workflowID bill_uuid2) = Some w" "bill_ItemCount (wf_bill w) = 1"
      "fst (sys_store \<sigma>) = fst (sys_store two_bills)"
    by auto
  with second_ready(10) reachable_run [OF two_bills_reachable \<sigma>(1)] show ?thesis by auto
qed

text \<open>C37. The validator does not look at the bill's status: an update that arrives once the run has
drained and is waiting for the activity that closes the bill is answered with success and stored under
the bill, and the row is closed with the total from before it.\<close>

theorem item_added_while_closing:
  fixes \<sigma> :: "'d::linordered_ab_group_add Sys"
  assumes "run_of \<sigma> wid = Some w" and "wf_phase w = Draining reason" and "reason \<noteq> CloseReasonNone"
    and "wf_handlers w = []" and "distinct ids" and "set ids = wf_seen w"
    and "validateAddLineItem (wf_bill w) inp = None" and "in_ItemID inp \<notin> wf_seen w"
    and "can_post lib env (wf_bill w) inp (fst (sys_store \<sigma>))" and "smooth env'"
    and "tx_fresh env' \<notin> insert (tx_fresh env) (er_id ` set (bill_events (fst (sys_store \<sigma>))))"
    and "pg_numeric lib (bill_TotalAmount (wf_bill w)) = Some t"
  shows "\<exists>\<sigma>' i u a row r. sys_run lib (map (RunEvent wid) [DrainReturns now ids, UpdateArrives inp now',
        AppendAttempt 0 env True, AppendReturns 0, CloseAttempt env' True, CloseReturns]) \<sigma> = Some \<sigma>' \<and>
      sys_replies \<sigma>' = sys_replies \<sigma> @
        [(wid, inp, Inr \<lparr>res_ItemID = in_ItemID inp, res_BillTotal = bill_TotalAmount (wf_bill w) + in_Amount inp,
            res_ItemCount = bill_ItemCount (wf_bill w) + 1\<rparr>)] \<and>
      pg_uuid lib (in_ItemID inp) = Some i \<and> pg_uuid lib (bill_ID (wf_bill w)) = Some u \<and>
      pg_numeric lib (in_Amount inp) = Some a \<and> 0 < a \<and>
      find_item i (fst (sys_store \<sigma>')) = Some row \<and> lr_bill_id row = u \<and> lr_amount row = a \<and>
      items_total u (fst (sys_store \<sigma>')) = items_total u (fst (sys_store \<sigma>)) + a \<and>
      find_bill u (fst (sys_store \<sigma>')) = Some r \<and> br_status r = BillStatusClosed \<and> br_total_amount r = t"
proof -
  obtain w' s' i u a row r where tr: "run_trace lib [DrainReturns now ids, UpdateArrives inp now',
        AppendAttempt 0 env True, AppendReturns 0, CloseAttempt env' True, CloseReturns] w (sys_store \<sigma>) =
      Some (w', s', [posted_reply inp (wf_bill w)])"
    and eff: "pg_uuid lib (in_ItemID inp) = Some i" "pg_uuid lib (bill_ID (wf_bill w)) = Some u"
      "pg_numeric lib (in_Amount inp) = Some a" "0 < a" "find_item i (fst s') = Some row" "lr_bill_id row = u"
      "lr_amount row = a" "items_total u (fst s') = items_total u (fst (sys_store \<sigma>)) + a"
      "find_bill u (fst s') = Some r" "br_status r = BillStatusClosed" "br_total_amount r = t"
    using closing_update_trace [OF assms(2-)] by blast
  from sys_run_trace [OF assms(1) tr] eff show ?thesis
    unfolding posted_reply_def by (metis (no_types, lifting) list.simps(8) list.simps(9))
qed

theorem item_added_while_closing_witness:
  "\<exists>\<sigma> row r. reachable column_lib always \<sigma> \<and> find_item item_uuid (fst (sys_store \<sigma>)) = Some row \<and>
     lr_bill_id row = bill_uuid \<and> find_bill bill_uuid (fst (sys_store \<sigma>)) = Some r \<and>
     br_status r = BillStatusClosed \<and> br_total_amount r = 0"
proof -
  have env: "smooth (good_env ''e3'')"
    "tx_fresh (good_env ''e3'') \<notin> insert (tx_fresh (good_env ''e2''))
       (er_id ` set (bill_events (fst (sys_store draining_sys))))"
    unfolding set_map [symmetric] draining_row(1) by code_simp+
  have ids: "distinct ([] :: string list)" "set [] = wf_seen draining_run" "in_ItemID opened_item \<notin> wf_seen draining_run"
    by (simp_all add: draining_ready)
  have id: "pg_uuid column_lib (in_ItemID opened_item) = Some item_uuid"
    "pg_uuid column_lib (bill_ID (wf_bill draining_run)) = Some bill_uuid" by code_simp+
  obtain \<sigma> i u row r where \<sigma>: "sys_run column_lib (map (RunEvent (workflowID bill_uuid)) [DrainReturns (at_time 9) [],
        UpdateArrives opened_item (at_time 9), AppendAttempt 0 (good_env ''e2'') True, AppendReturns 0,
        CloseAttempt (good_env ''e3'') True, CloseReturns]) draining_sys = Some \<sigma>"
      "pg_uuid column_lib (in_ItemID opened_item) = Some i" "pg_uuid column_lib (bill_ID (wf_bill draining_run)) = Some u"
      "find_item i (fst (sys_store \<sigma>)) = Some row" "lr_bill_id row = u" "find_bill u (fst (sys_store \<sigma>)) = Some r"
      "br_status r = BillStatusClosed" "br_total_amount r = 0"
    using item_added_while_closing [OF draining_run_of draining_ready(1) _ draining_ready(2) ids(1,2) draining_ready(4)
        ids(3) draining_can_post env draining_ready(6), of "at_time 9" "at_time 9"]
    by auto
  with id reachable_run [OF draining_reachable \<sigma>(1)] show ?thesis by auto
qed

text \<open>C38. CreateBill with the idempotency key of a bill that is closed answers OPEN with the id of the
closed bill and starts a new workflow for it; when that one is closed in turn, nothing failing, the row
of the bill is closed again with the total zero, whatever total it had and whatever items it has.\<close>

theorem reopened_bill_loses_total:
  fixes w :: "('d::linordered_ab_group_add, 'd Sys) World"
  assumes "valid_bill_request reg req"
    and "bid = newBillID lib fresh (callerAccountID data) (cq_IdempotencyKey req)"
    and "\<not> open_run (run_of (sys_of w) (workflowID bid))"
    and "pg_uuid lib bid = Some u" and "find_bill u (world_db w) = Some r" and "br_status r = BillStatusClosed"
    and "\<And>pe. cq_PeriodEnd req = Some pe \<Longrightarrow> 0 < time_Sub pe start"
    and "smooth env" and "smooth env'" and "tx_fresh env' \<notin> er_id ` set (bill_events (world_db w))"
    and "pg_numeric lib 0 = Some 0"
  shows "\<exists>resp w' \<sigma>' r'. CreateBill lib (sys_client lib now plan retained) rd reg data fresh req w = (Inr resp, w') \<and>
      cp_BillID resp = bid \<and> cp_Status resp = ''OPEN'' \<and> world_db w' = world_db w \<and>
      sys_run lib (map (RunEvent (workflowID bid)) [CreateAttempt env True, CreateReturns, SelectorStart start,
        SignalArrives, SelectorSignal, AwaitReturns, DrainReturns end' [], CloseAttempt env' True, CloseReturns])
        (sys_of w') = Some \<sigma>' \<and>
      items_of u (fst (sys_store \<sigma>')) = items_of u (world_db w) \<and>
      find_bill u (fst (sys_store \<sigma>')) = Some r' \<and> br_status r' = BillStatusClosed \<and> br_total_amount r' = 0"
proof -
  let ?inp = "createInput bid (callerAccountID data) req :: 'd BillWorkflowInput"
  let ?w' = "put_sys (set_run (workflowID bid) (startRun now 0 ?inp) (sys_of w))"
  have inp: "fresh_input ?inp" "wi_BillID ?inp = bid" "wi_PeriodEnd ?inp = cq_PeriodEnd req"
    by (simp_all add: createInput_def fresh_input_def)
  have "\<exists>w'' s' rs. run_trace lib [CreateAttempt env True, CreateReturns, SelectorStart start, SignalArrives,
        SelectorSignal, AwaitReturns, DrainReturns end' [], CloseAttempt env' True, CloseReturns]
        (startRun now 0 ?inp) (sys_store (sys_of w)) = Some (w'', s', rs) \<and>
      line_items (fst s') = line_items (fst (sys_store (sys_of w))) \<and>
      find_bill u (fst s') = Some (close_row 0 (pg_time lib end') (Some CloseReasonSignal) r)"
    by (rule reopened_trace [OF inp(1)]) (use assms(4-) inp in \<open>simp_all add: world_db_sys\<close>)
  then obtain w'' s' rs where tr: "run_trace lib [CreateAttempt env True, CreateReturns, SelectorStart start,
        SignalArrives, SelectorSignal, AwaitReturns, DrainReturns end' [], CloseAttempt env' True, CloseReturns]
        (startRun now 0 ?inp) (sys_store (sys_of ?w')) = Some (w'', s', rs)"
      "line_items (fst s') = line_items (world_db w)"
      "find_bill u (fst s') = Some (close_row 0 (pg_time lib end') (Some CloseReasonSignal) r)"
    by (auto simp: world_db_sys)
  have "run_of (sys_of ?w') (workflowID bid) = Some (startRun now 0 ?inp)" by simp
  from sys_run_trace [OF this tr(1)] CreateBill_starts [OF assms(1-3), of now plan retained rd]
    same_items(1) [OF tr(2), of u] tr(3)
  show ?thesis by (auto simp: close_row_def world_db_sys)
qed

theorem reopened_bill_loses_total_witness:
  "\<exists>\<sigma> r. find_bill bill_uuid (fst (sys_store \<sigma>)) = Some r \<and> br_status r = BillStatusClosed \<and>
     br_total_amount r = 0 \<and> length (items_of bill_uuid (fst (sys_store (\<sigma> :: rat Sys)))) = 2"
proof -
  obtain r where r: "find_bill bill_uuid (world_db settled_bill) = Some r" "br_status r = BillStatusClosed"
    using settled_row by (auto split: option.splits)
  have env: "smooth (good_env ''e5'')" "smooth (good_env ''e6'')"
    "tx_fresh (good_env ''e6'') \<notin> er_id ` set (bill_events (world_db settled_bill))" by code_simp+
  have key: "bill_uuid = newBillID desk_lib ''f1'' (callerAccountID (caller ''acct-alpha'' ClientStatusActive))
      (cq_IdempotencyKey again_request)" by code_simp
  have zero: "pg_numeric desk_lib 0 = Some 0" "pg_uuid desk_lib bill_uuid = Some bill_uuid" by code_simp+
  have period: "\<And>pe. cq_PeriodEnd again_request = Some pe \<Longrightarrow> 0 < time_Sub pe (at_time 10)"
    by (simp add: again_request_def)
  from reopened_bill_loses_total [OF settled_again(1) key settled_again(2) zero(2) r period env zero(1),
      of "at_time 10" no_events False all_read "at_time 11"] settled_items
  show ?thesis by metis
qed



text \<open>C40. Two requests with the same unknown account at the same time: if the other one caches the
miss between this one's two looks into the cache, the nil pointer comes back as a client and the
auth handler panics.\<close>

theorem unknown_account_panics:
  assumes "TrimSpace header \<noteq> ''''" and "find_client (TrimSpace header) db = None"
  shows "fst (AuthHandler clientCache (\<lambda>c. snd (lookupClient clientCache (\<lambda>c. c) now None (TrimSpace header) db c))
      now None header db []) = Panics"
  using assms by (rule unknown_twice)

theorem unknown_account_panics_witness:
  "fst (AuthHandler clientCache (\<lambda>c. snd (lookupClient clientCache (\<lambda>c. c) 0 None (TrimSpace '' ghost '')
      (seed_db :: rat DB) c)) 0 None '' ghost '' (seed_db :: rat DB) []) = Panics"
  by (rule unknown_account_panics [OF unknown_header])

end
